(* ===== verification/Go_Prelude.thy ===== *)
theory Go_Prelude
  imports Main "HOL-Library.AList" "HOL-Library.Sublist" "HOL-Library.Multiset"
begin

text \<open>
  The part of Go that the components share, and the lemmas their proofs rest on.

  \<^item> Strings and byte slices are \<open>string\<close> (a list of bytes); \<open>strings.Split\<close>,
    \<open>strings.Contains\<close>, \<open>strings.Index\<close>, \<open>strings.TrimSpace\<close>, \<open>strings.Join\<close>,
    \<open>strings.ReplaceAll\<close> and decimal printing are executable functions on it.
  \<^item> A Go map is an association list. Go leaves the order in which a \<open>range\<close> loop visits
    a map unspecified: the list order stands for the order the run picks, so a theorem for
    every association list is a theorem for every order.
  \<^item> A call that may panic returns a value of \<open>'a go\<close>.
\<close>

section \<open>Collections of facts\<close>

named_theorems gm_simps \<open>rewriting of Go map operations\<close>
named_theorems str_simps \<open>rewriting of Go string operations\<close>

section \<open>Panics\<close>

text \<open>\<open>Ret x\<close>: the call returned \<open>x\<close>. \<open>Panic\<close>: it panicked (nil dereference, write to a
  nil map, failed type assertion, index out of range). \<open>Unfinished\<close>: the call depth given to the
  model was used up.\<close>

datatype 'a go = Ret 'a | Panic | Unfinished

text \<open>A Go \<open>error\<close> is the text it prints; \<open>nil\<close> is \<open>None\<close>, or the other side of a sum.\<close>

type_synonym go_error = string

section \<open>Go maps\<close>

type_synonym ('k, 'v) gomap = "('k \<times> 'v) list"

definition gm_get :: "('k, 'v) gomap \<Rightarrow> 'k \<Rightarrow> 'v option" where
  "gm_get m k = map_of m k"

definition gm_set :: "'k \<Rightarrow> 'v \<Rightarrow> ('k, 'v) gomap \<Rightarrow> ('k, 'v) gomap" where
  "gm_set k v m = AList.update k v m"

definition gm_del :: "'k \<Rightarrow> ('k, 'v) gomap \<Rightarrow> ('k, 'v) gomap" where
  "gm_del k m = AList.delete k m"

definition gm_has :: "('k, 'v) gomap \<Rightarrow> 'k \<Rightarrow> bool" where
  "gm_has m k = (gm_get m k \<noteq> None)"

definition gm_keys :: "('k, 'v) gomap \<Rightarrow> 'k list" where
  "gm_keys m = map fst m"

text \<open>A missing key of a \<open>map[string]string\<close> reads as the empty string.\<close>

definition gm_str :: "('k, string) gomap \<Rightarrow> 'k \<Rightarrow> string" where
  "gm_str m k = (case gm_get m k of None \<Rightarrow> [] | Some v \<Rightarrow> v)"

definition gm_wf :: "('k, 'v) gomap \<Rightarrow> bool" where
  "gm_wf m = distinct (gm_keys m)"

lemma gm_get_set [simp, gm_simps]: "gm_get (gm_set k v m) = (gm_get m)(k \<mapsto> v)"
  by (auto simp: gm_get_def gm_set_def AList.update_conv')

lemma gm_get_del [simp, gm_simps]: "gm_get (gm_del k m) = (gm_get m)(k := None)"
  by (auto simp: gm_get_def gm_del_def AList.delete_conv')

lemma gm_get_Nil [simp, gm_simps]: "gm_get [] k = None"
  by (simp add: gm_get_def)

lemma gm_get_Cons [gm_simps]: "gm_get ((k', v) # m) k = (if k = k' then Some v else gm_get m k)"
  by (simp add: gm_get_def)

lemma gm_has_set [simp, gm_simps]: "gm_has (gm_set k v m) k' = (k' = k \<or> gm_has m k')"
  by (simp add: gm_has_def)

lemma gm_has_keys: "gm_has m k = (k \<in> set (gm_keys m))"
  by (metis gm_has_def gm_get_def gm_keys_def map_of_eq_None_iff list.set_map)

lemma gm_get_in_set: "gm_get m k = Some v \<Longrightarrow> (k, v) \<in> set m"
  by (simp add: gm_get_def map_of_SomeD)

lemma gm_get_eq: "gm_wf m \<Longrightarrow> (k, v) \<in> set m \<Longrightarrow> gm_get m k = Some v"
  by (simp add: gm_get_def gm_wf_def gm_keys_def)

lemma gm_wf_set [simp, intro]: "gm_wf m \<Longrightarrow> gm_wf (gm_set k v m)"
  by (simp add: gm_wf_def gm_keys_def gm_set_def distinct_update)

lemma gm_wf_del [simp, intro]: "gm_wf m \<Longrightarrow> gm_wf (gm_del k m)"
  by (simp add: gm_wf_def gm_keys_def gm_del_def distinct_delete)

lemma gm_wf_Nil [simp, intro]: "gm_wf []"
  by (simp add: gm_wf_def gm_keys_def)

lemma gm_keys_Nil [simp]: "gm_keys [] = []"
  by (simp add: gm_keys_def)

lemma gm_keys_set: "set (gm_keys (gm_set k v m)) = insert k (set (gm_keys m))"
  by (auto simp: gm_has_keys [symmetric])

lemma gm_set_fresh: "k \<notin> set (gm_keys m) \<Longrightarrow> gm_set k v m = m @ [(k, v)]"
  unfolding gm_set_def gm_keys_def by (induction m) auto

text \<open>Two orders of the same map read alike.\<close>

lemma gm_get_perm:
  assumes "gm_wf m" and "mset m = mset m'"
  shows "gm_get m = gm_get m'"
proof -
  have "distinct (map fst m)" using assms(1) by (simp add: gm_wf_def gm_keys_def)
  moreover have "distinct (map fst m')"
    using assms by (metis gm_keys_def gm_wf_def mset_eq_imp_distinct_iff mset_map)
  moreover have "set m = set m'" using assms(2) by (rule mset_eq_setD)
  ultimately have "map_of m = map_of m'" by (simp only: map_of_inject_set)
  then show ?thesis by (auto simp: gm_get_def)
qed

text \<open>Copying the entries of one map into another.\<close>

lemma foldl_set_get:
  assumes "gm_wf kvs"
  shows "gm_get (foldl (\<lambda>m kv. gm_set (fst kv) (snd kv) m) m kvs) k = (case gm_get kvs k of None \<Rightarrow> gm_get m k | Some v \<Rightarrow> Some v)"
  using assms
proof (induction kvs arbitrary: m)
  case (Cons kv kvs)
  then have "gm_get kvs (fst kv) = None"
    by (cases kv) (auto simp: gm_wf_def gm_keys_def gm_get_def map_of_eq_None_iff)
  moreover have "gm_wf kvs" using Cons.prems by (simp add: gm_wf_def gm_keys_def)
  ultimately show ?case using Cons.IH by (cases kv) (auto simp: gm_simps split: option.split)
qed simp

section \<open>Strings\<close>

type_synonym bytes = string

text \<open>\<open>strings.Split(s, sep)\<close> for a non-empty \<open>sep\<close>: leftmost matches that do not overlap. The
  counter \<open>k\<close> is the number of bytes of a match still to be skipped.\<close>

fun split_go :: "string \<Rightarrow> nat \<Rightarrow> string \<Rightarrow> string \<Rightarrow> string list" where
  "split_go sep k acc [] = [rev acc]"
| "split_go sep (Suc k) acc (c # cs) = split_go sep k acc cs"
| "split_go sep 0 acc (c # cs) =
     (if prefix sep (c # cs) then rev acc # split_go sep (length sep - 1) [] cs
      else split_go sep 0 (c # acc) cs)"

definition str_split :: "string \<Rightarrow> string \<Rightarrow> string list" where
  "str_split s sep = split_go sep 0 [] s"

text \<open>\<open>strings.ReplaceAll(s, old, new)\<close> for a non-empty \<open>old\<close>.\<close>

fun replace_go :: "string \<Rightarrow> string \<Rightarrow> nat \<Rightarrow> string \<Rightarrow> string" where
  "replace_go old new k [] = []"
| "replace_go old new (Suc k) (c # cs) = replace_go old new k cs"
| "replace_go old new 0 (c # cs) =
     (if prefix old (c # cs) then new @ replace_go old new (length old - 1) cs
      else c # replace_go old new 0 cs)"

definition str_replace_all :: "string \<Rightarrow> string \<Rightarrow> string \<Rightarrow> string" where
  "str_replace_all s old new = replace_go old new 0 s"

fun str_join :: "string \<Rightarrow> string list \<Rightarrow> string" where
  "str_join sep [] = []"
| "str_join sep [x] = x"
| "str_join sep (x # y # xs) = x @ sep @ str_join sep (y # xs)"

text \<open>\<open>strings.Index\<close>: the position of the first match, \<open>None\<close> for Go's \<open>-1\<close>.\<close>

fun str_index :: "string \<Rightarrow> string \<Rightarrow> nat option" where
  "str_index [] sub = (if sub = [] then Some 0 else None)"
| "str_index (c # cs) sub =
     (if prefix sub (c # cs) then Some 0 else map_option Suc (str_index cs sub))"

definition str_contains :: "string \<Rightarrow> string \<Rightarrow> bool" where
  "str_contains s sub = (str_index s sub \<noteq> None)"

text \<open>\<open>strings.TrimSpace\<close> on ASCII white space: tab, line feed, vertical tab, form feed, carriage
  return and space.\<close>

definition is_space :: "char \<Rightarrow> bool" where
  "is_space c = (c = CHR 0x09 \<or> c = CHR 0x0A \<or> c = CHR 0x0B \<or> c = CHR 0x0C \<or> c = CHR 0x0D \<or> c = CHR '' '')"

definition trim_space :: "string \<Rightarrow> string" where
  "trim_space s = rev (dropWhile is_space (rev (dropWhile is_space s)))"

lemma split_go_no_sep:
  assumes "c \<notin> set s"
  shows "split_go [c] 0 acc s = [rev acc @ s]"
  using assms by (induction s arbitrary: acc) auto

lemma split_go_sep:
  assumes "c \<notin> set s"
  shows "split_go [c] 0 acc (s @ c # t) = (rev acc @ s) # split_go [c] 0 [] t"
  using assms by (induction s arbitrary: acc) auto

lemma str_split_no_sep [str_simps]: "c \<notin> set s \<Longrightarrow> str_split s [c] = [s]"
  by (simp add: str_split_def split_go_no_sep)

lemma str_split_append [str_simps]:
  "c \<notin> set s \<Longrightarrow> str_split (s @ c # t) [c] = s # str_split t [c]"
  by (simp add: str_split_def split_go_sep)

text \<open>Splitting what was joined gives the parts back, when no part holds the separator.\<close>

lemma str_split_join:
  assumes "xs \<noteq> []" and "\<forall>x \<in> set xs. c \<notin> set x"
  shows "str_split (str_join [c] xs) [c] = xs"
  using assms
proof (induction xs)
  case (Cons x xs)
  then show ?case by (cases xs) (auto simp: str_simps)
qed simp

lemma split_go_not_Nil [simp]: "split_go sep k acc s \<noteq> []"
  by (induction sep k acc s rule: split_go.induct) auto

lemma str_split_not_Nil [simp]: "str_split s sep \<noteq> []"
  by (simp add: str_split_def)

lemma str_index_Some_iff: "str_index s sub = Some i \<longleftrightarrow>
    i \<le> length s \<and> prefix sub (drop i s) \<and> (\<forall>j < i. \<not> prefix sub (drop j s))"
proof (induction s arbitrary: i)
  case (Cons c cs)
  show ?case
  proof (cases i)
    case 0
    then show ?thesis by (auto split: if_splits)
  next
    case (Suc k)
    then show ?thesis using Cons by (auto simp: less_Suc_eq_0_disj)
  qed
qed auto

lemma str_contains_sublist: "str_contains s sub = sublist sub s"
proof -
  have "str_index s sub \<noteq> None \<longleftrightarrow> sublist sub s"
    by (induction s) (auto simp: sublist_Cons_right)
  then show ?thesis by (simp add: str_contains_def)
qed

section \<open>Decimal numbers\<close>

definition digit_char :: "nat \<Rightarrow> char" where
  "digit_char n = char_of (48 + n)"

fun string_of_nat :: "nat \<Rightarrow> string" where
  "string_of_nat n =
     (if n < 10 then [digit_char n] else string_of_nat (n div 10) @ [digit_char (n mod 10)])"

declare string_of_nat.simps [simp del]

definition string_of_int :: "int \<Rightarrow> string" where
  "string_of_int i = (if i < 0 then CHR ''-'' # string_of_nat (nat (- i)) else string_of_nat (nat i))"

definition digit_val :: "char \<Rightarrow> nat option" where
  "digit_val c = (let n = of_char c :: nat in if 48 \<le> n \<and> n \<le> 57 then Some (n - 48) else None)"

fun parse_digits :: "nat \<Rightarrow> string \<Rightarrow> nat option" where
  "parse_digits acc [] = Some acc"
| "parse_digits acc (c # cs) =
     (case digit_val c of None \<Rightarrow> None | Some d \<Rightarrow> parse_digits (10 * acc + d) cs)"

definition parse_nat :: "string \<Rightarrow> nat option" where
  "parse_nat s = (if s = [] then None else parse_digits 0 s)"

text \<open>\<open>strconv.ParseUint(s, 10, w)\<close> and \<open>strconv.ParseInt(s, 10, w)\<close>: \<open>None\<close> for a syntax or a
  range error. Only the signed one takes a sign.\<close>

definition parse_uint :: "nat \<Rightarrow> string \<Rightarrow> nat option" where
  "parse_uint w s = (case parse_nat s of
     None \<Rightarrow> None | Some n \<Rightarrow> if n < 2 ^ w then Some n else None)"

definition parse_int :: "nat \<Rightarrow> string \<Rightarrow> int option" where
  "parse_int w s =
     (let (neg, ds) = (case s of
            [] \<Rightarrow> (False, [])
          | c # cs \<Rightarrow> if c = CHR ''-'' then (True, cs) else if c = CHR ''+'' then (False, cs) else (False, s))
      in case parse_nat ds of
           None \<Rightarrow> None
         | Some n \<Rightarrow> let i = (if neg then - int n else int n) in
             if - (2 ^ (w - 1)) \<le> i \<and> i < 2 ^ (w - 1) then Some i else None)"

lemma of_char_digit: "n < 10 \<Longrightarrow> (of_char (digit_char n) :: nat) = 48 + n"
  by (simp add: digit_char_def)

lemma digit_val_char [simp]: "n < 10 \<Longrightarrow> digit_val (digit_char n) = Some n"
  by (simp add: digit_val_def Let_def of_char_digit)

lemma string_of_nat_not_Nil [simp]: "string_of_nat n \<noteq> []"
  by (subst string_of_nat.simps) simp

lemma parse_digits_append:
  "parse_digits acc (xs @ ys) = Option.bind (parse_digits acc xs) (\<lambda>a. parse_digits a ys)"
  by (induction acc xs rule: parse_digits.induct) (auto split: option.splits)

lemma parse_digits_string_of_nat: "parse_digits 0 (string_of_nat n) = Some n"
proof (induction n rule: string_of_nat.induct)
  case (1 n)
  show ?case
  proof (cases "n < 10")
    case True
    then show ?thesis by (subst string_of_nat.simps) simp
  next
    case False
    with "1.IH" show ?thesis
      by (subst string_of_nat.simps) (simp add: parse_digits_append)
  qed
qed

lemma parse_nat_string_of_nat [simp]: "parse_nat (string_of_nat n) = Some n"
  by (simp add: parse_nat_def parse_digits_string_of_nat)

lemma string_of_nat_inj [simp]: "string_of_nat m = string_of_nat n \<longleftrightarrow> m = n"
  by (metis option.inject parse_nat_string_of_nat)

lemma string_of_nat_digits: "c \<in> set (string_of_nat n) \<Longrightarrow> \<exists>d < 10. c = digit_char d"
proof (induction n rule: string_of_nat.induct)
  case (1 n)
  show ?case
  proof (cases "n < 10")
    case True
    with "1.prems" show ?thesis by (subst (asm) string_of_nat.simps) auto
  next
    case False
    have "c \<in> set (string_of_nat (n div 10)) \<or> c = digit_char (n mod 10)"
      using "1.prems" False by (subst (asm) string_of_nat.simps) auto
    with "1.IH" [OF False] show ?thesis by (metis mod_less_divisor zero_less_numeral)
  qed
qed

text \<open>A printed number holds none of the separators the code splits at.\<close>

lemma string_of_nat_no_char:
  assumes "of_char c < (48 :: nat) \<or> 57 < (of_char c :: nat)"
  shows "c \<notin> set (string_of_nat n)"
proof
  assume "c \<in> set (string_of_nat n)"
  then obtain d where "d < 10" "c = digit_char d" using string_of_nat_digits by blast
  with assms show False by (simp add: of_char_digit)
qed

lemma parse_int_string_of_nat:
  assumes "int n < 2 ^ (w - 1)"
  shows "parse_int w (string_of_nat n) = Some (int n)"
proof -
  obtain c cs where s: "string_of_nat n = c # cs"
    by (metis string_of_nat_not_Nil neq_Nil_conv)
  have "CHR ''-'' \<notin> set (string_of_nat n)" "CHR ''+'' \<notin> set (string_of_nat n)"
    by (simp_all add: string_of_nat_no_char)
  with s have "c \<noteq> CHR ''-''" "c \<noteq> CHR ''+''" by auto
  moreover have "parse_nat (c # cs) = Some n"
    using parse_nat_string_of_nat [of n] s by simp
  moreover have "- (2 ^ (w - 1)) \<le> int n" by (simp add: order_trans [of _ 0])
  ultimately show ?thesis using assms by (simp add: parse_int_def s Let_def)
qed

end
