(* ===== verification/GMC_Types.thy ===== *)
theory GMC_Types
  imports Go_Prelude
begin

text \<open>
  The \<open>v1alpha3\<close> API types (\<open>api/v1alpha3/gmconnector_types.go\<close>): a GMConnector is a graph
  of routing nodes, each with a router type and a list of steps. A step runs another node
  (\<open>NodeName\<close>), a service the controller deploys (\<open>InternalService\<close>) or a given URL
  (\<open>ExternalService\<close>). Go's string-typed enumerations stay strings, since a decoded graph can
  hold any text there; a map that code compares with \<open>nil\<close> is an option.
  Of the Kubernetes \<open>ObjectMeta\<close> and \<open>TypeMeta\<close> the fields the program reads are kept.
\<close>

section \<open>Steps and routers\<close>

record GMCTarget =
  ServiceName :: string
  NameSpace :: string
  Config :: "(string, string) gomap option"
  IsDownstreamService :: bool

type_synonym StepDependencyType = string

abbreviation Soft :: StepDependencyType where "Soft \<equiv> ''Soft''"
abbreviation Hard :: StepDependencyType where "Hard \<equiv> ''Hard''"

record Executor =
  NodeName :: string
  InternalService :: GMCTarget
  ExternalService :: string

record Step =
  StepName :: string
  StepExecutor :: Executor
  Data :: string
  Condition :: string
  Dependency :: StepDependencyType
  ServiceURL :: string

text \<open>\<open>Executor\<close> is embedded in \<open>Step\<close>: its fields are the step's.\<close>

abbreviation step_node :: "Step \<Rightarrow> string" where "step_node s \<equiv> NodeName (StepExecutor s)"
abbreviation step_target :: "Step \<Rightarrow> GMCTarget" where "step_target s \<equiv> InternalService (StepExecutor s)"
abbreviation step_external :: "Step \<Rightarrow> string" where "step_external s \<equiv> ExternalService (StepExecutor s)"
abbreviation step_service :: "Step \<Rightarrow> string" where "step_service s \<equiv> ServiceName (step_target s)"
abbreviation step_downstream :: "Step \<Rightarrow> bool" where "step_downstream s \<equiv> IsDownstreamService (step_target s)"

type_synonym RouterType = string

abbreviation Sequence :: RouterType where "Sequence \<equiv> ''Sequence''"
abbreviation Ensemble :: RouterType where "Ensemble \<equiv> ''Ensemble''"
abbreviation Switch :: RouterType where "Switch \<equiv> ''Switch''"

record Router =
  routerType :: RouterType
  Steps :: "Step list"

record RouterConfig =
  rc_Name :: string
  rc_ServiceName :: string
  rc_NameSpace :: string
  rc_Config :: "(string, string) gomap option"

record GMConnectorSpec =
  Nodes :: "(string, Router) gomap"
  routerConfig :: RouterConfig

section \<open>Status and metadata\<close>

record GMConnectorCondition =
  gc_Type :: string
  gc_Message :: string
  gc_Reason :: string
  gc_LastUpdateTime :: string

record GMConnectorStatus =
  gs_Condition :: GMConnectorCondition
  gs_Status :: string
  AccessURL :: string
  Annotations :: "(string, string) gomap"

record TypeMeta =
  tm_Kind :: string
  tm_APIVersion :: string

record OwnerReference =
  or_Kind :: string
  or_Name :: string

record ObjectMeta =
  om_Name :: string
  om_Namespace :: string
  om_Labels :: "(string, string) gomap option"
  om_DeletionTimestamp :: "string option"
  om_ResourceVersion :: string
  om_OwnerReferences :: "OwnerReference list"

record GMConnector =
  gm_TypeMeta :: TypeMeta
  gm_ObjectMeta :: ObjectMeta
  gm_Spec :: GMConnectorSpec
  gm_Status :: GMConnectorStatus

abbreviation graph_nodes :: "GMConnector \<Rightarrow> (string, Router) gomap" where
  "graph_nodes g \<equiv> Nodes (gm_Spec g)"

abbreviation graph_name :: "GMConnector \<Rightarrow> string" where
  "graph_name g \<equiv> om_Name (gm_ObjectMeta g)"

abbreviation graph_ns :: "GMConnector \<Rightarrow> string" where
  "graph_ns g \<equiv> om_Namespace (gm_ObjectMeta g)"

section \<open>Zero values\<close>

definition zero_target :: GMCTarget where
  "zero_target = \<lparr>ServiceName = [], NameSpace = [], Config = None, IsDownstreamService = False\<rparr>"

definition zero_executor :: Executor where
  "zero_executor = \<lparr>NodeName = [], InternalService = zero_target, ExternalService = []\<rparr>"

definition zero_step :: Step where
  "zero_step = \<lparr>StepName = [], StepExecutor = zero_executor, Data = [], Condition = [],
     Dependency = [], ServiceURL = []\<rparr>"

definition zero_router :: Router where
  "zero_router = \<lparr>routerType = [], Steps = []\<rparr>"

definition zero_router_config :: RouterConfig where
  "zero_router_config = \<lparr>rc_Name = [], rc_ServiceName = [], rc_NameSpace = [], rc_Config = None\<rparr>"

definition zero_meta :: ObjectMeta where
  "zero_meta = \<lparr>om_Name = [], om_Namespace = [], om_Labels = None, om_DeletionTimestamp = None,
     om_ResourceVersion = [], om_OwnerReferences = []\<rparr>"

definition zero_type_meta :: TypeMeta where
  "zero_type_meta = \<lparr>tm_Kind = [], tm_APIVersion = []\<rparr>"

definition zero_status :: GMConnectorStatus where
  "zero_status = \<lparr>gs_Condition = \<lparr>gc_Type = [], gc_Message = [], gc_Reason = [], gc_LastUpdateTime = []\<rparr>,
     gs_Status = [], AccessURL = [], Annotations = []\<rparr>"

text \<open>\<open>GMConnector{}\<close> with the spec \<open>sp\<close>.\<close>

definition graph_of_spec :: "GMConnectorSpec \<Rightarrow> GMConnector" where
  "graph_of_spec sp = \<lparr>gm_TypeMeta = zero_type_meta, gm_ObjectMeta = zero_meta, gm_Spec = sp,
     gm_Status = zero_status\<rparr>"

lemmas zero_defs = zero_target_def zero_executor_def zero_step_def zero_router_def
  zero_router_config_def zero_meta_def zero_type_meta_def zero_status_def graph_of_spec_def

text \<open>\<open>graph.Spec.Nodes[name]\<close>: a missing node reads as the zero \<open>Router\<close>.\<close>

definition node_at :: "(string, Router) gomap \<Rightarrow> string \<Rightarrow> Router" where
  "node_at nodes name = (case gm_get nodes name of None \<Rightarrow> zero_router | Some r \<Rightarrow> r)"

text \<open>All steps of a graph, in the order the nodes are visited.\<close>

definition all_steps :: "(string, Router) gomap \<Rightarrow> Step list" where
  "all_steps nodes = concat (map (\<lambda>nr. Steps (snd nr)) nodes)"

lemma all_steps_simps [simp]:
  "all_steps [] = []"
  "all_steps ((n, r) # nodes) = Steps r @ all_steps nodes"
  by (simp_all add: all_steps_def)

lemma all_steps_iff: "s \<in> set (all_steps nodes) \<longleftrightarrow> (\<exists>(n, r) \<in> set nodes. s \<in> set (Steps r))"
  by (force simp: all_steps_def)

lemma node_at_step:
  assumes "st \<in> set (Steps (node_at nodes n))"
  shows "st \<in> set (all_steps nodes)" and "n \<in> set (gm_keys nodes)"
proof -
  from assms obtain r where r: "gm_get nodes n = Some r" "st \<in> set (Steps r)"
    by (auto simp: node_at_def zero_router_def split: option.splits)
  then have "(n, r) \<in> set nodes" by (simp add: gm_get_in_set)
  with r show "st \<in> set (all_steps nodes)" by (auto simp: all_steps_iff)
  from r show "n \<in> set (gm_keys nodes)" by (simp add: gm_has_keys [symmetric] gm_has_def)
qed

lemma all_steps_perm: "mset nodes = mset nodes' \<Longrightarrow> mset (all_steps nodes) = mset (all_steps nodes')"
proof -
  assume "mset nodes = mset nodes'"
  then have "mset (map (\<lambda>nr. mset (Steps (snd nr))) nodes) = mset (map (\<lambda>nr. mset (Steps (snd nr))) nodes')"
    by simp
  then have "sum_list (map (\<lambda>nr. mset (Steps (snd nr))) nodes) = sum_list (map (\<lambda>nr. mset (Steps (snd nr))) nodes')"
    by (metis sum_mset_sum_list)
  then show ?thesis by (simp add: all_steps_def mset_concat comp_def)
qed

end
