(* ===== verification/Validating_Webhook.thy ===== *)
theory Validating_Webhook
  imports GMC_Types
begin

text \<open>
  The admission webhook (\<open>api/v1alpha3/validating_webhook.go\<close>): every step of a submitted graph
  must have a known name, refer to a node that exists and use a service name of its own, and there
  must be a node \<open>root\<close>. The checks collect their errors in a list; a graph is admitted when the
  list is empty. \<open>field.Path\<close> is the list of its parts, \<open>field.Error\<close> its path, bad value and
  detail text.
\<close>

section \<open>The checks\<close>

definition stepNames :: "string list" where
  "stepNames = [''TeiEmbedding'', ''TeiEmbeddingGaudi'', ''Embedding'', ''VectorDB'', ''Retriever'',
     ''Reranking'', ''TeiReranking'', ''Tgi'', ''TgiGaudi'', ''TgiNvidia'', ''Llm'', ''DocSum'',
     ''Router'', ''WebRetriever'', ''Asr'', ''Tts'', ''SpeechT5'', ''SpeechT5Gaudi'', ''Whisper'',
     ''WhisperGaudi'', ''DataPrep'', ''UI'']"

type_synonym field_path = "string list"

datatype bad_value = BadStep Step | BadNodes "(string, Router) gomap"

record field_error =
  fe_path :: field_path
  fe_value :: bad_value
  fe_detail :: string

definition child :: "field_path \<Rightarrow> string \<Rightarrow> field_path" where
  "child p name = p @ [name]"

definition steps_idx :: "nat \<Rightarrow> string" where
  "steps_idx idx = ''steps['' @ string_of_nat idx @ '']''"

definition checkStepName :: "Step \<Rightarrow> nat \<Rightarrow> field_path \<Rightarrow> string \<Rightarrow> field_error option" where
  "checkStepName s idx fldRoot nodeName =
     (let p = child (child (child fldRoot nodeName) (steps_idx idx)) ''name'' in
      if length (StepName s) = 0 then
        Some \<lparr>fe_path = p, fe_value = BadStep s,
          fe_detail = ''the step name for node '' @ nodeName @ '' cannot be empty''\<rparr>
      else if StepName s \<notin> set stepNames then
        Some \<lparr>fe_path = p, fe_value = BadStep s,
          fe_detail = ''invalid step name: '' @ StepName s @ '' for node '' @ nodeName\<rparr>
      else None)"

definition nodeNameExists :: "string \<Rightarrow> string list \<Rightarrow> bool" where
  "nodeNameExists name nodes = (if length name = 0 then True else name \<in> set nodes)"

definition getKeys :: "(string, Router) gomap \<Rightarrow> string list" where
  "getKeys m = foldl (\<lambda>keys kv. keys @ [fst kv]) [] m"

text \<open>The body of the inner loop of \<open>validateNames\<close>: the errors and the service names so far.\<close>

definition validate_step :: "string list \<Rightarrow> field_path \<Rightarrow> string \<Rightarrow> nat \<Rightarrow> Step \<Rightarrow>
    field_error list \<times> string list \<Rightarrow> field_error list \<times> string list" where
  "validate_step nodeNames fldPath name idx step st =
     (let (errs, serviceNames) = st;
          errs = (case checkStepName step idx fldPath name of None \<Rightarrow> errs | Some e \<Rightarrow> errs @ [e]);
          errs = (if \<not> nodeNameExists (step_node step) nodeNames then
                    errs @ [\<lparr>fe_path = child (child (child fldPath name) (steps_idx idx)) ''nodeName'',
                      fe_value = BadStep step,
                      fe_detail = ''node name: '' @ step_node step @ '' in step '' @ StepName step @ '' does not exist''\<rparr>]
                  else errs)
      in if length (step_service step) \<noteq> 0 \<and> step_service step \<in> set serviceNames then
           (errs @ [\<lparr>fe_path = child (child (child (child fldPath name) (steps_idx idx)) ''internalService'') ''serviceName'',
              fe_value = BadStep step,
              fe_detail = ''service name: '' @ step_service step @ '' in node '' @ name @ '' already exists''\<rparr>],
            serviceNames)
         else (errs, serviceNames @ [step_service step]))"

fun validate_steps :: "string list \<Rightarrow> field_path \<Rightarrow> string \<Rightarrow> nat \<Rightarrow> Step list \<Rightarrow>
    field_error list \<times> string list \<Rightarrow> field_error list \<times> string list" where
  "validate_steps nodeNames fldPath name idx [] st = st"
| "validate_steps nodeNames fldPath name idx (step # steps) st =
     validate_steps nodeNames fldPath name (Suc idx) steps
       (validate_step nodeNames fldPath name idx step st)"

fun validate_nodes :: "string list \<Rightarrow> field_path \<Rightarrow> (string, Router) gomap \<Rightarrow>
    field_error list \<times> string list \<Rightarrow> field_error list \<times> string list" where
  "validate_nodes nodeNames fldPath [] st = st"
| "validate_nodes nodeNames fldPath ((name, router) # rest) st =
     validate_nodes nodeNames fldPath rest (validate_steps nodeNames fldPath name 0 (Steps router) st)"

definition validateNames :: "(string, Router) gomap \<Rightarrow> field_path \<Rightarrow> field_error list" where
  "validateNames nodes fldPath = fst (validate_nodes (getKeys nodes) fldPath nodes ([], []))"

definition validateRootExistance :: "(string, Router) gomap \<Rightarrow> field_path \<Rightarrow> field_error option" where
  "validateRootExistance nodes fldPath =
     (if gm_has nodes ''root'' then None
      else Some \<lparr>fe_path = fldPath, fe_value = BadNodes nodes, fe_detail = ''a root node is required''\<rparr>)"

definition checkfields :: "GMConnector \<Rightarrow> field_error list" where
  "checkfields r =
     (let p = [''spec'', ''nodes''];
          allErrs = validateNames (graph_nodes r) p
      in case validateRootExistance (graph_nodes r) p of
           None \<Rightarrow> allErrs | Some err \<Rightarrow> allErrs @ [err])"

text \<open>\<open>apierrors.NewInvalid(schema.GroupKind{group, kind}, name, errs)\<close>.\<close>

datatype api_error = Invalid string string string "field_error list"

definition validateGMConnector :: "GMConnector \<Rightarrow> api_error option" where
  "validateGMConnector r =
     (let err = checkfields r in
      if err \<noteq> [] then Some (Invalid ''gmc.opea.io'' ''GMCConnector'' (graph_name r) err) else None)"

definition ValidateCreate :: "GMConnector \<Rightarrow> api_error option" where
  "ValidateCreate r = validateGMConnector r"

definition ValidateUpdate :: "GMConnector \<Rightarrow> GMConnector \<Rightarrow> api_error option" where
  "ValidateUpdate r old = validateGMConnector r"

definition ValidateDelete :: "GMConnector \<Rightarrow> api_error option" where
  "ValidateDelete r = None"

section \<open>What an admitted graph satisfies\<close>

definition bad_name :: "Step \<Rightarrow> bool" where
  "bad_name s = (StepName s \<notin> set stepNames)"

definition dangling :: "(string, Router) gomap \<Rightarrow> Step \<Rightarrow> bool" where
  "dangling nodes s = (step_node s \<noteq> [] \<and> \<not> gm_has nodes (step_node s))"

definition service_names :: "Step list \<Rightarrow> string list" where
  "service_names steps = filter (\<lambda>n. n \<noteq> []) (map step_service steps)"

text \<open>The declarative reading of the checks on names.\<close>

definition names_valid :: "(string, Router) gomap \<Rightarrow> bool" where
  "names_valid nodes = ((\<forall>s \<in> set (all_steps nodes). \<not> bad_name s \<and> \<not> dangling nodes s)
     \<and> distinct (service_names (all_steps nodes)))"

definition graph_valid :: "GMConnector \<Rightarrow> bool" where
  "graph_valid g = (names_valid (graph_nodes g) \<and> gm_has (graph_nodes g) ''root'')"

section \<open>Counting the errors\<close>

text \<open>How many names of \<open>xs\<close> the loop reports as taken, when \<open>seen\<close> are the names before.\<close>

fun dup_count :: "string set \<Rightarrow> string list \<Rightarrow> nat" where
  "dup_count seen [] = 0"
| "dup_count seen (x # xs) =
     (if x \<noteq> [] \<and> x \<in> seen then Suc (dup_count seen xs) else dup_count (insert x seen) xs)"

lemma dup_count_card:
  "dup_count seen xs + card (set (filter (\<lambda>n. n \<noteq> []) xs) - seen) = length (filter (\<lambda>n. n \<noteq> []) xs)"
proof (induction xs arbitrary: seen)
  case (Cons x xs)
  let ?N = "set (filter (\<lambda>n. n \<noteq> []) xs)"
  show ?case
  proof (cases "x \<noteq> [] \<and> x \<notin> seen")
    case True
    have "insert x ?N - seen = insert x (?N - insert x seen)" using True by auto
    then have "card (insert x ?N - seen) = Suc (card (?N - insert x seen))"
      by (simp add: card_insert_if)
    then show ?thesis using True Cons [of "insert x seen"] by simp
  next
    case False
    then consider "x = []" | "x \<noteq> []" "x \<in> seen" by blast
    then show ?thesis
    proof cases
      case 1
      have "?N - insert [] seen = ?N - seen" by auto
      then show ?thesis using 1 Cons [of "insert [] seen"] by simp
    next
      case 2
      then show ?thesis using Cons [of seen] by (simp add: insert_Diff_if)
    qed
  qed
qed simp

lemma dup_count_append:
  "dup_count seen (xs @ ys) = dup_count seen xs + dup_count (seen \<union> set xs) ys"
  by (induction seen xs rule: dup_count.induct) (auto simp: insert_absorb)

lemma dup_count_empty: "dup_count {} xs = length (filter (\<lambda>n. n \<noteq> []) xs) - card (set (filter (\<lambda>n. n \<noteq> []) xs))"
  using dup_count_card [of "{}" xs] by simp

lemma getKeys_eq: "getKeys m = gm_keys m"
proof -
  have "foldl (\<lambda>keys kv. keys @ [fst kv]) ks m = ks @ map fst m" for ks
    by (induction m arbitrary: ks) auto
  from this [of "[]"] show ?thesis by (simp add: getKeys_def gm_keys_def)
qed

lemma nodeNameExists_iff: "nodeNameExists (step_node s) (getKeys nodes) = (\<not> dangling nodes s)"
  by (auto simp: nodeNameExists_def dangling_def getKeys_eq gm_has_keys)

lemma checkStepName_None: "checkStepName s idx p n = None \<longleftrightarrow> \<not> bad_name s"
  by (auto simp: checkStepName_def bad_name_def stepNames_def Let_def)

text \<open>One loop step: the number of errors it adds and the service names it remembers.\<close>

definition step_errors :: "(string, Router) gomap \<Rightarrow> Step \<Rightarrow> nat" where
  "step_errors nodes s = of_bool (bad_name s) + of_bool (dangling nodes s)"

lemma validate_step_length:
  "length (fst (validate_step (getKeys nodes) p n idx s (errs, svc))) =
     length errs + step_errors nodes s + dup_count (set svc) [step_service s]"
  using checkStepName_None [of s idx p n]
  by (auto simp: validate_step_def step_errors_def nodeNameExists_iff Let_def split: option.splits)

lemma validate_step_names:
  "set (snd (validate_step keys p n idx s (errs, svc))) = insert (step_service s) (set svc)"
  by (auto simp: validate_step_def Let_def split: option.splits)

lemma validate_steps_length:
  "length (fst (validate_steps (getKeys nodes) p n idx steps (errs, svc))) =
     length errs + sum_list (map (step_errors nodes) steps) + dup_count (set svc) (map step_service steps)
   \<and> set (snd (validate_steps (getKeys nodes) p n idx steps (errs, svc))) =
       set svc \<union> set (map step_service steps)"
proof (induction steps arbitrary: idx errs svc)
  case (Cons s steps)
  obtain errs' svc' where st: "validate_step (getKeys nodes) p n idx s (errs, svc) = (errs', svc')"
    by fastforce
  have len: "length errs' = length errs + step_errors nodes s + dup_count (set svc) [step_service s]"
    and svc: "set svc' = insert (step_service s) (set svc)"
    using validate_step_length [of nodes p n idx s errs svc]
      validate_step_names [of "getKeys nodes" p n idx s errs svc] st by simp_all
  have dup: "dup_count (set svc) (map step_service (s # steps)) =
      dup_count (set svc) [step_service s] + dup_count (set svc') (map step_service steps)"
    using dup_count_append [of "set svc" "[step_service s]" "map step_service steps"] svc by simp
  from Cons [of "Suc idx" errs' svc'] len svc dup show ?case
    by (simp del: dup_count.simps add: st)
qed simp

lemma validate_nodes_length:
  "length (fst (validate_nodes (getKeys nodes) p ns (errs, svc))) =
     length errs + sum_list (map (step_errors nodes) (all_steps ns))
     + dup_count (set svc) (map step_service (all_steps ns))"
proof (induction ns arbitrary: errs svc)
  case (Cons nr ns)
  obtain n r where nr: "nr = (n, r)" by fastforce
  obtain errs' svc' where
    st: "validate_steps (getKeys nodes) p n 0 (Steps r) (errs, svc) = (errs', svc')" by fastforce
  show ?case
    using Cons [of errs' svc'] validate_steps_length [of nodes p n 0 "Steps r" errs svc]
    by (simp add: nr st dup_count_append)
qed simp

lemma sum_step_errors:
  "sum_list (map (step_errors nodes) steps) =
     length (filter bad_name steps) + length (filter (dangling nodes) steps)"
  by (induction steps) (auto simp: step_errors_def)

lemma validateNames_length:
  "length (validateNames nodes p) =
     length (filter bad_name (all_steps nodes)) + length (filter (dangling nodes) (all_steps nodes))
     + (length (service_names (all_steps nodes)) - card (set (service_names (all_steps nodes))))"
  using validate_nodes_length [of nodes p nodes "[]" "[]"]
  by (simp add: validateNames_def sum_step_errors dup_count_empty service_names_def)

lemma names_valid_iff_no_error: "validateNames nodes p = [] \<longleftrightarrow> names_valid nodes"
proof -
  let ?ne = "service_names (all_steps nodes)"
  have le: "card (set ?ne) \<le> length ?ne" by (rule card_length)
  have dist: "card (set ?ne) = length ?ne \<longleftrightarrow> distinct ?ne"
    using card_distinct distinct_card by blast
  have "validateNames nodes p = [] \<longleftrightarrow> length (validateNames nodes p) = 0" by simp
  also have "\<dots> \<longleftrightarrow> names_valid nodes"
    using le dist by (auto simp: validateNames_length names_valid_def filter_empty_conv)
  finally show ?thesis .
qed

lemma graph_valid_iff_admitted: "validateGMConnector g = None \<longleftrightarrow> graph_valid g"
  by (auto simp: validateGMConnector_def checkfields_def validateRootExistance_def graph_valid_def
      names_valid_iff_no_error Let_def)

text \<open>The verdict does not depend on the order in which the node map is visited.\<close>

lemma gm_has_perm: "mset m = mset m' \<Longrightarrow> gm_has m k = gm_has m' k"
  by (metis gm_has_keys gm_keys_def list.set_map mset_eq_setD)

lemma names_valid_perm:
  assumes "mset nodes = mset nodes'"
  shows "names_valid nodes = names_valid nodes'"
proof -
  have steps: "mset (all_steps nodes) = mset (all_steps nodes')"
    using assms by (rule all_steps_perm)
  have "mset (service_names (all_steps nodes)) = mset (service_names (all_steps nodes'))"
    using steps by (simp add: service_names_def mset_filter)
  then have "distinct (service_names (all_steps nodes)) = distinct (service_names (all_steps nodes'))"
    by (rule mset_eq_imp_distinct_iff)
  moreover have "dangling nodes s = dangling nodes' s" for s
    using gm_has_perm [OF assms] by (simp add: dangling_def)
  moreover have "set (all_steps nodes) = set (all_steps nodes')"
    using steps by (rule mset_eq_setD)
  ultimately show ?thesis by (simp add: names_valid_def)
qed

section \<open>Properties\<close>

text \<open>An example graph: the node \<open>root\<close> with the given steps, and nodes without steps.\<close>

definition example_step :: "string \<Rightarrow> string \<Rightarrow> string \<Rightarrow> Step" where
  "example_step name node service = zero_step\<lparr>StepName := name,
     StepExecutor := zero_executor\<lparr>NodeName := node, InternalService := zero_target\<lparr>ServiceName := service\<rparr>\<rparr>\<rparr>"

definition example_graph :: "(string, Router) gomap \<Rightarrow> GMConnector" where
  "example_graph nodes = graph_of_spec \<lparr>Nodes = nodes, routerConfig = zero_router_config\<rparr>"

lemma example_graph_nodes [simp]: "graph_nodes (example_graph nodes) = nodes" "graph_ns (example_graph nodes) = []"
  by (simp_all add: example_graph_def graph_of_spec_def zero_meta_def)

lemma checkfields_length:
  "length (checkfields g) = length (validateNames (graph_nodes g) [''spec'', ''nodes'']) + of_bool (\<not> gm_has (graph_nodes g) ''root'')"
  by (simp add: checkfields_def validateRootExistance_def Let_def)

text \<open>C5: the webhook admits a graph exactly when every step has a known name, refers to no missing node, no
  two steps use the same service name, and there is a node \<open>root\<close>; creation and update decide alike and
  a deletion is never refused.\<close>

theorem admission_iff_graph_valid:
  "(ValidateCreate g = None \<longleftrightarrow> graph_valid g) \<and> (ValidateUpdate g old = None \<longleftrightarrow> graph_valid g) \<and>
   ValidateDelete g = None"
  by (simp add: ValidateCreate_def ValidateUpdate_def ValidateDelete_def graph_valid_iff_admitted)

text \<open>C26: nothing is reported twice or dropped: the number of errors is the number of steps with a bad name, plus
  the steps that refer to a missing node, plus the service names in excess of the distinct ones, plus
  one when \<open>root\<close> is missing.\<close>

theorem admission_error_count:
  "length (checkfields g) =
     length (filter bad_name (all_steps (graph_nodes g))) +
     length (filter (dangling (graph_nodes g)) (all_steps (graph_nodes g))) +
     (length (service_names (all_steps (graph_nodes g))) - card (set (service_names (all_steps (graph_nodes g))))) +
     of_bool (\<not> gm_has (graph_nodes g) ''root'')"
  by (simp add: checkfields_length validateNames_length)

text \<open>C27: the verdict and the number of errors do not depend on the order in which Go visits the node map.\<close>

theorem admission_order_independent:
  assumes "mset (graph_nodes g) = mset (graph_nodes g')"
  shows "(validateGMConnector g = None) = (validateGMConnector g' = None) \<and> length (checkfields g) = length (checkfields g')"
proof
  let ?a = "all_steps (graph_nodes g)" and ?b = "all_steps (graph_nodes g')"
  have steps: "mset ?a = mset ?b" using assms by (rule all_steps_perm)
  then have svc: "mset (service_names ?a) = mset (service_names ?b)"
    by (simp add: service_names_def)
  have "dangling (graph_nodes g) = dangling (graph_nodes g')"
    using gm_has_perm [OF assms] by (auto simp: dangling_def)
  moreover have "length (filter P ?a) = length (filter P ?b)" for P
    using steps by (metis mset_filter size_mset)
  moreover have "length (service_names ?a) = length (service_names ?b)"
    using svc by (rule mset_eq_length)
  moreover have "set (service_names ?a) = set (service_names ?b)"
    using svc by (rule mset_eq_setD)
  ultimately show "length (checkfields g) = length (checkfields g')"
    using gm_has_perm [OF assms] by (simp add: checkfields_length validateNames_length)
  show "(validateGMConnector g = None) = (validateGMConnector g' = None)"
    using names_valid_perm [OF assms] gm_has_perm [OF assms] by (simp add: graph_valid_iff_admitted graph_valid_def)
qed

theorem admission_order_independent_witness:
  "length (checkfields (example_graph [(''root'', \<lparr>routerType = Sequence, Steps = [example_step ''Llm'' ''x'' ''a'']\<rparr>),
       (''b'', \<lparr>routerType = Switch, Steps = [example_step ''Lm'' [] ''a'']\<rparr>)])) =
   length (checkfields (example_graph [(''b'', \<lparr>routerType = Switch, Steps = [example_step ''Lm'' [] ''a'']\<rparr>),
       (''root'', \<lparr>routerType = Sequence, Steps = [example_step ''Llm'' ''x'' ''a'']\<rparr>)]))"
  by (rule conjunct2, rule admission_order_independent) simp

end
