(* ===== verification/Go_Json.thy ===== *)
theory Go_Json
  imports Go_Prelude "HOL-Library.Char_ord" "HOL-Library.List_Lexorder"
begin

text \<open>
  What the router uses of \<open>encoding/json\<close>: decoding into \<open>interface{}\<close> values
  (\<open>unmarshal\<close>) and encoding them (\<open>marshal\<close>), executable on byte strings.

  \<^item> Objects decode into Go maps: a repeated key keeps its last value; \<open>marshal\<close> writes keys in
    byte order.
  \<^item> Strings: all escapes, \<open>\u\<close> escapes with surrogate pairs, invalid UTF-8 replaced by U+FFFD on
    both sides, HTML characters and U+2028/U+2029 escaped on output, as \<open>json.Marshal\<close> does.
  \<^item> Numbers decode into \<open>float64\<close>. The model keeps a number as its exact decimal value, sign,
    mantissa and power of ten without trailing zeros. It prints as the float prints for every literal
    of at most 15 significant digits and decimal exponent within \<open>-307..308\<close>, where the decimal and
    the binary value determine each other. Larger exponents are refused, as Go refuses them.
  \<^item> The limit of 10000 nested values is not modelled.
\<close>

section \<open>Values\<close>

datatype gnum = GNum (gn_neg: bool) (gn_mant: nat) (gn_exp: int)

datatype json = JNull | JBool bool | JNum gnum | JStr string | JArr "json list"
  | JObj "(string \<times> json) list"

text \<open>A JSON text as it is written: the members of an object in order, repeated keys included, and numbers of any
  size. What a decoder makes of it depends on the Go type it decodes into.\<close>

datatype jtree = TNull | TBool bool | TNum gnum | TStr string | TArr "jtree list"
  | TObj "(string \<times> jtree) list"

section \<open>Bytes\<close>

abbreviation ord_of :: "char \<Rightarrow> nat" where "ord_of c \<equiv> of_char c"

abbreviation quote :: char where "quote \<equiv> CHR 0x22"
abbreviation backslash :: char where "backslash \<equiv> CHR 0x5C"

definition is_json_space :: "char \<Rightarrow> bool" where
  "is_json_space c = (c = CHR '' '' \<or> c = CHR 0x09 \<or> c = CHR 0x0A \<or> c = CHR 0x0D)"

definition skip_ws :: "string \<Rightarrow> string" where
  "skip_ws s = dropWhile is_json_space s"

definition is_digit :: "char \<Rightarrow> bool" where
  "is_digit c = (48 \<le> ord_of c \<and> ord_of c \<le> 57)"

definition cont_byte :: "char \<Rightarrow> bool" where
  "cont_byte c = (0x80 \<le> ord_of c \<and> ord_of c \<le> 0xBF)"

text \<open>\<open>utf8.DecodeRune\<close>: the length of the valid encoding at the head of the string, 0 if the
  bytes there are not valid UTF-8.\<close>

fun utf8_len :: "string \<Rightarrow> nat" where
  "utf8_len [] = 0"
| "utf8_len (c # cs) =
     (let n = ord_of c in
      if n < 0x80 then 1
      else if 0xC2 \<le> n \<and> n \<le> 0xDF then
        (case cs of d # _ \<Rightarrow> if cont_byte d then 2 else 0 | _ \<Rightarrow> 0)
      else if 0xE0 \<le> n \<and> n \<le> 0xEF then
        (case cs of d # e # _ \<Rightarrow>
           if cont_byte d \<and> cont_byte e \<and> (n = 0xE0 \<longrightarrow> 0xA0 \<le> ord_of d) \<and> (n = 0xED \<longrightarrow> ord_of d \<le> 0x9F)
           then 3 else 0
         | _ \<Rightarrow> 0)
      else if 0xF0 \<le> n \<and> n \<le> 0xF4 then
        (case cs of d # e # f # _ \<Rightarrow>
           if cont_byte d \<and> cont_byte e \<and> cont_byte f \<and> (n = 0xF0 \<longrightarrow> 0x90 \<le> ord_of d)
              \<and> (n = 0xF4 \<longrightarrow> ord_of d \<le> 0x8F)
           then 4 else 0
         | _ \<Rightarrow> 0)
      else 0)"

definition replacement :: string where
  "replacement = [CHR 0xEF, CHR 0xBF, CHR 0xBD]"

text \<open>\<open>utf8.EncodeRune\<close> for a code point that is not a surrogate.\<close>

definition utf8_encode :: "nat \<Rightarrow> string" where
  "utf8_encode n =
     (if n < 0x80 then [char_of n]
      else if n < 0x800 then [char_of (0xC0 + n div 64), char_of (0x80 + n mod 64)]
      else if n < 0x10000 then
        [char_of (0xE0 + n div 4096), char_of (0x80 + n div 64 mod 64), char_of (0x80 + n mod 64)]
      else
        [char_of (0xF0 + n div 262144), char_of (0x80 + n div 4096 mod 64),
         char_of (0x80 + n div 64 mod 64), char_of (0x80 + n mod 64)])"

definition hex_char :: "nat \<Rightarrow> char" where
  "hex_char n = (if n < 10 then char_of (48 + n) else char_of (87 + n))"

definition hex_val :: "char \<Rightarrow> nat option" where
  "hex_val c = (let n = ord_of c in
     if 48 \<le> n \<and> n \<le> 57 then Some (n - 48)
     else if 97 \<le> n \<and> n \<le> 102 then Some (n - 87)
     else if 65 \<le> n \<and> n \<le> 70 then Some (n - 55) else None)"

fun hex4 :: "string \<Rightarrow> nat option" where
  "hex4 (a # b # c # d # _) =
     (case (hex_val a, hex_val b, hex_val c, hex_val d) of
        (Some w, Some x, Some y, Some z) \<Rightarrow> Some (((w * 16 + x) * 16 + y) * 16 + z)
      | _ \<Rightarrow> None)"
| "hex4 _ = None"

section \<open>Encoding\<close>

text \<open>\<open>appendString\<close>: \<open>k\<close> counts the bytes of a character that are still to be copied (\<open>True\<close>)
  or dropped (\<open>False\<close>).\<close>

definition esc_ascii :: "char \<Rightarrow> string" where
  "esc_ascii c =
     (if c = quote \<or> c = backslash then [backslash, c]
      else if c = CHR 0x08 then [backslash, CHR ''b'']
      else if c = CHR 0x0C then [backslash, CHR ''f'']
      else if c = CHR 0x0A then [backslash, CHR ''n'']
      else if c = CHR 0x0D then [backslash, CHR ''r'']
      else if c = CHR 0x09 then [backslash, CHR ''t'']
      else if ord_of c < 0x20 \<or> c = CHR ''<'' \<or> c = CHR ''>'' \<or> c = CHR ''&'' then
        [backslash, CHR ''u'', CHR ''0'', CHR ''0'', hex_char (ord_of c div 16), hex_char (ord_of c mod 16)]
      else [c])"

fun esc_go :: "bool \<Rightarrow> nat \<Rightarrow> string \<Rightarrow> string" where
  "esc_go copy k [] = []"
| "esc_go copy (Suc k) (c # cs) = (if copy then c # esc_go copy k cs else esc_go copy k cs)"
| "esc_go copy 0 (c # cs) =
     (if ord_of c < 0x80 then esc_ascii c @ esc_go True 0 cs
      else if utf8_len (c # cs) = 0 then (backslash # ''ufffd'') @ esc_go True 0 cs
      else if prefix [CHR 0xE2, CHR 0x80, CHR 0xA8] (c # cs) then (backslash # ''u2028'') @ esc_go False 2 cs
      else if prefix [CHR 0xE2, CHR 0x80, CHR 0xA9] (c # cs) then (backslash # ''u2029'') @ esc_go False 2 cs
      else c # esc_go True (utf8_len (c # cs) - 1) cs)"

definition enc_string :: "string \<Rightarrow> string" where
  "enc_string s = quote # esc_go True 0 s @ [quote]"

text \<open>\<open>floatEncoder\<close>: plain digits, or an exponent below \<open>1e-6\<close> and from \<open>1e21\<close> on.\<close>

definition enc_num :: "gnum \<Rightarrow> string" where
  "enc_num x = (case x of GNum neg m e \<Rightarrow>
     let ds = string_of_nat m; nd = int (length ds); dp = nd + e;
         body =
           (if m = 0 then ''0''
            else if dp < -5 \<or> 21 < dp then
              [hd ds] @ (if tl ds = [] then [] else CHR ''.'' # tl ds) @ ''e'' @
              (if dp - 1 < 0 then ''-'' else ''+'') @ string_of_nat (nat \<bar>dp - 1\<bar>)
            else if dp \<le> 0 then ''0.'' @ replicate (nat (- dp)) CHR ''0'' @ ds
            else if nd \<le> dp then ds @ replicate (nat (dp - nd)) CHR ''0''
            else take (nat dp) ds @ ''.'' @ drop (nat dp) ds)
     in (if neg then CHR ''-'' # body else body))"

fun marshal :: "json \<Rightarrow> string" where
  "marshal JNull = ''null''"
| "marshal (JBool b) = (if b then ''true'' else ''false'')"
| "marshal (JNum x) = enc_num x"
| "marshal (JStr s) = enc_string s"
| "marshal (JArr vs) = ''['' @ str_join '','' (map marshal vs) @ '']''"
| "marshal (JObj m) =
     ''{'' @ str_join '','' (map (\<lambda>kv. enc_string (fst kv) @ '':'' @ snd kv)
               (sort_key fst (map (\<lambda>kv. (fst kv, marshal (snd kv))) m))) @ ''}''"

section \<open>Decoding\<close>

text \<open>The text of a string literal after its opening quote, up to the closing one; \<open>unq_go\<close> is
  \<open>unquote\<close> on that text. The scanner refuses control characters and unknown escapes.\<close>

fun scan_string :: "string \<Rightarrow> (string \<times> string) option" where
  "scan_string [] = None"
| "scan_string (c # cs) =
     (if c = quote then Some ([], cs)
      else if ord_of c < 0x20 then None
      else if c = backslash then
        (case cs of [] \<Rightarrow> None
         | d # ds \<Rightarrow>
            if d \<in> set (quote # backslash # ''/bfnrt'') then
              map_option (\<lambda>(t, r). (c # d # t, r)) (scan_string ds)
            else if d = CHR ''u'' \<and> hex4 ds \<noteq> None then
              map_option (\<lambda>(t, r). (c # d # t, r)) (scan_string ds)
            else None)
      else map_option (\<lambda>(t, r). (c # t, r)) (scan_string cs))"

definition unesc_char :: "char \<Rightarrow> char" where
  "unesc_char d =
     (if d = CHR ''b'' then CHR 0x08 else if d = CHR ''f'' then CHR 0x0C
      else if d = CHR ''n'' then CHR 0x0A else if d = CHR ''r'' then CHR 0x0D
      else if d = CHR ''t'' then CHR 0x09 else d)"

fun unq_go :: "bool \<Rightarrow> nat \<Rightarrow> string \<Rightarrow> string" where
  "unq_go copy k [] = []"
| "unq_go copy (Suc k) (c # cs) = (if copy then c # unq_go copy k cs else unq_go copy k cs)"
| "unq_go copy 0 (c # cs) =
     (if c = backslash then
        (case cs of [] \<Rightarrow> []
         | d # ds \<Rightarrow>
            if d = CHR ''u'' then
              (case hex4 ds of
                 None \<Rightarrow> []
               | Some n \<Rightarrow>
                   if 0xD800 \<le> n \<and> n < 0xE000 then
                     (case (drop 4 ds, hex4 (drop 6 ds)) of
                        (a # b # _, Some n2) \<Rightarrow>
                          if a = backslash \<and> b = CHR ''u'' \<and> n < 0xDC00 \<and> 0xDC00 \<le> n2 \<and> n2 < 0xE000 then
                            utf8_encode (0x10000 + (n - 0xD800) * 0x400 + (n2 - 0xDC00)) @ unq_go False 11 cs
                          else replacement @ unq_go False 5 cs
                      | _ \<Rightarrow> replacement @ unq_go False 5 cs)
                   else utf8_encode n @ unq_go False 5 cs)
            else unesc_char d # unq_go False 1 cs)
      else if ord_of c < 0x80 then c # unq_go True 0 cs
      else if utf8_len (c # cs) = 0 then replacement @ unq_go True 0 cs
      else c # unq_go True (utf8_len (c # cs) - 1) cs)"

function norm_num :: "nat \<Rightarrow> int \<Rightarrow> nat \<times> int" where
  "norm_num m e = (if m = 0 then (0, 0) else if m mod 10 = 0 then norm_num (m div 10) (e + 1) else (m, e))"
  by pat_completeness auto
termination
  by (relation "measure fst") auto

declare norm_num.simps [simp del]

definition digits_val :: "string \<Rightarrow> nat" where
  "digits_val ds = (case parse_digits 0 ds of None \<Rightarrow> 0 | Some n \<Rightarrow> n)"

definition p_fraction :: "string \<Rightarrow> (string \<times> string) option" where
  "p_fraction s = (case s of
     c # r \<Rightarrow> if c = CHR ''.'' then
         (let fs = takeWhile is_digit r in if fs = [] then None else Some (fs, dropWhile is_digit r))
       else Some ([], s)
   | [] \<Rightarrow> Some ([], []))"

definition p_exponent :: "string \<Rightarrow> (int \<times> string) option" where
  "p_exponent s = (case s of
     c # r \<Rightarrow> if c = CHR ''e'' \<or> c = CHR ''E'' then
         (let (sg, r') = (case r of d # r2 \<Rightarrow> if d = CHR ''-'' then (-1, r2) else if d = CHR ''+'' then (1, r2) else (1, r)
                          | [] \<Rightarrow> (1, []));
              es = takeWhile is_digit r'
          in if es = [] then None else Some (sg * int (digits_val es), dropWhile is_digit r'))
       else Some (0, s)
   | [] \<Rightarrow> Some (0, []))"

definition p_number :: "string \<Rightarrow> (gnum \<times> string) option" where
  "p_number s =
     (let (neg, s1) = (case s of c # r \<Rightarrow> if c = CHR ''-'' then (True, r) else (False, s) | [] \<Rightarrow> (False, []));
          ds = takeWhile is_digit s1; s2 = dropWhile is_digit s1
      in if ds = [] \<or> (hd ds = CHR ''0'' \<and> 1 < length ds) then None
         else case p_fraction s2 of
           None \<Rightarrow> None
         | Some (fs, s3) \<Rightarrow>
             (case p_exponent s3 of
                None \<Rightarrow> None
              | Some (e, s4) \<Rightarrow>
                  let (m, e') = norm_num (digits_val (ds @ fs)) (e - int (length fs)) in Some (GNum neg m e', s4)))"

text \<open>Whether a number is in the range of \<open>float64\<close>.\<close>

fun num_fits :: "gnum \<Rightarrow> bool" where
  "num_fits (GNum neg m e) = (m = 0 \<or> int (length (string_of_nat m)) + e \<le> 309)"

definition p_literal :: "string \<Rightarrow> jtree \<Rightarrow> string \<Rightarrow> (jtree \<times> string) option" where
  "p_literal lit v s = (if prefix lit s then Some (v, drop (length lit) s) else None)"

text \<open>The value parser; the first argument bounds the call depth (\<open>parse_json\<close> gives enough).\<close>

fun p_value :: "nat \<Rightarrow> string \<Rightarrow> (jtree \<times> string) option"
  and p_elems :: "nat \<Rightarrow> string \<Rightarrow> (jtree list \<times> string) option"
  and p_members :: "nat \<Rightarrow> string \<Rightarrow> ((string \<times> jtree) list \<times> string) option" where
  "p_value 0 s = None"
| "p_value (Suc n) s =
     (case skip_ws s of
        [] \<Rightarrow> None
      | c # cs \<Rightarrow>
          if c = quote then map_option (\<lambda>(t, r). (TStr (unq_go True 0 t), r)) (scan_string cs)
          else if c = CHR ''{'' then
            (case skip_ws cs of
               d # ds \<Rightarrow> if d = CHR ''}'' then Some (TObj [], ds)
                 else map_option (\<lambda>(m, r). (TObj m, r)) (p_members n (d # ds))
             | [] \<Rightarrow> None)
          else if c = CHR ''['' then
            (case skip_ws cs of
               d # ds \<Rightarrow> if d = CHR '']'' then Some (TArr [], ds)
                 else map_option (\<lambda>(vs, r). (TArr vs, r)) (p_elems n (d # ds))
             | [] \<Rightarrow> None)
          else if c = CHR ''t'' then p_literal ''true'' (TBool True) (c # cs)
          else if c = CHR ''f'' then p_literal ''false'' (TBool False) (c # cs)
          else if c = CHR ''n'' then p_literal ''null'' TNull (c # cs)
          else map_option (\<lambda>(x, r). (TNum x, r)) (p_number (c # cs)))"
| "p_elems 0 s = None"
| "p_elems (Suc n) s =
     (case p_value n s of
        None \<Rightarrow> None
      | Some (v, r) \<Rightarrow>
          (case skip_ws r of
             d # ds \<Rightarrow> if d = CHR '','' then map_option (\<lambda>(vs, r'). (v # vs, r')) (p_elems n ds)
               else if d = CHR '']'' then Some ([v], ds) else None
           | [] \<Rightarrow> None))"
| "p_members 0 s = None"
| "p_members (Suc n) s =
     (case skip_ws s of
        [] \<Rightarrow> None
      | q # qs \<Rightarrow>
          if q \<noteq> quote then None else
          (case scan_string qs of
             None \<Rightarrow> None
           | Some (t, r) \<Rightarrow>
               (case skip_ws r of
                  [] \<Rightarrow> None
                | c # cs \<Rightarrow>
                    if c \<noteq> CHR '':'' then None else
                    (case p_value n cs of
                       None \<Rightarrow> None
                     | Some (v, r2) \<Rightarrow>
                         (let kv = (unq_go True 0 t, v) in
                          case skip_ws r2 of
                            d # ds \<Rightarrow> if d = CHR '','' then map_option (\<lambda>(ms, r'). (kv # ms, r')) (p_members n ds)
                              else if d = CHR ''}'' then Some ([kv], ds) else None
                          | [] \<Rightarrow> None)))))"

definition parse_json :: "bytes \<Rightarrow> jtree option" where
  "parse_json s = (case p_value (2 * length s + 2) s of
     Some (v, r) \<Rightarrow> if skip_ws r = [] then Some v else None
   | None \<Rightarrow> None)"

text \<open>Decoding into \<open>interface{}\<close>.\<close>

fun any_value :: "jtree \<Rightarrow> json option" where
  "any_value TNull = Some JNull"
| "any_value (TBool b) = Some (JBool b)"
| "any_value (TNum x) = (if num_fits x then Some (JNum x) else None)"
| "any_value (TStr s) = Some (JStr s)"
| "any_value (TArr ts) = map_option JArr (those (map any_value ts))"
| "any_value (TObj ms) =
     map_option (\<lambda>kvs. JObj (foldl (\<lambda>m (k, v). gm_set k v m) [] kvs))
       (those (map (\<lambda>kt. map_option (Pair (fst kt)) (any_value (snd kt))) ms))"

definition unmarshal :: "bytes \<Rightarrow> json option" where
  "unmarshal s = Option.bind (parse_json s) any_value"

text \<open>\<open>json.Unmarshal(data, &m)\<close> for \<open>m map[string]interface{}\<close>: \<open>None\<close> is an error,
  \<open>Some None\<close> the nil map that a JSON \<open>null\<close> gives.\<close>

definition unmarshal_map :: "bytes \<Rightarrow> (string, json) gomap option option" where
  "unmarshal_map s = (case unmarshal s of
     Some (JObj m) \<Rightarrow> Some (Some m) | Some JNull \<Rightarrow> Some None | _ \<Rightarrow> None)"

text \<open>\<open>json.Marshal\<close> of a map.\<close>

definition marshal_map :: "(string, json) gomap \<Rightarrow> bytes" where
  "marshal_map m = marshal (JObj m)"

end
