(* ===== verification/Go_Http.thy ===== *)
theory Go_Http
  imports Go_Json
begin

text \<open>
  What the router uses of \<open>io\<close> and \<open>net/http\<close>: readable bodies that can be drained and closed,
  requests, and the response writer of a handler. A body is the list of packets a reader will be
  handed, then end of file or an error. A response body refuses reads after \<open>Close\<close>; the router's
  own \<open>ReadCloser\<close> over a byte slice does not.
\<close>

section \<open>Bodies\<close>

record stream =
  sr_packets :: "bytes list"
  sr_err :: "go_error option"
  sr_http :: bool
  sr_closed :: bool

datatype read_res = RData bytes | REOF | RErr go_error

definition sr_unreadable :: "stream \<Rightarrow> bool" where
  "sr_unreadable b = (sr_http b \<and> sr_closed b)"

definition closed_read_err :: go_error where
  "closed_read_err = ''http: read on closed response body''"

text \<open>\<open>Read(buf)\<close> with \<open>len(buf) = cap\<close>.\<close>

definition stream_read :: "nat \<Rightarrow> stream \<Rightarrow> read_res \<times> stream" where
  "stream_read cap b =
     (if sr_unreadable b then (RErr closed_read_err, b)
      else case sr_packets b of
        [] \<Rightarrow> ((case sr_err b of None \<Rightarrow> REOF | Some e \<Rightarrow> RErr e), b)
      | p # ps \<Rightarrow> (RData (take cap p),
          b\<lparr>sr_packets := (if length p \<le> cap then ps else drop cap p # ps)\<rparr>))"

text \<open>\<open>io.ReadAll\<close>: what was read, the error if the stream ended with one, and the drained body.\<close>

definition readAll :: "stream \<Rightarrow> bytes \<times> go_error option \<times> stream" where
  "readAll b =
     (if sr_unreadable b then ([], Some closed_read_err, b)
      else (concat (sr_packets b), sr_err b, b\<lparr>sr_packets := []\<rparr>))"

definition stream_close :: "stream \<Rightarrow> stream" where
  "stream_close b = b\<lparr>sr_closed := True\<rparr>"

definition NewReadCloser :: "bytes \<Rightarrow> stream" where
  "NewReadCloser d = \<lparr>sr_packets = (if d = [] then [] else [d]), sr_err = None, sr_http = False, sr_closed = False\<rparr>"

text \<open>A response body as \<open>client.Do\<close> delivers it.\<close>

definition http_body :: "bytes list \<Rightarrow> stream" where
  "http_body ps = \<lparr>sr_packets = ps, sr_err = None, sr_http = True, sr_closed = False\<rparr>"

text \<open>An open body that ends without an error; a read of it gives at least one byte before the end.\<close>

definition stream_fresh :: "stream \<Rightarrow> bool" where
  "stream_fresh b = (\<not> sr_closed b \<and> sr_err b = None \<and> [] \<notin> set (sr_packets b))"

lemma NewReadCloser_simps [simp]:
  "concat (sr_packets (NewReadCloser d)) = d" "sr_err (NewReadCloser d) = None"
  "sr_unreadable (NewReadCloser d) = False" "stream_fresh (NewReadCloser d)"
  by (auto simp: NewReadCloser_def sr_unreadable_def stream_fresh_def)

lemma http_body_simps [simp]:
  "sr_packets (http_body ps) = ps" "sr_err (http_body ps) = None" "stream_fresh (http_body ps) \<longleftrightarrow> [] \<notin> set ps"
  "sr_unreadable (http_body ps) = False" "sr_http (http_body ps)"
  by (auto simp: http_body_def sr_unreadable_def stream_fresh_def)

lemma readAll_fresh: "stream_fresh b \<Longrightarrow> readAll b = (concat (sr_packets b), None, b\<lparr>sr_packets := []\<rparr>)"
  by (simp add: readAll_def stream_fresh_def sr_unreadable_def)

section \<open>Requests\<close>

record http_request =
  hr_method :: string
  hr_url :: string
  hr_body :: bytes
  hr_ctype :: string

section \<open>Response writers\<close>

text \<open>\<open>w_header\<close> are the headers as they go out: setting one after the status line went out has
  no effect. \<open>w_writes_left\<close>: the number of writes the connection still takes (\<open>None\<close>: no
  limit). \<open>w_flusher\<close>: the writer implements \<open>http.Flusher\<close>.\<close>

record writer =
  w_header :: "(string, string list) gomap"
  w_status :: "int option"
  w_body :: bytes
  w_writes_left :: "nat option"
  w_flusher :: bool

definition new_writer :: writer where
  "new_writer = \<lparr>w_header = [], w_status = None, w_body = [], w_writes_left = None, w_flusher = True\<rparr>"

definition w_set_header :: "string \<Rightarrow> string \<Rightarrow> writer \<Rightarrow> writer" where
  "w_set_header k v w = (if w_status w = None then w\<lparr>w_header := gm_set k [v] (w_header w)\<rparr> else w)"

definition header_add :: "string \<Rightarrow> string \<Rightarrow> (string, string list) gomap \<Rightarrow> (string, string list) gomap" where
  "header_add k v h = gm_set k ((case gm_get h k of None \<Rightarrow> [] | Some vs \<Rightarrow> vs) @ [v]) h"

definition w_add_header :: "string \<Rightarrow> string \<Rightarrow> writer \<Rightarrow> writer" where
  "w_add_header k v w = (if w_status w = None then w\<lparr>w_header := header_add k v (w_header w)\<rparr> else w)"

definition w_del_header :: "string \<Rightarrow> writer \<Rightarrow> writer" where
  "w_del_header k w = (if w_status w = None then w\<lparr>w_header := gm_del k (w_header w)\<rparr> else w)"

text \<open>The first status wins; a code outside \<open>100..999\<close> panics.\<close>

definition WriteHeader :: "int \<Rightarrow> writer \<Rightarrow> writer go" where
  "WriteHeader code w =
     (if code < 100 \<or> 999 < code then Panic
      else Ret (if w_status w = None then w\<lparr>w_status := Some code\<rparr> else w))"

text \<open>\<open>bodyAllowedForStatus\<close>.\<close>

definition body_allowed :: "int \<Rightarrow> bool" where
  "body_allowed c = (\<not> (100 \<le> c \<and> c \<le> 199) \<and> c \<noteq> 204 \<and> c \<noteq> 304)"

text \<open>\<open>Write\<close>: whether it succeeded, and the writer after. The first write sends status 200 if none
  was set. The check of the body against a declared \<open>Content-Length\<close> is not modelled.\<close>

definition w_write :: "bytes \<Rightarrow> writer \<Rightarrow> bool \<times> writer" where
  "w_write d w =
     (if w_writes_left w = Some 0 \<or> \<not> body_allowed (case w_status w of None \<Rightarrow> 200 | Some c \<Rightarrow> c) then (False, w)
      else (True, w\<lparr>w_status := Some (case w_status w of None \<Rightarrow> 200 | Some c \<Rightarrow> c),
              w_body := w_body w @ d,
              w_writes_left := map_option (\<lambda>n. n - 1) (w_writes_left w)\<rparr>))"

text \<open>\<open>http.Error(w, msg, code)\<close> for the codes the handlers use, all of them valid.\<close>

definition http_Error :: "writer \<Rightarrow> string \<Rightarrow> int \<Rightarrow> writer" where
  "http_Error w msg code =
     (let w = w_del_header ''Content-Length'' w;
          w = w_set_header ''Content-Type'' ''text/plain; charset=utf-8'' w;
          w = w_set_header ''X-Content-Type-Options'' ''nosniff'' w;
          w = (if w_status w = None then w\<lparr>w_status := Some code\<rparr> else w)
      in snd (w_write (msg @ [CHR 0x0A]) w))"

text \<open>The status line the client gets: a handler that returns without writing sends 200.\<close>

definition final_status :: "writer \<Rightarrow> int" where
  "final_status w = (case w_status w of None \<Rightarrow> 200 | Some c \<Rightarrow> c)"

lemma w_set_header_simps [simp]:
  "w_status (w_set_header k v w) = w_status w" "w_body (w_set_header k v w) = w_body w"
  "w_writes_left (w_set_header k v w) = w_writes_left w" "w_flusher (w_set_header k v w) = w_flusher w"
  by (simp_all add: w_set_header_def)

lemma w_del_header_simps [simp]:
  "w_status (w_del_header k w) = w_status w" "w_body (w_del_header k w) = w_body w"
  "w_writes_left (w_del_header k w) = w_writes_left w" "w_flusher (w_del_header k w) = w_flusher w"
  by (simp_all add: w_del_header_def)

text \<open>A writer on a healthy connection whose status, if sent, allows a body.\<close>

definition w_open :: "writer \<Rightarrow> bool" where
  "w_open w = (w_writes_left w = None \<and> body_allowed (final_status w))"

lemma w_write_open:
  assumes "w_open w"
  shows "w_write d w = (True, w\<lparr>w_status := Some (final_status w), w_body := w_body w @ d\<rparr>)"
  using assms by (auto simp: w_write_def w_open_def final_status_def split: option.splits)

lemma http_Error_open:
  assumes "w_writes_left w = None" "w_status w = None" "body_allowed code"
  shows "w_body (http_Error w msg code) = w_body w @ msg @ [CHR 0x0A]"
    and "w_status (http_Error w msg code) = Some code"
  using assms by (auto simp: http_Error_def w_write_def Let_def)

lemma http_Error_started:
  assumes "w_writes_left w = None" "w_status w = Some c" "body_allowed c"
  shows "http_Error w msg code = w\<lparr>w_body := w_body w @ msg @ [CHR 0x0A]\<rparr>"
  using assms by (auto simp: http_Error_def w_write_def w_set_header_def w_del_header_def Let_def)

end
