(* ===== verification/Graph_Router.thy ===== *)
theory Graph_Router
  imports GMC_Types Go_Http
begin

text \<open>
  The graph router (\<open>cmd/router/main.go\<close>): \<open>routeStep\<close> runs a node of the graph as a switch, an
  ensemble or a sequence of steps, \<open>executeStep\<close> runs a step by recursion into another node or by a
  call to its service, and each handler combines the answers.

  \<^item> The pipelines take \<open>exec\<close>, the function that executes one step; \<open>routeStep\<close> closes the
    recursion. Go's recursion has no bound, so \<open>routeStep\<close> takes the call depth it may use and
    returns \<open>Unfinished\<close> when that is not enough.
  \<^item> Code outside the repository and choices of the runtime are the fields of \<open>'w ext\<close>: the HTTP
    transport on an outside world \<open>'w\<close>, URL parsing, the \<open>gjson\<close> queries, the text of JSON errors,
    the order in which the goroutines of an ensemble run and what its \<open>select\<close> picks.
  \<^item> The state \<open>'w rs\<close> holds the process environment, the requests sent so far and the world.
    Logging and the semaphore, which every path of \<open>callService\<close> releases, have no effect on it.
  \<^item> A goroutine of an ensemble runs as one unit: the model interleaves whole steps, in any order.
\<close>

section \<open>State and environment\<close>

definition Parameters :: string where "Parameters = ''parameters''"

record 'w ext =
  client_do :: "http_request \<Rightarrow> 'w \<Rightarrow> (go_error + (int \<times> stream)) \<times> 'w"
  url_parse_err :: "string \<Rightarrow> go_error option"
  gjson_valid :: "bytes \<Rightarrow> bool"
  gjson_exists :: "bytes \<Rightarrow> string \<Rightarrow> bool"
  gjson_string :: "bytes \<Rightarrow> string \<Rightarrow> string"
  json_error :: "bytes \<Rightarrow> go_error"
  spawn_order :: "nat \<Rightarrow> nat list"
  select_err :: "nat \<Rightarrow> nat option"

record 'w rs =
  rs_env :: "(string, string) gomap"
  rs_sent :: "http_request list"
  rs_world :: 'w

text \<open>\<open>(io.ReadCloser, int, error)\<close>.\<close>

type_synonym route_res = "stream option \<times> int \<times> go_error option"

type_synonym 'w exec_fun = "Step \<Rightarrow> bytes \<Rightarrow> 'w rs \<Rightarrow> route_res go \<times> 'w rs"

section \<open>Helpers\<close>

definition isSuccessFul :: "int \<Rightarrow> bool" where
  "isSuccessFul statusCode = (200 \<le> statusCode \<and> statusCode \<le> 299)"

definition pickupRouteByCondition :: "'w ext \<Rightarrow> bytes \<Rightarrow> string \<Rightarrow> bool" where
  "pickupRouteByCondition E initInput condition =
     (if \<not> gjson_valid E initInput then False
      else if gjson_exists E initInput condition then True
      else if CHR ''.'' \<in> set condition \<or> CHR ''#'' \<in> set condition then False
      else case str_index condition ''=='' of
        None \<Rightarrow> False
      | Some index \<Rightarrow>
          (let key = trim_space (take index condition);
               value = trim_space (drop (index + 2) condition)
           in gjson_string E initInput key = value))"

text \<open>\<open>GMCGraphRoutingError\<close> as JSON: a struct's fields keep their order.\<close>

definition prepareErrorResponse :: "go_error \<Rightarrow> string \<Rightarrow> bytes" where
  "prepareErrorResponse err errorMessage =
     ''{'' @ enc_string ''error'' @ '':'' @ enc_string errorMessage @ '','' @
     enc_string ''cause'' @ '':'' @ enc_string err @ ''}''"

text \<open>\<open>os.Setenv\<close> refuses a value with a zero byte.\<close>

definition os_Setenv :: "string \<Rightarrow> string \<Rightarrow> 'w rs \<Rightarrow> go_error option \<times> 'w rs" where
  "os_Setenv key value s =
     (if CHR 0x00 \<in> set value then (Some ''setenv: invalid argument'', s)
      else (None, s\<lparr>rs_env := gm_set key value (rs_env s)\<rparr>))"

definition callService :: "'w ext \<Rightarrow> Step \<Rightarrow> string \<Rightarrow> bytes \<Rightarrow> 'w rs \<Rightarrow> route_res go \<times> 'w rs" where
  "callService E step serviceUrl input s =
     (let (enverr, s) = (case Config (step_target step) of
            None \<Rightarrow> (None, s)
          | Some cfg \<Rightarrow> os_Setenv ''no_proxy'' (gm_str cfg ''no_proxy'') s)
      in case enverr of
        Some err \<Rightarrow> (Ret (None, 400, Some err), s)
      | None \<Rightarrow>
          (case url_parse_err E serviceUrl of
             Some err \<Rightarrow> (Ret (None, 500, Some err), s)
           | None \<Rightarrow>
               (let req = \<lparr>hr_method = ''POST'', hr_url = serviceUrl, hr_body = input, hr_ctype = ''application/json''\<rparr>;
                    (res, w) = client_do E req (rs_world s);
                    s = s\<lparr>rs_sent := rs_sent s @ [req], rs_world := w\<rparr>
                in case res of
                     Inl err \<Rightarrow> (Ret (None, 500, Some err), s)
                   | Inr (code, body) \<Rightarrow> (Ret (Some body, code, None), s))))"

definition getServiceURLByStepTarget :: "Step \<Rightarrow> string \<Rightarrow> string" where
  "getServiceURLByStepTarget step svcNameSpace =
     (if ServiceURL step = [] then ''http://'' @ StepName step @ ''.'' @ svcNameSpace @ ''.svc.cluster.local''
      else ServiceURL step)"

text \<open>\<open>route\<close> is \<open>routeStep\<close> on the graph at hand.\<close>

definition executeStep :: "(string \<Rightarrow> bytes \<Rightarrow> bytes \<Rightarrow> 'w rs \<Rightarrow> route_res go \<times> 'w rs) \<Rightarrow> 'w ext \<Rightarrow>
    GMConnector \<Rightarrow> bytes \<Rightarrow> 'w exec_fun" where
  "executeStep route E graph initInput step input s =
     (if step_node step \<noteq> [] then route (step_node step) initInput input s
      else callService E step (getServiceURLByStepTarget step (graph_ns graph)) input s)"

definition mergeRequests :: "bytes \<Rightarrow> (string, json) gomap \<Rightarrow> bytes go" where
  "mergeRequests respReq initReqData =
     (case gm_get initReqData Parameters of
        None \<Rightarrow> Ret respReq
      | Some params \<Rightarrow>
          (case unmarshal_map respReq of
             None \<Rightarrow> Ret []
           | Some respReqData \<Rightarrow>
               (case params of
                  JObj pm \<Rightarrow>
                    (case respReqData of
                       None \<Rightarrow> if pm = [] then Ret (marshal JNull) else Panic
                     | Some m \<Rightarrow> Ret (marshal_map (foldl (\<lambda>m kv. gm_set (fst kv) (snd kv) m) m pm)))
                | _ \<Rightarrow> Panic)))"

section \<open>Switch\<close>

definition handleSwitchNode :: "'w exec_fun \<Rightarrow> Step \<Rightarrow> bytes \<Rightarrow> 'w rs \<Rightarrow> route_res go \<times> 'w rs" where
  "handleSwitchNode exec route request s =
     (case exec route request s of
        (Ret (responseBody, statusCode, err), s') \<Rightarrow>
          (case err of
             Some e \<Rightarrow> (Ret (None, 500, Some e), s')
           | None \<Rightarrow> (Ret (responseBody, statusCode, None), s'))
      | (Panic, s') \<Rightarrow> (Panic, s')
      | (Unfinished, s') \<Rightarrow> (Unfinished, s'))"

text \<open>The previous body, read to the end and closed, and its bytes.\<close>

definition drain :: "stream option \<Rightarrow> bytes \<Rightarrow> go_error + (stream option \<times> bytes)" where
  "drain responseBody responseBytes =
     (case responseBody of
        None \<Rightarrow> Inr (None, responseBytes)
      | Some b \<Rightarrow>
          (case readAll b of
             (d, Some e, b') \<Rightarrow> Inl e
           | (d, None, b') \<Rightarrow> Inr (Some (stream_close b'), d)))"

text \<open>The request of the step at \<open>index\<close>.\<close>

definition step_request :: "Step \<Rightarrow> nat \<Rightarrow> bytes \<Rightarrow> bytes \<Rightarrow> (string, json) gomap \<Rightarrow> bytes go" where
  "step_request step index input responseBytes initReqData =
     (if Data step = ''$response'' \<and> 0 < index then mergeRequests responseBytes initReqData else Ret input)"

text \<open>The part of the loop body between the guards and the execution of the step: an early return of the
  pipeline (\<open>Inl\<close>), or the request and the bytes of the previous response.\<close>

definition switch_prepare :: "bytes \<Rightarrow> (string, json) gomap \<Rightarrow> nat \<Rightarrow> Step \<Rightarrow> stream option \<Rightarrow> bytes \<Rightarrow>
    route_res go + (bytes \<times> bytes)" where
  "switch_prepare input initReqData index route responseBody responseBytes =
     (case drain responseBody responseBytes of
        Inl e \<Rightarrow> Inl (Ret (None, 500, Some e))
      | Inr (responseBody, responseBytes) \<Rightarrow>
          (case step_request route index input responseBytes initReqData of
             Ret request \<Rightarrow> Inr (request, responseBytes)
           | Panic \<Rightarrow> Inl Panic
           | Unfinished \<Rightarrow> Inl Unfinished))"

fun switch_loop :: "'w exec_fun \<Rightarrow> 'w ext \<Rightarrow> bytes \<Rightarrow> bytes \<Rightarrow> (string, json) gomap \<Rightarrow> nat \<Rightarrow> Step list \<Rightarrow>
    stream option \<Rightarrow> bytes \<Rightarrow> int \<Rightarrow> 'w rs \<Rightarrow> route_res go \<times> 'w rs" where
  "switch_loop exec E initInput input initReqData index [] responseBody responseBytes statusCode s =
     (Ret (responseBody, statusCode, None), s)"
| "switch_loop exec E initInput input initReqData index (route # routes) responseBody responseBytes statusCode s =
     (if step_downstream route then
        switch_loop exec E initInput input initReqData (Suc index) routes responseBody responseBytes statusCode s
      else if Condition route \<noteq> [] \<and> \<not> pickupRouteByCondition E initInput (Condition route) then
        switch_loop exec E initInput input initReqData (Suc index) routes responseBody responseBytes statusCode s
      else case switch_prepare input initReqData index route responseBody responseBytes of
        Inl res \<Rightarrow> (res, s)
      | Inr (request, responseBytes) \<Rightarrow>
          (case handleSwitchNode exec route request s of
             (Ret (responseBody, statusCode, err), s') \<Rightarrow>
               (case err of
                  Some e \<Rightarrow> (Ret (None, statusCode, Some e), s')
                | None \<Rightarrow> switch_loop exec E initInput input initReqData (Suc index) routes
                            responseBody responseBytes statusCode s')
           | (Panic, s') \<Rightarrow> (Panic, s')
           | (Unfinished, s') \<Rightarrow> (Unfinished, s')))"

text \<open>\<open>initReqData\<close> after \<open>json.Unmarshal(initInput, &initReqData)\<close>; reading the nil map that a
  JSON \<open>null\<close> leaves gives nothing, as an empty map does.\<close>

definition init_req_data :: "bytes \<Rightarrow> (string, json) gomap option" where
  "init_req_data initInput = (case unmarshal_map initInput of
     None \<Rightarrow> None | Some None \<Rightarrow> Some [] | Some (Some m) \<Rightarrow> Some m)"

definition handleSwitchPipeline :: "'w exec_fun \<Rightarrow> 'w ext \<Rightarrow> Router \<Rightarrow> bytes \<Rightarrow> bytes \<Rightarrow> 'w rs \<Rightarrow> route_res go \<times> 'w rs" where
  "handleSwitchPipeline exec E currentNode initInput input s =
     (case init_req_data initInput of
        None \<Rightarrow> (Ret (None, 500, Some (json_error E initInput)), s)
      | Some initReqData \<Rightarrow>
          switch_loop exec E initInput input initReqData 0 (Steps currentNode) None [] 0 s)"

section \<open>Ensemble\<close>

text \<open>What a goroutine sends: a result on its channel or an error on \<open>errChan\<close>. A response that
  is the JSON \<open>null\<close> gives the nil map.\<close>

datatype ensemble_out = StepOut "(string, json) gomap option" int | StepErr go_error

definition ensemble_goroutine :: "'w exec_fun \<Rightarrow> 'w ext \<Rightarrow> Step \<Rightarrow> bytes \<Rightarrow> 'w rs \<Rightarrow> ensemble_out go \<times> 'w rs" where
  "ensemble_goroutine exec E step input s =
     (case exec step input s of
        (Ret (responseBody, statusCode, err), s') \<Rightarrow>
          (case responseBody of
             None \<Rightarrow> (Panic, s')
           | Some body \<Rightarrow>
               (case err of
                  Some e \<Rightarrow> (Ret (StepErr e), s')
                | None \<Rightarrow>
                    (let output = fst (readAll body) in
                     case unmarshal_map output of
                       Some res \<Rightarrow> (Ret (StepOut res statusCode), s')
                     | None \<Rightarrow> (Ret (StepErr (json_error E output)), s'))))
      | (Panic, s') \<Rightarrow> (Panic, s')
      | (Unfinished, s') \<Rightarrow> (Unfinished, s'))"

text \<open>The goroutines one after another in the order \<open>is\<close>; \<open>outs\<close> collects what each sends.\<close>

fun ensemble_spawn :: "'w exec_fun \<Rightarrow> 'w ext \<Rightarrow> Step list \<Rightarrow> bytes \<Rightarrow> nat list \<Rightarrow> ensemble_out option list \<Rightarrow>
    'w rs \<Rightarrow> ensemble_out option list go \<times> 'w rs" where
  "ensemble_spawn exec E steps input [] outs s = (Ret outs, s)"
| "ensemble_spawn exec E steps input (i # is) outs s =
     (if length steps \<le> i then ensemble_spawn exec E steps input is outs s
      else case ensemble_goroutine exec E (steps ! i) input s of
        (Ret out, s') \<Rightarrow> ensemble_spawn exec E steps input is (outs[i := Some out]) s'
      | (Panic, s') \<Rightarrow> (Panic, s')
      | (Unfinished, s') \<Rightarrow> (Unfinished, s'))"

definition step_key :: "Step \<Rightarrow> nat \<Rightarrow> string" where
  "step_key step i = (if StepName step = [] then string_of_nat i else StepName step)"

definition json_of_map :: "(string, json) gomap option \<Rightarrow> json" where
  "json_of_map res = (case res of None \<Rightarrow> JNull | Some m \<Rightarrow> JObj m)"

text \<open>The error that the \<open>select\<close> of iteration \<open>i\<close> receives, if it picks \<open>errChan\<close>.\<close>

definition picked_err :: "'w ext \<Rightarrow> ensemble_out option list \<Rightarrow> nat \<Rightarrow> go_error option" where
  "picked_err E outs i =
     (case select_err E i of
        None \<Rightarrow> None
      | Some j \<Rightarrow> (if j < length outs then (case outs ! j of Some (StepErr e) \<Rightarrow> Some e | _ \<Rightarrow> None) else None))"

text \<open>The loop that merges the answers. A goroutine that never runs would leave its channel
  empty and the loop waiting.\<close>

fun ensemble_collect :: "'w ext \<Rightarrow> ensemble_out option list \<Rightarrow> nat \<Rightarrow> Step list \<Rightarrow> (string, json) gomap \<Rightarrow> route_res go" where
  "ensemble_collect E outs i [] response =
     Ret (Some (NewReadCloser (marshal_map response)), 200, None)"
| "ensemble_collect E outs i (step # steps) response =
     (case picked_err E outs i of
        Some err \<Rightarrow> Ret (None, 500, Some err)
      | None \<Rightarrow>
          (case outs ! i of
             None \<Rightarrow> Unfinished
           | Some (StepErr err) \<Rightarrow> Ret (None, 500, Some err)
           | Some (StepOut res statusCode) \<Rightarrow>
               if \<not> isSuccessFul statusCode \<and> Dependency step = Hard then
                 Ret (Some (NewReadCloser (marshal (json_of_map res))), statusCode, None)
               else ensemble_collect E outs (Suc i) steps (gm_set (step_key step i) (json_of_map res) response)))"

definition handleEnsemblePipeline :: "'w exec_fun \<Rightarrow> 'w ext \<Rightarrow> Router \<Rightarrow> bytes \<Rightarrow> 'w rs \<Rightarrow> route_res go \<times> 'w rs" where
  "handleEnsemblePipeline exec E currentNode input s =
     (let steps = Steps currentNode in
      case ensemble_spawn exec E steps input (spawn_order E (length steps)) (replicate (length steps) None) s of
        (Ret outs, s') \<Rightarrow> (ensemble_collect E outs 0 steps [], s')
      | (Panic, s') \<Rightarrow> (Panic, s')
      | (Unfinished, s') \<Rightarrow> (Unfinished, s'))"

section \<open>Sequence\<close>

text \<open>The loop body up to the execution of the step. When the condition of the step does not hold of the
  previous response, the body returned is the one just read to its end and closed.\<close>

definition sequence_prepare :: "'w ext \<Rightarrow> bytes \<Rightarrow> (string, json) gomap \<Rightarrow> nat \<Rightarrow> Step \<Rightarrow> stream option \<Rightarrow> bytes \<Rightarrow>
    route_res go + (bytes \<times> bytes)" where
  "sequence_prepare E input initReqData i step responseBody responseBytes =
     (case drain responseBody responseBytes of
        Inl e \<Rightarrow> Inl (Ret (None, 500, Some e))
      | Inr (responseBody, responseBytes) \<Rightarrow>
          (case step_request step i input responseBytes initReqData of
             Ret request \<Rightarrow>
               if Condition step \<noteq> [] \<and> \<not> gjson_valid E responseBytes then
                 Inl (Ret (None, 500, Some ''invalid response''))
               else if Condition step \<noteq> [] \<and> \<not> gjson_exists E responseBytes (Condition step) then
                 Inl (Ret (responseBody, 500, None))
               else Inr (request, responseBytes)
           | Panic \<Rightarrow> Inl Panic
           | Unfinished \<Rightarrow> Inl Unfinished))"

fun sequence_loop :: "'w exec_fun \<Rightarrow> 'w ext \<Rightarrow> bytes \<Rightarrow> (string, json) gomap \<Rightarrow> nat \<Rightarrow> Step list \<Rightarrow>
    stream option \<Rightarrow> bytes \<Rightarrow> int \<Rightarrow> 'w rs \<Rightarrow> route_res go \<times> 'w rs" where
  "sequence_loop exec E input initReqData i [] responseBody responseBytes statusCode s =
     (Ret (responseBody, statusCode, None), s)"
| "sequence_loop exec E input initReqData i (step # steps) responseBody responseBytes statusCode s =
     (if step_downstream step then
        sequence_loop exec E input initReqData (Suc i) steps responseBody responseBytes statusCode s
      else case sequence_prepare E input initReqData i step responseBody responseBytes of
        Inl res \<Rightarrow> (res, s)
      | Inr (request, responseBytes) \<Rightarrow>
          (case exec step request s of
             (Ret (responseBody, statusCode, err), s') \<Rightarrow>
               (case err of
                  Some e \<Rightarrow> (Ret (None, 500, Some e), s')
                | None \<Rightarrow>
                    if Dependency step = Hard \<and> \<not> isSuccessFul statusCode then
                      (Ret (responseBody, statusCode, None), s')
                    else sequence_loop exec E input initReqData (Suc i) steps
                           responseBody responseBytes statusCode s')
           | (Panic, s') \<Rightarrow> (Panic, s')
           | (Unfinished, s') \<Rightarrow> (Unfinished, s')))"

definition handleSequencePipeline :: "'w exec_fun \<Rightarrow> 'w ext \<Rightarrow> Router \<Rightarrow> bytes \<Rightarrow> bytes \<Rightarrow> 'w rs \<Rightarrow> route_res go \<times> 'w rs" where
  "handleSequencePipeline exec E currentNode initInput input s =
     (case init_req_data initInput of
        None \<Rightarrow> (Ret (None, 500, Some (json_error E initInput)), s)
      | Some initReqData \<Rightarrow>
          sequence_loop exec E input initReqData 0 (Steps currentNode) None [] 0 s)"

section \<open>Routing\<close>

primrec routeStep :: "nat \<Rightarrow> 'w ext \<Rightarrow> GMConnector \<Rightarrow> string \<Rightarrow> bytes \<Rightarrow> bytes \<Rightarrow> 'w rs \<Rightarrow> route_res go \<times> 'w rs" where
  "routeStep 0 E graph nodeName initInput input s = (Unfinished, s)"
| "routeStep (Suc depth) E graph nodeName initInput input s =
     (let exec = executeStep (routeStep depth E graph) E graph initInput;
          currentNode = node_at (graph_nodes graph) nodeName
      in if routerType currentNode = Switch then
           handleSwitchPipeline exec E currentNode initInput input s
         else if routerType currentNode = Ensemble then
           handleEnsemblePipeline exec E currentNode input s
         else if routerType currentNode = Sequence then
           handleSequencePipeline exec E currentNode initInput input s
         else (Ret (None, 500, Some (''invalid route type: '' @ routerType currentNode)), s))"

section \<open>What a run sends\<close>

text \<open>The requests sent between two states are appended, and all go to URLs of \<open>U\<close>.\<close>

definition sent_within :: "string set \<Rightarrow> 'w rs \<Rightarrow> 'w rs \<Rightarrow> bool" where
  "sent_within U s s' = (\<exists>new. rs_sent s' = rs_sent s @ new \<and> hr_url ` set new \<subseteq> U)"

lemma sent_within_refl [simp, intro]: "sent_within U s s"
  by (simp add: sent_within_def)

lemma sent_within_trans [trans]: "sent_within U s s' \<Longrightarrow> sent_within U s' s'' \<Longrightarrow> sent_within U s s''"
  unfolding sent_within_def by (metis append.assoc image_Un le_sup_iff set_append)

lemmas run_splits = go.split prod.split option.split sum.split if_split ensemble_out.split

text \<open>The contract of \<open>exec\<close> that the pipelines rely on: running a step the node may run sends
  only to the URLs in \<open>reach\<close>.\<close>

locale step_runner =
  fixes exec :: "'w exec_fun" and ok_step :: "Step \<Rightarrow> bool" and reach :: "string set"
  assumes exec_sent: "ok_step st \<Longrightarrow> sent_within reach s (snd (exec st inp s))"
begin

lemma exec_sentD: "exec st inp s = (r, s') \<Longrightarrow> ok_step st \<Longrightarrow> sent_within reach s s'"
  by (metis exec_sent snd_conv)

lemma node_sent: "ok_step st \<Longrightarrow> sent_within reach s (snd (handleSwitchNode exec st req s))"
  by (auto simp: handleSwitchNode_def dest: exec_sentD split: run_splits)

lemma node_sentD: "handleSwitchNode exec st req s = (r, s') \<Longrightarrow> ok_step st \<Longrightarrow> sent_within reach s s'"
  by (metis node_sent snd_conv)

lemma switch_loop_sent:
  "\<forall>r \<in> set routes. \<not> step_downstream r \<longrightarrow> ok_step r \<Longrightarrow>
     sent_within reach s (snd (switch_loop exec E ii inp d idx routes b bs c s))"
proof (induction routes arbitrary: idx b bs c s)
  case (Cons r routes)
  then show ?case
    by (auto split: sum.split prod.split go.split option.split dest: node_sentD
        intro: sent_within_trans [OF node_sentD])
qed simp

lemma sequence_loop_sent:
  "\<forall>r \<in> set steps. \<not> step_downstream r \<longrightarrow> ok_step r \<Longrightarrow>
     sent_within reach s (snd (sequence_loop exec E inp d i steps b bs c s))"
proof (induction steps arbitrary: i b bs c s)
  case (Cons r routes)
  then show ?case
    by (auto split: sum.split prod.split go.split option.split dest: exec_sentD
        intro: sent_within_trans [OF exec_sentD])
qed simp

lemma goroutine_sentD:
  "ensemble_goroutine exec E st inp s = (r, s') \<Longrightarrow> ok_step st \<Longrightarrow> sent_within reach s s'"
  by (auto simp: ensemble_goroutine_def Let_def dest: exec_sentD
      split: go.splits prod.splits option.splits)

lemma spawn_sent:
  "\<forall>r \<in> set steps. ok_step r \<Longrightarrow>
     sent_within reach s (snd (ensemble_spawn exec E steps inp is outs s))"
proof (induction "is" arbitrary: outs s)
  case (Cons i "is")
  then show ?case
    by (auto split: go.split prod.split dest: goroutine_sentD intro: sent_within_trans [OF goroutine_sentD])
qed simp

end
section \<open>Errors\<close>

text \<open>Every error comes with a nil body and status 500.\<close>

definition err_shape :: "route_res go \<Rightarrow> bool" where
  "err_shape r = (\<forall>b c e. r = Ret (b, c, Some e) \<longrightarrow> b = None \<and> c = 500)"

lemma err_shape_simps [simp]:
  "err_shape (Ret (b, c, None))" "err_shape Panic" "err_shape Unfinished"
  "err_shape (Ret (b, c, Some e)) \<longleftrightarrow> b = None \<and> c = 500"
  by (auto simp: err_shape_def)

lemma node_err_shape: "err_shape (fst (handleSwitchNode exec st req s))"
  by (auto simp: err_shape_def handleSwitchNode_def split: go.splits prod.splits option.splits)

lemma node_err_shapeD: "handleSwitchNode exec st req s = (Ret (b, c, Some e), s') \<Longrightarrow> b = None \<and> c = 500"
  using node_err_shape [of exec st req s] by (simp add: err_shape_def)

lemma switch_prepare_err_shape: "switch_prepare inp d i st b bs = Inl r \<Longrightarrow> err_shape r"
  by (auto simp: switch_prepare_def err_shape_def split: sum.splits go.splits prod.splits)

lemma sequence_prepare_err_shape: "sequence_prepare E inp d i st b bs = Inl r \<Longrightarrow> err_shape r"
  by (auto simp: sequence_prepare_def err_shape_def split: sum.splits go.splits prod.splits if_splits)

lemma switch_loop_err_shape:
  "err_shape (fst (switch_loop exec E ii inp d idx routes b bs c s))"
proof (induction routes arbitrary: idx b bs c s)
  case (Cons r routes)
  then show ?case
    by (auto split: sum.split prod.split go.split option.split
        dest: node_err_shapeD switch_prepare_err_shape)
qed simp

lemma sequence_loop_err_shape:
  "err_shape (fst (sequence_loop exec E inp d i steps b bs c s))"
proof (induction steps arbitrary: i b bs c s)
  case (Cons r routes)
  then show ?case
    by (auto split: sum.split prod.split go.split option.split dest: sequence_prepare_err_shape)
qed simp

lemma ensemble_collect_err_shape: "err_shape (ensemble_collect E outs i steps resp)"
  by (induction steps arbitrary: i resp) (auto split: run_splits)

lemma routeStep_err_shape: "err_shape (fst (routeStep d E g n ii inp s))"
proof (cases d)
  case (Suc d')
  have "err_shape (fst (handleEnsemblePipeline exec E r inp s))" for exec r
    by (auto simp: handleEnsemblePipeline_def Let_def ensemble_collect_err_shape split: go.split prod.split)
  moreover have "err_shape (fst (handleSwitchPipeline exec E r ii inp s))" for exec r
    by (auto simp: handleSwitchPipeline_def switch_loop_err_shape split: option.split)
  moreover have "err_shape (fst (handleSequencePipeline exec E r ii inp s))" for exec r
    by (auto simp: handleSequencePipeline_def sequence_loop_err_shape split: option.split)
  ultimately show ?thesis using Suc by (simp add: Let_def)
qed simp

section \<open>Call depth\<close>

text \<open>A runner that is given more depth agrees with one that finished.\<close>

locale runner_refines =
  fixes exec exec' :: "'w exec_fun"
  assumes refines: "fst (exec st inp s) \<noteq> Unfinished \<Longrightarrow> exec' st inp s = exec st inp s"
begin

lemma refinesD: "exec st inp s = (r, s') \<Longrightarrow> r \<noteq> Unfinished \<Longrightarrow> exec' st inp s = (r, s')"
  using refines [of st inp s] by simp

lemma node_refines:
  "fst (handleSwitchNode exec st req s) \<noteq> Unfinished \<Longrightarrow>
     handleSwitchNode exec' st req s = handleSwitchNode exec st req s"
  using refines [of st req s] by (auto simp: handleSwitchNode_def split: go.splits prod.splits)

lemma node_refinesD:
  "handleSwitchNode exec st req s = (r, s') \<Longrightarrow> r \<noteq> Unfinished \<Longrightarrow> handleSwitchNode exec' st req s = (r, s')"
  using node_refines [of st req s] by simp

lemma switch_loop_refines:
  "fst (switch_loop exec E ii inp d idx routes b bs c s) \<noteq> Unfinished \<Longrightarrow>
     switch_loop exec' E ii inp d idx routes b bs c s = switch_loop exec E ii inp d idx routes b bs c s"
proof (induction routes arbitrary: idx b bs c s)
  case (Cons r routes)
  show ?case
  proof (cases "switch_prepare inp d idx r b bs")
    case (Inl x)
    with Cons show ?thesis by (auto split: if_splits)
  next
    case (Inr p)
    obtain req bs' where p: "p = (req, bs')" by fastforce
    obtain x s1 where x: "handleSwitchNode exec r req s = (x, s1)" by fastforce
    with Inr p Cons show ?thesis
      by (cases x) (auto simp: node_refinesD [OF x] split: option.splits if_splits)
  qed
qed simp

lemma sequence_loop_refines:
  "fst (sequence_loop exec E inp d i steps b bs c s) \<noteq> Unfinished \<Longrightarrow>
     sequence_loop exec' E inp d i steps b bs c s = sequence_loop exec E inp d i steps b bs c s"
proof (induction steps arbitrary: i b bs c s)
  case (Cons st steps)
  show ?case
  proof (cases "sequence_prepare E inp d i st b bs")
    case (Inl x)
    with Cons show ?thesis by (auto split: if_splits)
  next
    case (Inr p)
    obtain req bs' where p: "p = (req, bs')" by fastforce
    obtain x s1 where x: "exec st req s = (x, s1)" by fastforce
    with Inr p Cons show ?thesis
      by (cases x) (auto simp: refinesD [OF x] split: option.splits if_splits)
  qed
qed simp

lemma goroutine_refines:
  "fst (ensemble_goroutine exec E st inp s) \<noteq> Unfinished \<Longrightarrow>
     ensemble_goroutine exec' E st inp s = ensemble_goroutine exec E st inp s"
  using refines [of st inp s] by (auto simp: ensemble_goroutine_def split: go.splits prod.splits)

lemma spawn_refines:
  "fst (ensemble_spawn exec E steps inp is outs s) \<noteq> Unfinished \<Longrightarrow>
     ensemble_spawn exec' E steps inp is outs s = ensemble_spawn exec E steps inp is outs s"
proof (induction "is" arbitrary: outs s)
  case (Cons i "is")
  obtain x s1 where x: "ensemble_goroutine exec E (steps ! i) inp s = (x, s1)" by fastforce
  then have "x \<noteq> Unfinished \<Longrightarrow> ensemble_goroutine exec' E (steps ! i) inp s = (x, s1)"
    using goroutine_refines [of E "steps ! i" inp s] by simp
  with Cons x show ?case by (cases x) auto
qed simp

lemma switch_refines:
  "fst (handleSwitchPipeline exec E r ii inp s) \<noteq> Unfinished \<Longrightarrow>
     handleSwitchPipeline exec' E r ii inp s = handleSwitchPipeline exec E r ii inp s"
  by (auto simp: handleSwitchPipeline_def switch_loop_refines split: option.splits)

lemma sequence_refines:
  "fst (handleSequencePipeline exec E r ii inp s) \<noteq> Unfinished \<Longrightarrow>
     handleSequencePipeline exec' E r ii inp s = handleSequencePipeline exec E r ii inp s"
  by (auto simp: handleSequencePipeline_def sequence_loop_refines split: option.splits)

lemma ensemble_refines:
  assumes "fst (handleEnsemblePipeline exec E r inp s) \<noteq> Unfinished"
  shows "handleEnsemblePipeline exec' E r inp s = handleEnsemblePipeline exec E r inp s"
proof -
  have "fst (ensemble_spawn exec E (Steps r) inp (spawn_order E (length (Steps r)))
      (replicate (length (Steps r)) None) s) \<noteq> Unfinished"
    using assms by (auto simp: handleEnsemblePipeline_def Let_def split: prod.splits)
  from spawn_refines [OF this] show ?thesis by (simp add: handleEnsemblePipeline_def)
qed

end

lemma executeStep_refines:
  assumes "\<And>n ii inp s. fst (route n ii inp s) \<noteq> Unfinished \<Longrightarrow> route' n ii inp s = route n ii inp s"
  shows "runner_refines (executeStep route E g ii) (executeStep route' E g ii)"
  by unfold_locales (auto simp: executeStep_def assms split: if_splits)

lemma routeStep_Suc:
  "fst (routeStep d E g n ii inp s) \<noteq> Unfinished \<Longrightarrow> routeStep (Suc d) E g n ii inp s = routeStep d E g n ii inp s"
proof (induction d arbitrary: n ii inp s)
  case (Suc d)
  have run: "runner_refines (executeStep (routeStep d E g) E g ii) (executeStep (routeStep (Suc d) E g) E g ii)"
    by (rule executeStep_refines) (rule Suc.IH)
  show ?case
    using Suc.prems runner_refines.switch_refines [OF run] runner_refines.sequence_refines [OF run]
      runner_refines.ensemble_refines [OF run]
    unfolding routeStep.simps(2) [of "Suc d"] routeStep.simps(2) [of d]
    by (auto simp: Let_def simp del: routeStep.simps split: if_splits)
qed simp

interpretation deeper: runner_refines "executeStep (routeStep d E g) E g ii" "executeStep (routeStep (Suc d) E g) E g ii"
  for d E g ii
  by (rule executeStep_refines) (rule routeStep_Suc)

lemma routeStep_mono:
  assumes "fst (routeStep d E g n ii inp s) \<noteq> Unfinished" and "d \<le> d'"
  shows "routeStep d' E g n ii inp s = routeStep d E g n ii inp s"
  using assms(2)
proof (induction rule: dec_induct)
  case (step k)
  then show ?case using assms(1) routeStep_Suc [of k E g n ii inp s] by simp
qed simp
end
