(* ===== verification/Router_Correct.thy ===== *)
theory Router_Correct
  imports Graph_Router Validating_Webhook
begin

text \<open>
  What the router guarantees on any graph: which services a run may call, that a run ends when the
  nodes do not call each other in a cycle (and when it does not), what a sequence and an ensemble
  compute over services that answer by a function of the request, and where a run panics.
\<close>

section \<open>Which services a run reaches\<close>

text \<open>The nodes a run that starts at \<open>n\<close> can recurse into.\<close>

inductive node_reaches :: "GMConnector \<Rightarrow> string \<Rightarrow> string \<Rightarrow> bool" for g where
  here: "node_reaches g n n"
| there: "st \<in> set (Steps (node_at (graph_nodes g) n)) \<Longrightarrow> step_node st \<noteq> [] \<Longrightarrow>
     node_reaches g (step_node st) m \<Longrightarrow> node_reaches g n m"

text \<open>A switch and a sequence skip downstream services, an ensemble does not.\<close>

definition may_run :: "Router \<Rightarrow> Step \<Rightarrow> bool" where
  "may_run r st = (st \<in> set (Steps r) \<and> (routerType r = Ensemble \<or> \<not> step_downstream st))"

definition reach_urls :: "GMConnector \<Rightarrow> string \<Rightarrow> string set" where
  "reach_urls g n = {getServiceURLByStepTarget st (graph_ns g) | m st.
     node_reaches g n m \<and> may_run (node_at (graph_nodes g) m) st \<and> step_node st = []}"

lemma sent_within_mono: "sent_within U s s' \<Longrightarrow> U \<subseteq> V \<Longrightarrow> sent_within V s s'"
  unfolding sent_within_def by (meson subset_trans)

lemma callService_sent: "sent_within {url} s (snd (callService E st url inp s))"
  by (auto simp: callService_def os_Setenv_def sent_within_def Let_def
      split: option.split sum.split prod.split)

lemma reach_urls_step:
  "st \<in> set (Steps (node_at (graph_nodes g) n)) \<Longrightarrow> step_node st \<noteq> [] \<Longrightarrow>
     reach_urls g (step_node st) \<subseteq> reach_urls g n"
  unfolding reach_urls_def by (blast intro: node_reaches.there)

lemma executeStep_runner:
  assumes "\<And>m ii inp s. sent_within (reach_urls g m) s (snd (route m ii inp s))"
  shows "step_runner (executeStep route E g ii) (may_run (node_at (graph_nodes g) n)) (reach_urls g n)"
proof
  fix st inp and s :: "'a rs"
  assume ok: "may_run (node_at (graph_nodes g) n) st"
  show "sent_within (reach_urls g n) s (snd (executeStep route E g ii st inp s))"
  proof (cases "step_node st = []")
    case True
    with ok have "getServiceURLByStepTarget st (graph_ns g) \<in> reach_urls g n"
      by (auto simp: reach_urls_def intro: node_reaches.here)
    then show ?thesis using True
      by (auto simp: executeStep_def intro: sent_within_mono [OF callService_sent])
  next
    case False
    with ok show ?thesis
      by (auto simp: executeStep_def may_run_def
          intro: sent_within_mono [OF assms reach_urls_step])
  qed
qed

context step_runner
begin

text \<open>A pipeline that only runs the steps its node may run keeps the contract.\<close>

lemma pipelines_sent:
  assumes "\<And>st. may_run r st \<Longrightarrow> ok_step st"
  shows "routerType r = Ensemble \<Longrightarrow> sent_within reach s (snd (handleEnsemblePipeline exec E r inp s))"
    and "sent_within reach s (snd (handleSwitchPipeline exec E r ii inp s))"
    and "sent_within reach s (snd (handleSequencePipeline exec E r ii inp s))"
proof -
  let ?sp = "ensemble_spawn exec E (Steps r) inp (spawn_order E (length (Steps r)))
      (replicate (length (Steps r)) None) s"
  show "sent_within reach s (snd (handleEnsemblePipeline exec E r inp s))" if "routerType r = Ensemble"
  proof -
    have "sent_within reach s (snd ?sp)"
      using that assms by (intro spawn_sent) (auto simp: may_run_def)
    then show ?thesis
      by (cases ?sp) (auto simp: handleEnsemblePipeline_def Let_def split: go.split)
  qed
  have ok: "\<forall>st \<in> set (Steps r). \<not> step_downstream st \<longrightarrow> ok_step st"
    using assms by (auto simp: may_run_def)
  show "sent_within reach s (snd (handleSwitchPipeline exec E r ii inp s))"
    using switch_loop_sent [OF ok] by (auto simp: handleSwitchPipeline_def split: option.split)
  show "sent_within reach s (snd (handleSequencePipeline exec E r ii inp s))"
    using sequence_loop_sent [OF ok] by (auto simp: handleSequencePipeline_def split: option.split)
qed

end

lemma routeStep_sent: "sent_within (reach_urls g n) s (snd (routeStep d E g n ii inp s))"
proof (induction d arbitrary: n ii inp s)
  case (Suc d)
  let ?r = "node_at (graph_nodes g) n"
  have run: "step_runner (executeStep (routeStep d E g) E g ii) (may_run ?r) (reach_urls g n)"
    by (rule executeStep_runner) (rule Suc.IH)
  note sent = step_runner.pipelines_sent [OF run, of ?r]
  show ?case using sent by (simp add: Let_def)
qed simp

interpretation router: step_runner "executeStep (routeStep d E g) E g ii"
  "may_run (node_at (graph_nodes g) n)" "reach_urls g n"
  for d E g ii n
  by (rule executeStep_runner) (rule routeStep_sent)

section \<open>Termination\<close>

text \<open>The contract for termination: running a step finishes.\<close>

locale finishing_runner =
  fixes exec :: "'w exec_fun" and ok_step :: "Step \<Rightarrow> bool"
  assumes finishes: "ok_step st \<Longrightarrow> fst (exec st inp s) \<noteq> Unfinished"

lemma mergeRequests_finishes [simp]: "mergeRequests r d \<noteq> Unfinished"
  by (auto simp: mergeRequests_def split: option.split json.split)

lemma step_request_finishes [simp]: "step_request st i inp bs d \<noteq> Unfinished"
  by (simp add: step_request_def)

lemma switch_prepare_finishes [simp]: "switch_prepare inp d i st b bs \<noteq> Inl Unfinished"
  by (auto simp: switch_prepare_def split: sum.splits go.splits prod.splits)

lemma sequence_prepare_finishes [simp]: "sequence_prepare E inp d i st b bs \<noteq> Inl Unfinished"
  by (auto simp: sequence_prepare_def split: sum.splits go.splits prod.splits)

text \<open>The runtime runs every goroutine, once, in some order.\<close>

definition fair_spawn :: "'w ext \<Rightarrow> bool" where
  "fair_spawn E = (\<forall>n. mset (spawn_order E n) = mset [0..<n])"

lemma fair_spawn_set: "fair_spawn E \<Longrightarrow> set (spawn_order E n) = {..<n}"
  by (metis atLeast0LessThan atLeastLessThan_upt fair_spawn_def mset_eq_setD)

lemma spawn_keeps:
  assumes "ensemble_spawn exec E steps inp is outs s = (Ret outs', s')" "length outs = length steps"
  shows "length outs' = length steps \<and>
    (\<forall>i < length steps. i \<in> set is \<or> outs ! i \<noteq> None \<longrightarrow> outs' ! i \<noteq> None)"
  using assms
proof (induction "is" arbitrary: outs s)
  case (Cons j "is")
  show ?case
  proof (cases "length steps \<le> j")
    case True
    with Cons.IH [of outs s] Cons.prems show ?thesis by auto
  next
    case False
    then obtain x s1 where "ensemble_goroutine exec E (steps ! j) inp s = (Ret x, s1)"
      and "ensemble_spawn exec E steps inp is (outs[j := Some x]) s1 = (Ret outs', s')"
      using Cons.prems(1) by (auto split: prod.splits go.splits)
    with Cons.IH [of "outs[j := Some x]" s1] Cons.prems(2) False show ?thesis
      by (auto simp: nth_list_update)
  qed
qed simp

lemma collect_finishes:
  assumes "\<forall>j < i + length steps. outs ! j \<noteq> None"
  shows "ensemble_collect E outs i steps resp \<noteq> Unfinished"
  using assms
proof (induction steps arbitrary: i resp)
  case (Cons st steps)
  from Cons.prems have "outs ! i \<noteq> None" by simp
  moreover have "ensemble_collect E outs (Suc i) steps resp' \<noteq> Unfinished" for resp'
    using Cons by simp
  ultimately show ?case by (auto split: option.split ensemble_out.split)
qed simp

context finishing_runner
begin

lemma finishesD: "exec st inp s = (r, s') \<Longrightarrow> ok_step st \<Longrightarrow> r \<noteq> Unfinished"
  by (metis finishes fst_conv)

lemma node_finishesD: "handleSwitchNode exec st inp s = (r, s') \<Longrightarrow> ok_step st \<Longrightarrow> r \<noteq> Unfinished"
  by (auto simp: handleSwitchNode_def split: prod.splits go.splits option.splits dest: finishesD)

lemma goroutine_finishesD: "ensemble_goroutine exec E st inp s = (r, s') \<Longrightarrow> ok_step st \<Longrightarrow> r \<noteq> Unfinished"
  by (auto simp: ensemble_goroutine_def Let_def split: prod.splits go.splits option.splits dest: finishesD)

lemma switch_loop_finishes:
  "\<forall>r \<in> set routes. ok_step r \<Longrightarrow> fst (switch_loop exec E ii inp d idx routes b bs c s) \<noteq> Unfinished"
proof (induction routes arbitrary: idx b bs c s)
  case (Cons r routes)
  then show ?case
    using switch_prepare_finishes [of inp d idx r b bs]
    by (auto split: sum.split prod.split go.split option.split dest: node_finishesD)
qed simp

lemma sequence_loop_finishes:
  "\<forall>r \<in> set steps. ok_step r \<Longrightarrow> fst (sequence_loop exec E inp d i steps b bs c s) \<noteq> Unfinished"
proof (induction steps arbitrary: i b bs c s)
  case (Cons r steps)
  then show ?case
    using sequence_prepare_finishes [of E inp d i r b bs]
    by (auto split: sum.split prod.split go.split option.split dest: finishesD)
qed simp

lemma spawn_finishes:
  "\<forall>r \<in> set steps. ok_step r \<Longrightarrow> fst (ensemble_spawn exec E steps inp is outs s) \<noteq> Unfinished"
proof (induction "is" arbitrary: outs s)
  case (Cons i "is")
  then show ?case
    by (auto split: prod.split go.split dest: goroutine_finishesD)
qed simp

lemma pipelines_finish:
  assumes "\<forall>st \<in> set (Steps r). ok_step st"
  shows "fair_spawn E \<Longrightarrow> fst (handleEnsemblePipeline exec E r inp s) \<noteq> Unfinished"
    and "fst (handleSwitchPipeline exec E r ii inp s) \<noteq> Unfinished"
    and "fst (handleSequencePipeline exec E r ii inp s) \<noteq> Unfinished"
proof -
  let ?n = "length (Steps r)"
  let ?sp = "ensemble_spawn exec E (Steps r) inp (spawn_order E ?n) (replicate ?n None) s"
  show "fst (handleEnsemblePipeline exec E r inp s) \<noteq> Unfinished" if fair: "fair_spawn E"
  proof -
    have "fst ?sp \<noteq> Unfinished" using assms by (rule spawn_finishes)
    moreover have "ensemble_collect E outs 0 (Steps r) [] \<noteq> Unfinished" if "?sp = (Ret outs, s')" for outs s'
      using spawn_keeps [OF that] fair by (intro collect_finishes) (auto simp: fair_spawn_set)
    ultimately show ?thesis
      by (cases ?sp) (auto simp: handleEnsemblePipeline_def Let_def split: go.split)
  qed
  show "fst (handleSwitchPipeline exec E r ii inp s) \<noteq> Unfinished"
    using switch_loop_finishes [OF assms] by (auto simp: handleSwitchPipeline_def split: option.split)
  show "fst (handleSequencePipeline exec E r ii inp s) \<noteq> Unfinished"
    using sequence_loop_finishes [OF assms] by (auto simp: handleSequencePipeline_def split: option.split)
qed

end

text \<open>\<open>(m, n)\<close>: the node \<open>n\<close> has a step that runs the node \<open>m\<close>.\<close>

definition calls :: "GMConnector \<Rightarrow> (string \<times> string) set" where
  "calls g = {(step_node st, n) | st n. st \<in> set (Steps (node_at (graph_nodes g) n)) \<and> step_node st \<noteq> []}"

lemma callService_finishes [simp]: "fst (callService E st url inp s) \<noteq> Unfinished"
  by (auto simp: callService_def Let_def split: option.split sum.split prod.split)

lemma executeStep_finishing:
  assumes "\<And>m ii inp s. (m, n) \<in> calls g \<Longrightarrow> fst (route m ii inp s) \<noteq> Unfinished"
  shows "finishing_runner (executeStep route E g ii) (\<lambda>st. st \<in> set (Steps (node_at (graph_nodes g) n)))"
  by unfold_locales (auto simp: executeStep_def calls_def intro!: assms)

text \<open>A step that calls a service always finishes, whatever \<open>route\<close> does.\<close>

interpretation leaf: finishing_runner "executeStep route E g ii" "\<lambda>st. step_node st = []" for route E g ii
  by unfold_locales (simp add: executeStep_def)

lemma routeStep_ranked:
  assumes "\<And>m n. (m, n) \<in> calls g \<Longrightarrow> rk m < (rk n :: nat)" and "fair_spawn E"
  shows "rk n < d \<Longrightarrow> fst (routeStep d E g n ii inp s) \<noteq> Unfinished"
proof (induction d arbitrary: n ii inp s)
  case (Suc d)
  let ?r = "node_at (graph_nodes g) n"
  have run: "finishing_runner (executeStep (routeStep d E g) E g ii) (\<lambda>st. st \<in> set (Steps ?r))"
    by (rule executeStep_finishing, rule Suc.IH) (use assms(1) Suc.prems in fastforce)
  show ?case
    using finishing_runner.pipelines_finish [OF run] assms(2) by (simp add: Let_def)
qed simp

text \<open>Without cycles, the number of nodes called below a node is a rank.\<close>

lemma calls_nodes:
  assumes "(m, n) \<in> calls g"
  shows "m \<in> step_node ` set (all_steps (graph_nodes g))" and "n \<in> set (gm_keys (graph_nodes g))"
  using assms node_at_step by (auto simp: calls_def)

lemma finite_calls: "finite (calls g)"
proof -
  have "calls g \<subseteq> step_node ` set (all_steps (graph_nodes g)) \<times> set (gm_keys (graph_nodes g))"
    using calls_nodes by auto
  then show ?thesis by (rule finite_subset) simp
qed

lemma calls_rank:
  assumes "acyclic (calls g)" and "(m, n) \<in> calls g"
  shows "card {k. (k, m) \<in> (calls g)\<^sup>+} < card {k. (k, n) \<in> (calls g)\<^sup>+}"
proof (rule psubset_card_mono)
  have "{k. (k, n) \<in> (calls g)\<^sup>+} \<subseteq> fst ` (calls g)\<^sup>+" by force
  then show "finite {k. (k, n) \<in> (calls g)\<^sup>+}"
    by (rule finite_subset) (simp add: finite_calls)
  have "m \<notin> {k. (k, m) \<in> (calls g)\<^sup>+}" using assms(1) by (simp add: acyclic_def)
  moreover have "m \<in> {k. (k, n) \<in> (calls g)\<^sup>+}" using assms(2) by auto
  moreover have "{k. (k, m) \<in> (calls g)\<^sup>+} \<subseteq> {k. (k, n) \<in> (calls g)\<^sup>+}"
    using assms(2) by (auto intro: trancl_into_trancl)
  ultimately show "{k. (k, m) \<in> (calls g)\<^sup>+} \<subset> {k. (k, n) \<in> (calls g)\<^sup>+}" by blast
qed

text \<open>In an admitted graph a node calls declared nodes only, so the rank is below their number.\<close>

lemma calls_below_bound:
  assumes "names_valid (graph_nodes g)"
  shows "card {k. (k, n) \<in> (calls g)\<^sup>+} \<le> length (graph_nodes g)"
proof -
  have "k \<in> set (gm_keys (graph_nodes g))" if "(k, n) \<in> (calls g)\<^sup>+" for k
  proof -
    from that obtain m where "(k, m) \<in> calls g" by (meson tranclD)
    then obtain st where st: "st \<in> set (all_steps (graph_nodes g))" "k = step_node st" "step_node st \<noteq> []"
      using node_at_step(1) by (auto simp: calls_def)
    with assms have "\<not> dangling (graph_nodes g) st" by (simp add: names_valid_def)
    with st show ?thesis by (simp add: dangling_def gm_has_keys)
  qed
  then have "{k. (k, n) \<in> (calls g)\<^sup>+} \<subseteq> set (gm_keys (graph_nodes g))" by blast
  then have "card {k. (k, n) \<in> (calls g)\<^sup>+} \<le> card (set (gm_keys (graph_nodes g)))"
    by (rule card_mono [OF finite_set])
  also have "\<dots> \<le> length (gm_keys (graph_nodes g))" by (rule card_length)
  finally show ?thesis by (simp add: gm_keys_def)
qed

lemma routeStep_acyclic:
  assumes "names_valid (graph_nodes g)" "acyclic (calls g)" "fair_spawn E" "length (graph_nodes g) < d"
  shows "fst (routeStep d E g n ii inp s) \<noteq> Unfinished"
proof (rule routeStep_ranked [where rk = "\<lambda>n. card {k. (k, n) \<in> (calls g)\<^sup>+}"])
  show "card {k. (k, n) \<in> (calls g)\<^sup>+} < d"
    using calls_below_bound [OF assms(1), of n] assms(4) by simp
qed (use assms calls_rank in auto)

section \<open>A sequence composes its services\<close>

text \<open>Services that answer every request with status 200 and a function of the URL and the body.\<close>

definition pure_services :: "'w ext \<Rightarrow> (string \<Rightarrow> bytes \<Rightarrow> bytes) \<Rightarrow> bool" where
  "pure_services E f = ((\<forall>u. url_parse_err E u = None) \<and>
     (\<forall>q w. \<exists>ps w'. client_do E q w = (Inr (200, http_body ps), w') \<and> [] \<notin> set ps \<and> concat ps = f (hr_url q) (hr_body q)))"

text \<open>A step that calls a service and whose \<open>no_proxy\<close> setting is accepted, and one that does so without a
  condition.\<close>

definition leaf_step :: "Step \<Rightarrow> bool" where
  "leaf_step st = (step_node st = [] \<and>
     (\<forall>cfg. Config (step_target st) = Some cfg \<longrightarrow> CHR 0x00 \<notin> set (gm_str cfg ''no_proxy'')))"

definition plain_step :: "Step \<Rightarrow> bool" where
  "plain_step st = (leaf_step st \<and> Condition st = [])"

text \<open>The abstract pipeline over the steps that are not skipped: the last answer, and the requests made, in
  order.\<close>

fun chain :: "(Step \<Rightarrow> bool) \<Rightarrow> (string \<Rightarrow> bytes \<Rightarrow> bytes) \<Rightarrow> string \<Rightarrow> bytes \<Rightarrow> nat \<Rightarrow> Step list \<Rightarrow> bytes \<Rightarrow> bytes \<times> (string \<times> bytes) list" where
  "chain skip f ns inp i [] prev = (prev, [])"
| "chain skip f ns inp i (st # sts) prev =
     (if skip st then chain skip f ns inp (Suc i) sts prev
      else let url = getServiceURLByStepTarget st ns;
               req = (if Data st = ''$response'' \<and> 0 < i then prev else inp);
               (out, tr) = chain skip f ns inp (Suc i) sts (f url req)
           in (out, (url, req) # tr))"

definition requests :: "'w rs \<Rightarrow> (string \<times> bytes) list" where
  "requests s = map (\<lambda>q. (hr_url q, hr_body q)) (rs_sent s)"

definition holds_bytes :: "stream option \<Rightarrow> bytes \<Rightarrow> bytes \<Rightarrow> bool" where
  "holds_bytes b bs prev = (case b of None \<Rightarrow> bs = prev | Some x \<Rightarrow> stream_fresh x \<and> concat (sr_packets x) = prev)"

lemma executeStep_pure:
  assumes "pure_services E f" "leaf_step st"
  shows "\<exists>x s'. executeStep route E g ii st req s = (Ret (Some x, 200, None), s') \<and> stream_fresh x \<and> sr_http x \<and>
    concat (sr_packets x) = f (getServiceURLByStepTarget st (graph_ns g)) req \<and>
    requests s' = requests s @ [(getServiceURLByStepTarget st (graph_ns g), req)]"
proof -
  let ?u = "getServiceURLByStepTarget st (graph_ns g)"
  let ?q = "\<lparr>hr_method = ''POST'', hr_url = ?u, hr_body = req, hr_ctype = ''application/json''\<rparr>"
  have "\<exists>ps w'. client_do E ?q w = (Inr (200, http_body ps), w') \<and> [] \<notin> set ps \<and> concat ps = f ?u req" for w
    using assms(1) unfolding pure_services_def by (metis http_request.select_convs(2,3))
  then obtain ps w' where q: "client_do E ?q (rs_world s) = (Inr (200, http_body ps), w')" "[] \<notin> set ps" "concat ps = f ?u req"
    by blast
  show ?thesis
  proof (cases "Config (step_target st)")
    case None
    with q assms show ?thesis
      by (simp add: executeStep_def callService_def pure_services_def requests_def leaf_step_def)
  next
    case (Some cfg)
    with q assms show ?thesis
      by (simp add: executeStep_def callService_def os_Setenv_def pure_services_def requests_def leaf_step_def)
  qed
qed

lemma drain_holds: "holds_bytes b bs prev \<Longrightarrow> \<exists>b'. drain b bs = Inr (b', prev)"
  by (auto simp: holds_bytes_def drain_def readAll_fresh split: option.splits)

lemma chain_silent: "snd (chain skip f ns inp i steps prev) = [] \<Longrightarrow> fst (chain skip f ns inp i steps prev) = prev"
  by (induction steps arbitrary: i prev) (auto simp: Let_def split: prod.splits if_splits)

lemma sequence_loop_chain:
  assumes "pure_services E f" "\<forall>st \<in> set steps. plain_step st" "gm_get d Parameters = None"
    "holds_bytes b bs prev"
  shows "\<exists>b' c' s'. sequence_loop (executeStep route E g ii) E inp d i steps b bs c s = (Ret (b', c', None), s') \<and>
    requests s' = requests s @ snd (chain step_downstream f (graph_ns g) inp i steps prev) \<and>
    (if snd (chain step_downstream f (graph_ns g) inp i steps prev) = [] then b' = b \<and> c' = c
     else c' = 200 \<and> (\<exists>x. b' = Some x \<and> stream_fresh x \<and>
       concat (sr_packets x) = fst (chain step_downstream f (graph_ns g) inp i steps prev)))"
  using assms(2,4)
proof (induction steps arbitrary: i b bs prev c s)
  case (Cons st steps)
  let ?exec = "executeStep route E g ii"
  let ?u = "getServiceURLByStepTarget st (graph_ns g)"
  define req where "req = (if Data st = ''$response'' \<and> 0 < i then prev else inp)"
  show ?case
  proof (cases "step_downstream st")
    case True
    with Cons.IH [OF _ Cons.prems(2), of "Suc i" c s] Cons.prems(1) show ?thesis
      by (cases "snd (chain step_downstream f (graph_ns g) inp (Suc i) steps prev) = []") simp_all
  next
    case False
    obtain b0 where b0: "drain b bs = Inr (b0, prev)" using drain_holds Cons.prems(2) by blast
    have prep: "sequence_prepare E inp d i st b bs = Inr (req, prev)"
      using b0 Cons.prems(1) assms(3)
      by (simp add: sequence_prepare_def step_request_def mergeRequests_def plain_step_def req_def)
    obtain x s1 where x: "?exec st req s = (Ret (Some x, 200, None), s1)" "stream_fresh x"
      "concat (sr_packets x) = f ?u req" "requests s1 = requests s @ [(?u, req)]"
      using executeStep_pure [OF assms(1), of st route g ii req s] Cons.prems(1)
      by (auto simp: plain_step_def)
    have "holds_bytes (Some x) prev (f ?u req)" using x by (simp add: holds_bytes_def)
    moreover obtain out tr where tl: "chain step_downstream f (graph_ns g) inp (Suc i) steps (f ?u req) = (out, tr)" by fastforce
    ultimately show ?thesis
      using Cons.IH [of "Some x" prev "f ?u req" "Suc i" 200 s1] Cons.prems(1) prep x False
        chain_silent [of step_downstream f "graph_ns g" inp "Suc i" steps "f ?u req"]
      by (auto simp: isSuccessFul_def req_def [symmetric] split: if_splits)
  qed
qed simp

lemma chain_not_empty:
  "\<exists>st \<in> set steps. \<not> skip st \<Longrightarrow> snd (chain skip f ns inp i steps prev) \<noteq> []"
  by (induction steps arbitrary: i prev) (auto simp: Let_def split: prod.split)

text \<open>A switch runs every step whose condition holds, not only the first.\<close>

definition not_taken :: "'w ext \<Rightarrow> bytes \<Rightarrow> Step \<Rightarrow> bool" where
  "not_taken E ii st = (step_downstream st \<or> (Condition st \<noteq> [] \<and> \<not> pickupRouteByCondition E ii (Condition st)))"

lemma switch_loop_skip:
  "not_taken E ii st \<Longrightarrow> switch_loop exec E ii inp d i (st # sts) b bs c s = switch_loop exec E ii inp d (Suc i) sts b bs c s"
  by (auto simp: not_taken_def)

lemma switch_loop_chain:
  assumes "pure_services E f" "\<forall>st \<in> set steps. leaf_step st" "gm_get d Parameters = None"
    "holds_bytes b bs prev"
  shows "\<exists>b' c' s'. switch_loop (executeStep route E g ii) E ii inp d i steps b bs c s = (Ret (b', c', None), s') \<and>
    requests s' = requests s @ snd (chain (not_taken E ii) f (graph_ns g) inp i steps prev) \<and>
    (if snd (chain (not_taken E ii) f (graph_ns g) inp i steps prev) = [] then b' = b \<and> c' = c
     else c' = 200 \<and> (\<exists>x. b' = Some x \<and> stream_fresh x \<and>
       concat (sr_packets x) = fst (chain (not_taken E ii) f (graph_ns g) inp i steps prev)))"
  using assms(2,4)
proof (induction steps arbitrary: i b bs prev c s)
  case (Cons st steps)
  let ?exec = "executeStep route E g ii"
  let ?u = "getServiceURLByStepTarget st (graph_ns g)"
  define req where "req = (if Data st = ''$response'' \<and> 0 < i then prev else inp)"
  show ?case
  proof (cases "not_taken E ii st")
    case True
    with Cons.IH [OF _ Cons.prems(2), of "Suc i" c s] Cons.prems(1) switch_loop_skip [OF True, of ?exec inp d i steps b bs c s]
    show ?thesis
      by (cases "snd (chain (not_taken E ii) f (graph_ns g) inp (Suc i) steps prev) = []") simp_all
  next
    case False
    obtain b0 where b0: "drain b bs = Inr (b0, prev)" using drain_holds Cons.prems(2) by blast
    have prep: "switch_prepare inp d i st b bs = Inr (req, prev)"
      using b0 assms(3) by (simp add: switch_prepare_def step_request_def mergeRequests_def req_def)
    obtain x s1 where x: "?exec st req s = (Ret (Some x, 200, None), s1)" "stream_fresh x"
      "concat (sr_packets x) = f ?u req" "requests s1 = requests s @ [(?u, req)]"
      using executeStep_pure [OF assms(1), of st route g ii req s] Cons.prems(1) by auto
    have "holds_bytes (Some x) prev (f ?u req)" using x by (simp add: holds_bytes_def)
    moreover obtain out tr where tl: "chain (not_taken E ii) f (graph_ns g) inp (Suc i) steps (f ?u req) = (out, tr)" by fastforce
    moreover have "switch_loop ?exec E ii inp d i (st # steps) b bs c s = switch_loop ?exec E ii inp d (Suc i) steps (Some x) prev 200 s1"
      using False prep x by (auto simp: not_taken_def handleSwitchNode_def)
    ultimately show ?thesis
      using Cons.IH [of "Some x" prev "f ?u req" "Suc i" 200 s1] Cons.prems(1) x False
        chain_silent [of "not_taken E ii" f "graph_ns g" inp "Suc i" steps "f ?u req"]
      by (auto simp: req_def [symmetric] split: if_splits)
  qed
qed simp

section \<open>A failed hard dependency ends a sequence\<close>

lemma hard_failure_stops:
  assumes "Dependency st = Hard" "\<not> step_downstream st"
    and fails: "\<And>req s. \<exists>b c s'. exec st req s = (Ret (b, c, None), s') \<and> \<not> isSuccessFul c"
  shows "sequence_loop exec E inp d i (pre @ st # post) b bs c s = sequence_loop exec E inp d i (pre @ [st]) b bs c s"
proof (induction pre arbitrary: i b bs c s)
  case Nil
  show ?case
  proof (cases "sequence_prepare E inp d i st b bs")
    case (Inr p)
    obtain req bs' where p: "p = (req, bs')" by fastforce
    obtain b1 c1 s1 where "exec st req s = (Ret (b1, c1, None), s1)" "\<not> isSuccessFul c1"
      using fails by blast
    with Inr p assms show ?thesis by simp
  qed (simp add: assms)
next
  case (Cons p pre)
  show ?case
  proof (cases "sequence_prepare E inp d i p b bs")
    case (Inr q)
    obtain req bs' where q: "q = (req, bs')" by fastforce
    obtain x s1 where "exec p req s = (x, s1)" by fastforce
    with Inr q Cons show ?thesis by (cases x) (auto split: option.split)
  qed (simp add: Cons)
qed

section \<open>A node that runs itself\<close>

lemma self_call_diverges:
  assumes "gm_get (graph_nodes g) n = Some \<lparr>routerType = Sequence, Steps = st # sts\<rparr>"
    "step_node st = n" "n \<noteq> []" "\<not> step_downstream st" "Condition st = []" "init_req_data ii \<noteq> None"
  shows "fst (routeStep d E g n ii inp s) = Unfinished"
proof (induction d arbitrary: inp s)
  case (Suc d)
  obtain dd where dd: "init_req_data ii = Some dd" using assms(6) by blast
  have "sequence_prepare E inp dd 0 st None [] = Inr (inp, [])"
    using assms(5) by (simp add: sequence_prepare_def drain_def step_request_def)
  moreover obtain r s1 where "routeStep d E g n ii inp s = (r, s1)" by fastforce
  ultimately show ?case
    using Suc [of inp s] assms dd by (simp add: node_at_def handleSequencePipeline_def executeStep_def)
qed simp

section \<open>A switch without a matching step\<close>

lemma switch_no_match:
  assumes "\<forall>st \<in> set steps. step_downstream st \<or>
    (Condition st \<noteq> [] \<and> \<not> pickupRouteByCondition E ii (Condition st))"
  shows "switch_loop exec E ii inp d i steps b bs c s = (Ret (b, c, None), s)"
  using assms by (induction steps arbitrary: i) auto

section \<open>An ensemble merges its answers\<close>

text \<open>What an ensemble promises over such services: under the key of each step, the decoded answer to the
  common input; a later step with the same key wins.\<close>

definition answer_json :: "(string \<Rightarrow> bytes \<Rightarrow> bytes) \<Rightarrow> string \<Rightarrow> bytes \<Rightarrow> Step \<Rightarrow> json" where
  "answer_json f ns inp st = (case unmarshal_map (f (getServiceURLByStepTarget st ns) inp) of
     None \<Rightarrow> JNull | Some res \<Rightarrow> json_of_map res)"

fun merged_answers :: "(Step \<Rightarrow> json) \<Rightarrow> nat \<Rightarrow> Step list \<Rightarrow> (string, json) gomap \<Rightarrow> (string, json) gomap" where
  "merged_answers ans i [] m = m"
| "merged_answers ans i (st # sts) m = merged_answers ans (Suc i) sts (gm_set (step_key st i) (ans st) m)"

definition ensemble_step :: "(string \<Rightarrow> bytes \<Rightarrow> bytes) \<Rightarrow> string \<Rightarrow> bytes \<Rightarrow> Step \<Rightarrow> bool" where
  "ensemble_step f ns inp st = (plain_step st \<and> unmarshal_map (f (getServiceURLByStepTarget st ns) inp) \<noteq> None)"

definition answer_out :: "(string \<Rightarrow> bytes \<Rightarrow> bytes) \<Rightarrow> string \<Rightarrow> bytes \<Rightarrow> Step \<Rightarrow> ensemble_out" where
  "answer_out f ns inp st = StepOut (the (unmarshal_map (f (getServiceURLByStepTarget st ns) inp))) 200"

lemma goroutine_pure:
  assumes "pure_services E f" "ensemble_step f (graph_ns g) inp st"
  shows "\<exists>s'. ensemble_goroutine (executeStep route E g ii) E st inp s = (Ret (answer_out f (graph_ns g) inp st), s') \<and>
    requests s' = requests s @ [(getServiceURLByStepTarget st (graph_ns g), inp)]"
proof -
  obtain x s' where "executeStep route E g ii st inp s = (Ret (Some x, 200, None), s')" "stream_fresh x"
    "concat (sr_packets x) = f (getServiceURLByStepTarget st (graph_ns g)) inp"
    "requests s' = requests s @ [(getServiceURLByStepTarget st (graph_ns g), inp)]"
    using executeStep_pure [OF assms(1), of st route g ii inp s] assms(2)
    by (auto simp: ensemble_step_def plain_step_def)
  with assms(2) show ?thesis
    by (auto simp: ensemble_goroutine_def answer_out_def ensemble_step_def readAll_fresh)
qed

lemma spawn_pure:
  assumes "pure_services E f" "\<forall>st \<in> set steps. ensemble_step f (graph_ns g) inp st"
    "set is \<subseteq> {..<length steps}"
  shows "\<exists>s'. ensemble_spawn (executeStep route E g ii) E steps inp is outs s =
      (Ret (foldl (\<lambda>os i. os[i := Some (answer_out f (graph_ns g) inp (steps ! i))]) outs is), s') \<and>
    requests s' = requests s @ map (\<lambda>i. (getServiceURLByStepTarget (steps ! i) (graph_ns g), inp)) is"
  using assms(3)
proof (induction "is" arbitrary: outs s)
  case (Cons i "is")
  let ?o = "Some (answer_out f (graph_ns g) inp (steps ! i))"
  have "steps ! i \<in> set steps" using Cons.prems by simp
  with assms obtain s1 where s1:
    "ensemble_goroutine (executeStep route E g ii) E (steps ! i) inp s = (Ret (answer_out f (graph_ns g) inp (steps ! i)), s1)"
    "requests s1 = requests s @ [(getServiceURLByStepTarget (steps ! i) (graph_ns g), inp)]"
    using goroutine_pure [OF assms(1)] by blast
  with Cons.IH [of "outs[i := ?o]" s1] Cons.prems show ?case by auto
qed simp

lemma foldl_update_nth:
  "j < length xs \<Longrightarrow> foldl (\<lambda>os i. os[i := h i]) xs is ! j = (if j \<in> set is then h j else xs ! j)"
  by (induction "is" arbitrary: xs) (auto simp: nth_list_update)

lemma foldl_update_length [simp]: "length (foldl (\<lambda>os i. os[i := h i]) xs is) = length xs"
  by (induction "is" arbitrary: xs) auto

lemma foldl_update_all:
  assumes "set is = {..<length steps}"
  shows "foldl (\<lambda>os i. os[i := Some (h (steps ! i))]) (replicate (length steps) None) is = map (\<lambda>st. Some (h st)) steps"
  using assms foldl_update_nth [of _ "replicate (length steps) None" "\<lambda>i. Some (h (steps ! i))" "is"]
  by (intro nth_equalityI) auto

lemma collect_pure:
  assumes "\<forall>st \<in> set (pre @ steps). ensemble_step f ns inp st"
  shows "ensemble_collect E (map (\<lambda>st. Some (answer_out f ns inp st)) (pre @ steps)) (length pre) steps m =
    Ret (Some (NewReadCloser (marshal_map (merged_answers (answer_json f ns inp) (length pre) steps m))), 200, None)"
  using assms
proof (induction steps arbitrary: pre m)
  case (Cons st steps)
  let ?outs = "map (\<lambda>st. Some (answer_out f ns inp st)) (pre @ st # steps)"
  have "picked_err E ?outs (length pre) = None"
    by (auto simp: picked_err_def answer_out_def nth_append nth_Cons' split: option.split ensemble_out.split)
  moreover have "?outs ! length pre = Some (answer_out f ns inp st)" by (simp add: nth_append)
  moreover have "json_of_map (the (unmarshal_map (f (getServiceURLByStepTarget st ns) inp))) = answer_json f ns inp st"
    using Cons.prems by (auto simp: ensemble_step_def answer_json_def)
  ultimately show ?case
    using Cons.IH [of "pre @ [st]" "gm_set (step_key st (length pre)) (answer_json f ns inp st) m"] Cons.prems
    by (simp add: answer_out_def isSuccessFul_def)
qed simp

lemma ensemble_pure:
  assumes "pure_services E f" "fair_spawn E" "\<forall>st \<in> set (Steps r). ensemble_step f (graph_ns g) inp st"
  shows "\<exists>s'. handleEnsemblePipeline (executeStep route E g ii) E r inp s =
      (Ret (Some (NewReadCloser (marshal_map (merged_answers (answer_json f (graph_ns g) inp) 0 (Steps r) []))), 200, None), s') \<and>
    (\<exists>new. requests s' = requests s @ new \<and>
       mset new = mset (map (\<lambda>st. (getServiceURLByStepTarget st (graph_ns g), inp)) (Steps r)))"
proof -
  let ?is = "spawn_order E (length (Steps r))"
  let ?rq = "\<lambda>st. (getServiceURLByStepTarget st (graph_ns g), inp)"
  have "set ?is \<subseteq> {..<length (Steps r)}" by (simp add: fair_spawn_set [OF assms(2)])
  then obtain s' where "ensemble_spawn (executeStep route E g ii) E (Steps r) inp ?is (replicate (length (Steps r)) None) s =
      (Ret (map (\<lambda>st. Some (answer_out f (graph_ns g) inp st)) (Steps r)), s')"
    and rq: "requests s' = requests s @ map (\<lambda>i. ?rq (Steps r ! i)) ?is"
    using spawn_pure [OF assms(1,3), of ?is route ii "replicate (length (Steps r)) None" s]
    by (auto simp: foldl_update_all [of ?is "Steps r" "answer_out f (graph_ns g) inp"] fair_spawn_set [OF assms(2)])
  moreover have "mset (map (\<lambda>i. ?rq (Steps r ! i)) ?is) = mset (map (\<lambda>i. ?rq (Steps r ! i)) [0..<length (Steps r)])"
    using assms(2) unfolding fair_spawn_def by (metis mset_map)
  moreover have "map (\<lambda>i. ?rq (Steps r ! i)) [0..<length (Steps r)] = map ?rq (Steps r)"
    by (rule nth_equalityI) auto
  ultimately show ?thesis
    using collect_pure [of "[]" "Steps r" f "graph_ns g" inp E "[]"] assms(3)
    by (auto simp: handleEnsemblePipeline_def)
qed

section \<open>A failed call in an ensemble\<close>

context finishing_runner
begin

lemma spawn_panics:
  assumes "i \<in> set is" "i < length steps" "\<forall>st \<in> set steps. ok_step st"
    and fails: "\<And>s. \<exists>c e s'. exec (steps ! i) inp s = (Ret (None, c, e), s')"
  shows "\<exists>s'. ensemble_spawn exec E steps inp is outs s = (Panic, s')"
  using assms(1)
proof (induction "is" arbitrary: outs s)
  case (Cons j "is")
  show ?case
  proof (cases "j = i")
    case True
    obtain c e s' where "exec (steps ! i) inp s = (Ret (None, c, e), s')" using fails by blast
    with True assms(2) show ?thesis by (simp add: ensemble_goroutine_def)
  next
    case False
    then have "i \<in> set is" using Cons.prems by simp
    note IH = Cons.IH [OF this]
    obtain x s1 where x: "ensemble_goroutine exec E (steps ! j) inp s = (x, s1)" by fastforce
    have "length steps \<le> j \<or> x \<noteq> Unfinished" using goroutine_finishesD [OF x] assms(3) by force
    then show ?thesis using IH x by (cases x) auto
  qed
qed simp

end

lemma ensemble_panics:
  assumes "fair_spawn E" "st \<in> set (Steps r)" "\<forall>st \<in> set (Steps r). step_node st = []"
    and "\<And>s. \<exists>c e s'. executeStep route E g ii st inp s = (Ret (None, c, e), s')"
  shows "fst (handleEnsemblePipeline (executeStep route E g ii) E r inp s) = Panic"
proof -
  obtain i where i: "i < length (Steps r)" "st = Steps r ! i" using assms(2) by (metis in_set_conv_nth)
  then have "i \<in> set (spawn_order E (length (Steps r)))" using fair_spawn_set [OF assms(1)] by simp
  from leaf.spawn_panics [OF this i(1) assms(3) assms(4) [unfolded i(2)], of E "replicate (length (Steps r)) None" s]
  show ?thesis by (auto simp: handleEnsemblePipeline_def)
qed

section \<open>Nodes over functional services\<close>

lemma sequence_node_pure:
  assumes "pure_services E f" "node_at (graph_nodes g) n = \<lparr>routerType = Sequence, Steps = steps\<rparr>"
    and "\<forall>st \<in> set steps. plain_step st" "\<exists>st \<in> set steps. \<not> step_downstream st"
    and "init_req_data ii = Some d" "gm_get d Parameters = None"
  shows "\<exists>b s'. routeStep (Suc k) E g n ii inp s = (Ret (Some b, 200, None), s') \<and> stream_fresh b \<and>
    concat (sr_packets b) = fst (chain step_downstream f (graph_ns g) inp 0 steps []) \<and>
    requests s' = requests s @ snd (chain step_downstream f (graph_ns g) inp 0 steps [])"
proof -
  have "holds_bytes None [] []" by (simp add: holds_bytes_def)
  from sequence_loop_chain [OF assms(1,3,6) this, of "routeStep k E g" g ii inp 0 0 s]
    chain_not_empty [OF assms(4), of f "graph_ns g" inp 0 "[]"]
  show ?thesis using assms(2,5) by (auto simp: handleSequencePipeline_def)
qed

lemma switch_node_pure:
  assumes "pure_services E f" "node_at (graph_nodes g) n = \<lparr>routerType = Switch, Steps = steps\<rparr>"
    and "\<forall>st \<in> set steps. leaf_step st" "\<exists>st \<in> set steps. \<not> not_taken E ii st"
    and "init_req_data ii = Some d" "gm_get d Parameters = None"
  shows "\<exists>b s'. routeStep (Suc k) E g n ii inp s = (Ret (Some b, 200, None), s') \<and> stream_fresh b \<and>
    concat (sr_packets b) = fst (chain (not_taken E ii) f (graph_ns g) inp 0 steps []) \<and>
    requests s' = requests s @ snd (chain (not_taken E ii) f (graph_ns g) inp 0 steps [])"
proof -
  have "holds_bytes None [] []" by (simp add: holds_bytes_def)
  from switch_loop_chain [OF assms(1,3,6) this, of "routeStep k E g" g ii inp 0 0 s]
    chain_not_empty [OF assms(4), of f "graph_ns g" inp 0 "[]"]
  show ?thesis using assms(2,5) by (auto simp: handleSwitchPipeline_def)
qed

lemma ensemble_node_pure:
  assumes "pure_services E f" "fair_spawn E" "node_at (graph_nodes g) n = \<lparr>routerType = Ensemble, Steps = steps\<rparr>"
    and "\<forall>st \<in> set steps. ensemble_step f (graph_ns g) inp st"
  shows "\<exists>s' new. routeStep (Suc k) E g n ii inp s =
      (Ret (Some (NewReadCloser (marshal_map (merged_answers (answer_json f (graph_ns g) inp) 0 steps []))), 200, None), s') \<and>
    requests s' = requests s @ new \<and>
    mset new = mset (map (\<lambda>st. (getServiceURLByStepTarget st (graph_ns g), inp)) steps)"
  using ensemble_pure [OF assms(1,2), of "\<lparr>routerType = Ensemble, Steps = steps\<rparr>" g inp "routeStep k E g" ii s] assms(3,4)
  by fastforce

text \<open>A second step whose condition does not hold of the first answer: the drained, closed body comes back.\<close>

lemma sequence_node_mismatch:
  assumes "pure_services E f" "node_at (graph_nodes g) n = \<lparr>routerType = Sequence, Steps = st1 # st2 # sts\<rparr>"
    and "plain_step st1" "\<not> step_downstream st1" "\<not> step_downstream st2" "Condition st2 \<noteq> []"
    and "gjson_valid E (f (getServiceURLByStepTarget st1 (graph_ns g)) inp)"
    and "\<not> gjson_exists E (f (getServiceURLByStepTarget st1 (graph_ns g)) inp) (Condition st2)"
    and "init_req_data ii = Some d" "gm_get d Parameters = None"
  shows "\<exists>b s'. routeStep (Suc k) E g n ii inp s = (Ret (Some b, 500, None), s') \<and> sr_unreadable b"
proof -
  let ?u = "getServiceURLByStepTarget st1 (graph_ns g)"
  obtain x s1 where x: "executeStep (routeStep k E g) E g ii st1 inp s = (Ret (Some x, 200, None), s1)" "stream_fresh x"
    "sr_http x" "concat (sr_packets x) = f ?u inp"
    using executeStep_pure [OF assms(1), of st1 "routeStep k E g" g ii inp s] assms(3) by (auto simp: plain_step_def)
  have "sequence_prepare E inp d 0 st1 None [] = Inr (inp, [])"
    using assms(3) by (simp add: sequence_prepare_def drain_def step_request_def plain_step_def)
  moreover have "sequence_prepare E inp d (Suc 0) st2 (Some x) [] = Inl (Ret (Some (stream_close (x\<lparr>sr_packets := []\<rparr>)), 500, None))"
    using assms x by (simp add: sequence_prepare_def drain_def readAll_fresh step_request_def mergeRequests_def)
  ultimately show ?thesis
    using assms x by (simp add: handleSequencePipeline_def isSuccessFul_def stream_close_def sr_unreadable_def)
qed

section \<open>Properties\<close>

text \<open>A concrete environment: services that answer by a function, and a runtime that runs goroutines in
  order; the examples of the properties run in it.\<close>

definition demo_ext :: "(string \<Rightarrow> bytes \<Rightarrow> bytes) \<Rightarrow> unit ext" where
  "demo_ext f = \<lparr>client_do = \<lambda>q w. (Inr (200, http_body [f (hr_url q) (hr_body q)]), w), url_parse_err = \<lambda>_. None,
     gjson_valid = \<lambda>_. True, gjson_exists = \<lambda>_ _. False, gjson_string = \<lambda>_ _. [], json_error = \<lambda>_. ''bad json'',
     spawn_order = \<lambda>n. [0..<n], select_err = \<lambda>_. None\<rparr>"

definition refusing_ext :: "unit ext" where
  "refusing_ext = (demo_ext (\<lambda>u b. b))\<lparr>client_do := \<lambda>q w. (Inl ''connection refused'', w)\<rparr>"

definition demo_state :: "unit rs" where
  "demo_state = \<lparr>rs_env = [], rs_sent = [], rs_world = ()\<rparr>"

definition service_step :: "string \<Rightarrow> string \<Rightarrow> string \<Rightarrow> Step" where
  "service_step name url dat = zero_step\<lparr>StepName := name, ServiceURL := url, Data := dat\<rparr>"

lemma pure_services_demo:
  assumes "\<forall>u b. [] \<noteq> f u b"
  shows "pure_services (demo_ext f) f"
  unfolding pure_services_def demo_ext_def using assms by (auto intro!: exI [of _ "[f x y]" for x y])

lemma fair_spawn_demo [simp]: "fair_spawn (demo_ext f)" "fair_spawn refusing_ext"
  by (simp_all add: fair_spawn_def demo_ext_def refusing_ext_def)

lemma service_step_simps [simp]:
  "plain_step (service_step name url dat)" "step_node (service_step name url dat) = []"
  "step_downstream (service_step name url dat) = False" "Data (service_step name url dat) = dat"
  "StepName (service_step name url dat) = name"
  "getServiceURLByStepTarget (service_step name url dat) ns = (if url = [] then ''http://'' @ name @ ''.'' @ ns @ ''.svc.cluster.local'' else url)"
  by (simp_all add: plain_step_def leaf_step_def service_step_def zero_step_def zero_executor_def zero_target_def getServiceURLByStepTarget_def)

text \<open>C3: routing an admitted graph whose nodes do not run each other in a cycle always comes to an end: a
  call depth above the number of nodes is enough, for every request and every behaviour of the services.\<close>

theorem routing_terminates:
  assumes "validateGMConnector g = None" "acyclic (calls g)" "fair_spawn E" "length (graph_nodes g) < depth"
  shows "fst (routeStep depth E g n ii inp s) \<noteq> Unfinished"
  using assms routeStep_acyclic graph_valid_iff_admitted graph_valid_def by blast

definition two_node_graph :: GMConnector where
  "two_node_graph = example_graph [(''root'', \<lparr>routerType = Sequence, Steps = [example_step ''Llm'' ''sub'' []]\<rparr>),
     (''sub'', \<lparr>routerType = Sequence, Steps = [service_step ''Embedding'' ''http://e'' []]\<rparr>)]"

theorem routing_terminates_witness:
  "fst (routeStep 3 (demo_ext (\<lambda>u b. b)) two_node_graph ''root'' ''{}'' ''{}'' demo_state) \<noteq> Unfinished"
proof (rule routing_terminates)
  show "validateGMConnector two_node_graph = None" by code_simp
  have "calls two_node_graph \<subseteq> {(''sub'', ''root'')}"
    by (auto simp: calls_def two_node_graph_def node_at_def gm_simps example_step_def zero_router_def zero_step_def
        zero_executor_def zero_target_def service_step_def split: if_splits)
  moreover have "acyclic {(''sub'', ''root'')}" 
    by (rule wf_acyclic, rule wf_subset [of "measure (\<lambda>n. if n = ''sub'' then 0 else 1)"]) auto
  ultimately show "acyclic (calls two_node_graph)" by (rule acyclic_subset [rotated])
qed (simp_all add: two_node_graph_def)

text \<open>The answer does not depend on the call depth: a run that finished gives the same answer and the same
  state with any larger depth.\<close>

theorem depth_irrelevant:
  assumes "fst (routeStep depth E g n ii inp s) \<noteq> Unfinished" "depth \<le> depth'"
  shows "routeStep depth' E g n ii inp s = routeStep depth E g n ii inp s"
  using assms by (rule routeStep_mono)

theorem depth_irrelevant_witness:
  "routeStep 9 (demo_ext (\<lambda>u b. b)) two_node_graph ''sub'' ''{}'' ''{}'' demo_state =
   routeStep 1 (demo_ext (\<lambda>u b. b)) two_node_graph ''sub'' ''{}'' ''{}'' demo_state"
  by (rule depth_irrelevant) (code_simp, simp)

text \<open>C28: the webhook admits graphs on which routing never ends: with a step of the node \<open>root\<close> that runs
  \<open>root\<close>, no call depth is enough.\<close>

theorem admitted_graph_diverges:
  "\<exists>g. validateGMConnector g = None \<and> (\<forall>depth (E :: 'w ext) s. fst (routeStep depth E g ''root'' ''{}'' ''{}'' s) = Unfinished)"
proof (intro exI conjI allI)
  let ?st = "example_step ''Llm'' ''root'' []"
  let ?g = "example_graph [(''root'', \<lparr>routerType = Sequence, Steps = [?st]\<rparr>)]"
  show "validateGMConnector ?g = None" by code_simp
  show "fst (routeStep depth E ?g ''root'' ''{}'' ''{}'' s) = Unfinished" for depth and E :: "'w ext" and s
  proof (rule self_call_diverges [where st = ?st and sts = "[]"])
    show "init_req_data ''{}'' \<noteq> None" by code_simp
  qed (simp_all add: gm_simps example_step_def zero_defs)
qed

text \<open>C4: whatever happens, a run only contacts the services of steps in nodes reachable from the start, and it
  only appends to the log of requests; a sequence or a switch never calls a downstream service.\<close>

theorem only_reachable_services_called:
  "\<exists>new. rs_sent (snd (routeStep depth E g n ii inp s)) = rs_sent s @ new \<and> hr_url ` set new \<subseteq> reach_urls g n"
  using routeStep_sent [of g n s depth E ii inp] by (simp add: sent_within_def)

text \<open>A routing error always comes with no body and status 500.\<close>

theorem routing_error_shape:
  assumes "routeStep depth E g n ii inp s = (Ret (b, c, Some e), s')"
  shows "b = None \<and> c = 500"
  using routeStep_err_shape [of depth E g n ii inp s] assms by simp

theorem routing_error_shape_witness:
  "\<exists>b c e s'. routeStep 1 (demo_ext (\<lambda>u b. b)) (example_graph [(''root'', \<lparr>routerType = ''Loop'', Steps = []\<rparr>)]) ''root'' [] [] demo_state
     = (Ret (b, c, Some e), s') \<and> b = None \<and> c = 500"
proof -
  let ?g = "example_graph [(''root'', \<lparr>routerType = ''Loop'', Steps = []\<rparr>)]"
  have "routeStep 1 (demo_ext (\<lambda>u b. b)) ?g ''root'' [] [] demo_state = (Ret (None, 500, Some ''invalid route type: Loop''), demo_state)"
    by (simp add: node_at_def gm_simps)
  from this routing_error_shape [OF this] show ?thesis by blast
qed

text \<open>A hard dependency that fails ends a sequence: the steps after it have no effect on the answer, on
  what is sent or on any other state.\<close>

theorem hard_failure_ends_sequence:
  assumes "Dependency st = Hard" "\<not> step_downstream st"
    and "\<And>req s. \<exists>b c s'. exec st req s = (Ret (b, c, None), s') \<and> \<not> isSuccessFul c"
  shows "handleSequencePipeline exec E \<lparr>routerType = Sequence, Steps = pre @ st # post\<rparr> ii inp s =
    handleSequencePipeline exec E \<lparr>routerType = Sequence, Steps = pre @ [st]\<rparr> ii inp s"
proof -
  have "sequence_loop exec E inp d 0 (pre @ st # post) None [] 0 s = sequence_loop exec E inp d 0 (pre @ [st]) None [] 0 s" for d
    using assms by (rule hard_failure_stops)
  then show ?thesis by (simp add: handleSequencePipeline_def split: option.split)
qed

definition failing_exec :: "unit exec_fun" where
  "failing_exec st req s = (Ret (Some (http_body [''down'']), 503, None), s)"

theorem hard_failure_ends_sequence_witness:
  "handleSequencePipeline failing_exec (demo_ext (\<lambda>u b. b))
     \<lparr>routerType = Sequence, Steps = [(service_step ''Llm'' ''u'' [])\<lparr>Dependency := Hard\<rparr>, service_step ''Tgi'' ''v'' []]\<rparr> ''{}'' ''{}'' demo_state =
   (Ret (Some (http_body [''down'']), 503, None), demo_state)"
proof -
  let ?st = "(service_step ''Llm'' ''u'' [])\<lparr>Dependency := Hard\<rparr>"
  have "handleSequencePipeline failing_exec (demo_ext (\<lambda>u b. b)) \<lparr>routerType = Sequence, Steps = [] @ ?st # [service_step ''Tgi'' ''v'' []]\<rparr> ''{}'' ''{}'' demo_state =
    handleSequencePipeline failing_exec (demo_ext (\<lambda>u b. b)) \<lparr>routerType = Sequence, Steps = [] @ [?st]\<rparr> ''{}'' ''{}'' demo_state"
    by (rule hard_failure_ends_sequence) (auto simp: failing_exec_def isSuccessFul_def service_step_def zero_defs)
  also have "\<dots> = (Ret (Some (http_body [''down'']), 503, None), demo_state)" by code_simp
  finally show ?thesis by simp
qed

text \<open>One failed call inside an ensemble of services ends the process: whatever the other services
  answer, the goroutine of that step closes a nil body.\<close>

theorem ensemble_call_error_panics:
  assumes "fair_spawn E" "st \<in> set steps" "\<forall>st \<in> set steps. step_node st = []"
    and "\<And>s. \<exists>c e s'. callService E st (getServiceURLByStepTarget st (graph_ns g)) inp s = (Ret (None, c, Some e), s')"
    and "node_at (graph_nodes g) n = \<lparr>routerType = Ensemble, Steps = steps\<rparr>"
  shows "fst (routeStep (Suc k) E g n ii inp s) = Panic"
proof -
  have "\<exists>c e s'. executeStep (routeStep k E g) E g ii st inp s = (Ret (None, c, e), s')" for s
    using assms(2-4) by (simp add: executeStep_def) blast
  from ensemble_panics [OF assms(1) _ _ this, of "\<lparr>routerType = Ensemble, Steps = steps\<rparr>" s] assms(2,3,5)
  show ?thesis by simp
qed

theorem ensemble_call_error_panics_witness:
  "fst (routeStep 1 refusing_ext (example_graph [(''root'', \<lparr>routerType = Ensemble, Steps = [service_step ''Llm'' ''u'' []]\<rparr>)])
     ''root'' ''{}'' ''{}'' demo_state) = Panic"
  unfolding One_nat_def
proof (rule ensemble_call_error_panics [where st = "service_step ''Llm'' ''u'' []"])
  show "\<exists>c e s'. callService refusing_ext (service_step ''Llm'' ''u'' [])
      (getServiceURLByStepTarget (service_step ''Llm'' ''u'' []) (graph_ns (example_graph [(''root'', \<lparr>routerType = Ensemble, Steps = [service_step ''Llm'' ''u'' []]\<rparr>)]))) ''{}'' s =
      (Ret (None, c, Some e), s')" for s
    by (simp add: callService_def refusing_ext_def demo_ext_def service_step_def zero_defs)
qed (simp_all add: node_at_def gm_simps)

text \<open>Parameters of the original request override the fields of an intermediate response, and only those:
  every other field is kept.\<close>

theorem merged_request_overlay:
  assumes "gm_get d Parameters = Some (JObj pm)" "gm_wf pm" "unmarshal_map resp = Some (Some m)"
  shows "\<exists>m'. mergeRequests resp d = Ret (marshal_map m') \<and>
    (\<forall>k. gm_get m' k = (case gm_get pm k of None \<Rightarrow> gm_get m k | Some v \<Rightarrow> Some v))"
  using assms foldl_set_get [OF assms(2)] by (auto simp: mergeRequests_def)

theorem merged_request_overlay_witness:
  "\<exists>m'. mergeRequests (marshal_map [(''k'', JStr ''a''), (''q'', JStr ''b'')]) [(Parameters, JObj [(''k'', JBool True)])] = Ret (marshal_map m') \<and>
    gm_get m' ''k'' = Some (JBool True) \<and> gm_get m' ''q'' = Some (JStr ''b'')"
proof -
  have "unmarshal_map (marshal_map [(''k'', JStr ''a''), (''q'', JStr ''b'')]) = Some (Some [(''k'', JStr ''a''), (''q'', JStr ''b'')])"
    by code_simp
  from merged_request_overlay [of "[(Parameters, JObj [(''k'', JBool True)])]", OF _ _ this]
  show ?thesis by (auto simp: gm_simps gm_wf_def gm_keys_def)
qed

end
