(* ===== verification/Router_Handlers.thy ===== *)
theory Router_Handlers
  imports Router_Correct
begin

text \<open>
  The HTTP front of the router (\<open>cmd/router/main.go\<close>): \<open>mcGraphHandler\<close> runs the graph on a request and
  streams the answer, \<open>mcDataHandler\<close> forwards an upload to the data preparation service,
  \<open>mcUiHandler\<close> serves the UI or turns a chat payload into a graph request, \<open>mcAssetHandler\<close> forwards
  to the UI, \<open>initializeRoutes\<close> dispatches on the path.

  \<^item> \<open>'w hext\<close> adds to \<open>'w ext\<close> the transport of the upload, the reverse proxy and the random boundary
    of \<open>mime/multipart\<close>. \<open>mcGraph\<close> is an argument.
  \<^item> \<open>timeout\<close> says when the context of a request ends: \<open>None\<close> after the work is done, \<open>Some k\<close> after
    \<open>k\<close> chunks of the answer were relayed. The writer is then the one the client sees when the handler
    returns, while the state is the one the goroutine, which is not cancelled, leaves.
  \<^item> \<open>Panic\<close> in the goroutine of \<open>mcGraphHandler\<close> ends the process, in the other handlers the connection.
\<close>

section \<open>Requests\<close>

record file_header =
  fh_Filename :: string
  fh_content :: "go_error + stream"

record form =
  form_Value :: "(string, string list) gomap"
  form_File :: "(string, file_header list) gomap"

text \<open>\<open>rq_form\<close> is what \<open>ParseMultipartForm\<close> finds in the body.\<close>

record srv_request =
  rq_method :: string
  rq_url :: string
  rq_path :: string
  rq_header :: "(string, string list) gomap"
  rq_body :: stream
  rq_form :: "go_error + form"

record data_request =
  dr_method :: string
  dr_url :: string
  dr_header :: "(string, string list) gomap"
  dr_body :: bytes

record 'w hext =
  rt :: "'w ext"
  data_do :: "data_request \<Rightarrow> 'w \<Rightarrow> (go_error + (int \<times> (string, string list) gomap \<times> stream)) \<times> 'w"
  proxy_serve :: "string \<Rightarrow> srv_request \<Rightarrow> writer \<Rightarrow> 'w \<Rightarrow> writer \<times> 'w"
  boundary :: string

text \<open>\<open>Header.Get\<close>: the first value under the canonical form of the key.\<close>

definition to_upper :: "char \<Rightarrow> char" where
  "to_upper c = (let n = ord_of c in if 97 \<le> n \<and> n \<le> 122 then char_of (n - 32) else c)"

definition to_lower :: "char \<Rightarrow> char" where
  "to_lower c = (let n = ord_of c in if 65 \<le> n \<and> n \<le> 90 then char_of (n + 32) else c)"

fun canon_go :: "bool \<Rightarrow> string \<Rightarrow> string" where
  "canon_go up [] = []"
| "canon_go up (c # cs) = (if up then to_upper c else to_lower c) # canon_go (c = CHR ''-'') cs"

definition header_get :: "(string, string list) gomap \<Rightarrow> string \<Rightarrow> string" where
  "header_get h k = (case gm_get h (canon_go True k) of Some (v # _) \<Rightarrow> v | _ \<Rightarrow> [])"

section \<open>Relaying an answer\<close>

definition BufferSize :: nat where "BufferSize = 1024"

text \<open>One iteration of the copy loop: \<open>Inr\<close> when it ends.\<close>

definition relay_step :: "stream \<Rightarrow> writer \<Rightarrow> (stream \<times> writer) + writer" where
  "relay_step b w =
     (case stream_read BufferSize b of
        (RErr e, b') \<Rightarrow> Inr (http_Error w ''failed to read from response body'' 500)
      | (REOF, b') \<Rightarrow> Inr w
      | (RData d, b') \<Rightarrow>
          if d = [] then Inr w
          else case w_write d w of
            (False, w') \<Rightarrow> Inr w'
          | (True, w') \<Rightarrow> if w_flusher w' then Inl (b', w') else Inr w')"

definition bytes_left :: "stream \<Rightarrow> nat" where
  "bytes_left b = sum_list (map (\<lambda>p. Suc (length p)) (sr_packets b))"

lemma relay_step_decreases: "relay_step b w = Inl (b', w') \<Longrightarrow> bytes_left b' < bytes_left b"
  by (auto simp: relay_step_def stream_read_def bytes_left_def BufferSize_def
      split: if_splits list.splits option.splits prod.splits read_res.splits bool.splits)

function relay :: "stream \<Rightarrow> writer \<Rightarrow> writer" where
  "relay b w = (case relay_step b w of Inr w' \<Rightarrow> w' | Inl bw \<Rightarrow> relay (fst bw) (snd bw))"
  by pat_completeness auto
termination
  by (relation "measure (\<lambda>(b, w). bytes_left b)") (auto intro: relay_step_decreases)

declare relay.simps [simp del]

text \<open>The writer after at most \<open>k\<close> iterations.\<close>

fun relay_for :: "nat \<Rightarrow> stream \<Rightarrow> writer \<Rightarrow> writer" where
  "relay_for 0 b w = w"
| "relay_for (Suc k) b w = (case relay_step b w of Inr w' \<Rightarrow> w' | Inl (b', w') \<Rightarrow> relay_for k b' w')"

section \<open>The graph handler\<close>

definition defaultNodeName :: string where "defaultNodeName = ''root''"

text \<open>The goroutine; \<open>copy\<close> is the loop that relays the answer.\<close>

definition graph_goroutine :: "(stream \<Rightarrow> writer \<Rightarrow> writer) \<Rightarrow> nat \<Rightarrow> 'w ext \<Rightarrow> GMConnector \<Rightarrow> stream \<Rightarrow> writer \<Rightarrow>
    'w rs \<Rightarrow> writer go \<times> 'w rs" where
  "graph_goroutine copy depth E mcGraph body w s =
     (case readAll body of
        (_, Some e, _) \<Rightarrow> (Ret (http_Error w ''failed to read request body'' 400), s)
      | (inputBytes, None, _) \<Rightarrow>
          (case routeStep depth E mcGraph defaultNodeName inputBytes inputBytes s of
             (Ret (responseBody, statusCode, err), s') \<Rightarrow>
               (case err of
                  Some e \<Rightarrow>
                    (case WriteHeader statusCode (w_set_header ''Content-Type'' ''application/json'' w) of
                       Ret w' \<Rightarrow> (Ret (snd (w_write (prepareErrorResponse e ''Failed to process request'') w')), s')
                     | Panic \<Rightarrow> (Panic, s')
                     | Unfinished \<Rightarrow> (Unfinished, s'))
                | None \<Rightarrow>
                    (case responseBody of
                       None \<Rightarrow> (Panic, s')
                     | Some b \<Rightarrow> (Ret (copy b (w_set_header ''Content-Type'' ''application/json'' w)), s')))
           | (Panic, s') \<Rightarrow> (Panic, s')
           | (Unfinished, s') \<Rightarrow> (Unfinished, s')))"

text \<open>With \<open>Some 0\<close> the context ended before the answer was there.\<close>

definition mcGraphHandler :: "nat \<Rightarrow> 'w ext \<Rightarrow> GMConnector \<Rightarrow> nat option \<Rightarrow> stream \<Rightarrow> writer \<Rightarrow>
    'w rs \<Rightarrow> writer go \<times> 'w rs" where
  "mcGraphHandler depth E mcGraph timeout body w s =
     (case timeout of
        None \<Rightarrow> graph_goroutine relay depth E mcGraph body w s
      | Some 0 \<Rightarrow> (Ret (http_Error w ''request timed out'' 504), snd (graph_goroutine relay depth E mcGraph body w s))
      | Some (Suc k) \<Rightarrow>
          (case graph_goroutine (relay_for (Suc k)) depth E mcGraph body w s of
             (Ret w', s') \<Rightarrow> (Ret (http_Error w' ''request timed out'' 504), s')
           | (Panic, s') \<Rightarrow> (Panic, s')
           | (Unfinished, s') \<Rightarrow> (Unfinished, s')))"

section \<open>The data preparation handler\<close>

text \<open>\<open>multipart.Writer\<close> on a buffer: the bytes written and whether a part was started. Writing to a
  buffer cannot fail, so the error branches of \<open>WriteField\<close>, \<open>CreateFormFile\<close> and \<open>Close\<close> in the
  handler are never taken.\<close>

definition crlf :: string where "crlf = [CHR 0x0D, CHR 0x0A]"

definition escapeQuotes :: "string \<Rightarrow> string" where
  "escapeQuotes s = concat (map (\<lambda>c. if c = quote \<or> c = backslash then [backslash, c] else [c]) s)"

definition mp_part :: "string \<Rightarrow> string list \<Rightarrow> bytes \<Rightarrow> bytes \<Rightarrow> bytes" where
  "mp_part bnd hdrs content buf =
     buf @ (if buf = [] then [] else crlf) @ ''--'' @ bnd @ crlf @ concat (map (\<lambda>h. h @ crlf) hdrs) @ crlf @ content"

definition WriteField :: "string \<Rightarrow> string \<Rightarrow> string \<Rightarrow> bytes \<Rightarrow> bytes" where
  "WriteField bnd key value buf =
     mp_part bnd [''Content-Disposition: form-data; name='' @ [quote] @ escapeQuotes key @ [quote]] value buf"

definition CreateFormFile :: "string \<Rightarrow> string \<Rightarrow> string \<Rightarrow> bytes \<Rightarrow> bytes" where
  "CreateFormFile bnd key filename buf =
     mp_part bnd
       [''Content-Disposition: form-data; name='' @ [quote] @ escapeQuotes key @ [quote] @
          ''; filename='' @ [quote] @ escapeQuotes filename @ [quote],
        ''Content-Type: application/octet-stream''] [] buf"

definition mp_close :: "string \<Rightarrow> bytes \<Rightarrow> bytes" where
  "mp_close bnd buf = buf @ crlf @ ''--'' @ bnd @ ''--'' @ crlf"

definition FormDataContentType :: "string \<Rightarrow> string" where
  "FormDataContentType bnd = ''multipart/form-data; boundary='' @ bnd"

definition copy_fields :: "string \<Rightarrow> (string, string list) gomap \<Rightarrow> bytes \<Rightarrow> bytes" where
  "copy_fields bnd vals buf =
     foldl (\<lambda>buf kv. foldl (\<lambda>buf v. WriteField bnd (fst kv) v buf) buf (snd kv)) buf vals"

text \<open>The loop over the files: the message of the error it stops at, or the buffer.\<close>

fun copy_files :: "string \<Rightarrow> string \<Rightarrow> file_header list \<Rightarrow> bytes \<Rightarrow> string + bytes" where
  "copy_files bnd key [] buf = Inr buf"
| "copy_files bnd key (fh # fhs) buf =
     (case fh_content fh of
        Inl err \<Rightarrow> Inl ''Failed to open file''
      | Inr file \<Rightarrow>
          (let buf = CreateFormFile bnd key (fh_Filename fh) buf in
           case readAll file of
             (d, Some err, _) \<Rightarrow> Inl ''Failed to copy file''
           | (d, None, _) \<Rightarrow> copy_files bnd key fhs (buf @ d)))"

fun copy_all_files :: "string \<Rightarrow> (string, file_header list) gomap \<Rightarrow> bytes \<Rightarrow> string + bytes" where
  "copy_all_files bnd [] buf = Inr buf"
| "copy_all_files bnd ((key, fhs) # rest) buf =
     (case copy_files bnd key fhs buf of
        Inl e \<Rightarrow> Inl e
      | Inr buf \<Rightarrow> copy_all_files bnd rest buf)"

definition add_headers :: "(string, string list) gomap \<Rightarrow> (string, string list) gomap \<Rightarrow> (string, string list) gomap" where
  "add_headers hs h = foldl (\<lambda>h kv. foldl (\<lambda>h v. header_add (fst kv) v h) h (snd kv)) h hs"

text \<open>\<open>io.Copy(w, body)\<close>.\<close>

fun copy_packets :: "bytes list \<Rightarrow> writer \<Rightarrow> writer" where
  "copy_packets [] w = w"
| "copy_packets (p # ps) w =
     (case w_write p w of (True, w') \<Rightarrow> copy_packets ps w' | (False, w') \<Rightarrow> w')"

definition copy_body :: "stream \<Rightarrow> writer \<Rightarrow> writer" where
  "copy_body b w = (if sr_unreadable b then w else copy_packets (sr_packets b) w)"

definition DataPrep :: string where "DataPrep = ''DataPrep''"

definition selects_step :: "string \<Rightarrow> Step \<Rightarrow> bool" where
  "selects_step serviceName step =
     (StepName step = DataPrep \<and> \<not> (serviceName \<noteq> [] \<and> serviceName \<noteq> step_service step))"

text \<open>The body of the loop for a selected step: \<open>Inl\<close> when the handler returns.\<close>

definition forward_data :: "'w hext \<Rightarrow> GMConnector \<Rightarrow> srv_request \<Rightarrow> Step \<Rightarrow> writer \<Rightarrow> 'w rs \<Rightarrow> (writer + writer) go \<times> 'w rs" where
  "forward_data H mcGraph r step w s =
     (let serviceURL = getServiceURLByStepTarget step (graph_ns mcGraph) in
      case rq_form r of
        Inl err \<Rightarrow> (Ret (Inl (http_Error w ''Failed to parse multipart form'' 400)), s)
      | Inr frm \<Rightarrow>
          (case copy_all_files (boundary H) (form_File frm) (copy_fields (boundary H) (form_Value frm) []) of
             Inl msg \<Rightarrow> (Ret (Inl (http_Error w msg 500)), s)
           | Inr buf \<Rightarrow>
               (case url_parse_err (rt H) serviceURL of
                  Some err \<Rightarrow> (Ret (Inl (http_Error w ''Failed to create new request'' 500)), s)
                | None \<Rightarrow>
                    (let req = \<lparr>dr_method = rq_method r, dr_url = serviceURL,
                           dr_header = gm_set ''Content-Type'' [FormDataContentType (boundary H)] (add_headers (rq_header r) []),
                           dr_body = mp_close (boundary H) buf\<rparr>;
                         (res, world) = data_do H req (rs_world s);
                         s = s\<lparr>rs_world := world\<rparr>
                     in case res of
                          Inl err \<Rightarrow> (Ret (Inl (http_Error w ''Failed to send request to backend'' 500)), s)
                        | Inr (code, header, body) \<Rightarrow>
                            (let w = (if w_status w = None then w\<lparr>w_header := add_headers header (w_header w)\<rparr> else w) in
                             case WriteHeader code w of
                               Ret w \<Rightarrow> (Ret (Inr (copy_body body w)), s)
                             | Panic \<Rightarrow> (Panic, s)
                             | Unfinished \<Rightarrow> (Unfinished, s))))))"

definition no_data_message :: string where
  "no_data_message = [CHR 0x0A] @ '' Message: None dataprep endpoint is available! '' @ [CHR 0x0A]"

fun data_loop :: "'w hext \<Rightarrow> GMConnector \<Rightarrow> srv_request \<Rightarrow> string \<Rightarrow> Step list \<Rightarrow> bool \<Rightarrow> writer \<Rightarrow> 'w rs \<Rightarrow> writer go \<times> 'w rs" where
  "data_loop H mcGraph r serviceName [] isDataHandled w s =
     (if \<not> isDataHandled then
        (case WriteHeader 404 (w_set_header ''Content-Type'' ''application/json'' w) of
           Ret w \<Rightarrow> (Ret (snd (w_write no_data_message w)), s)
         | Panic \<Rightarrow> (Panic, s)
         | Unfinished \<Rightarrow> (Unfinished, s))
      else (Ret w, s))"
| "data_loop H mcGraph r serviceName (step # steps) isDataHandled w s =
     (if selects_step serviceName step then
        (case forward_data H mcGraph r step w s of
           (Ret (Inl w'), s') \<Rightarrow> (Ret w', s')
         | (Ret (Inr w'), s') \<Rightarrow> data_loop H mcGraph r serviceName steps True w' s'
         | (Panic, s') \<Rightarrow> (Panic, s')
         | (Unfinished, s') \<Rightarrow> (Unfinished, s'))
      else data_loop H mcGraph r serviceName steps isDataHandled w s)"

definition mcDataHandler :: "'w hext \<Rightarrow> GMConnector \<Rightarrow> srv_request \<Rightarrow> writer \<Rightarrow> 'w rs \<Rightarrow> writer go \<times> 'w rs" where
  "mcDataHandler H mcGraph r w s =
     (let serviceName = header_get (rq_header r) ''SERVICE_NAME'';
          defaultNode = node_at (graph_nodes mcGraph) defaultNodeName
      in data_loop H mcGraph r serviceName (Steps defaultNode) False w s)"

section \<open>The UI handler\<close>

text \<open>\<open>fmt.Sprintf("%v", x)\<close> of a decoded JSON value. A float prints as with \<open>%g\<close>: with an
  exponent, of at least two digits, below \<open>1e-4\<close> and from \<open>1e6\<close> on.\<close>

definition fmt_num :: "gnum \<Rightarrow> string" where
  "fmt_num x = (case x of GNum neg m e \<Rightarrow>
     let ds = string_of_nat m; nd = int (length ds); dp = nd + e; ex = string_of_nat (nat \<bar>dp - 1\<bar>);
         body =
           (if m = 0 then ''0''
            else if dp - 1 < -4 \<or> 6 \<le> dp - 1 then
              [hd ds] @ (if tl ds = [] then [] else CHR ''.'' # tl ds) @ ''e'' @
              (if dp - 1 < 0 then ''-'' else ''+'') @ (if length ex < 2 then CHR ''0'' # ex else ex)
            else if dp \<le> 0 then ''0.'' @ replicate (nat (- dp)) CHR ''0'' @ ds
            else if nd \<le> dp then ds @ replicate (nat (dp - nd)) CHR ''0''
            else take (nat dp) ds @ ''.'' @ drop (nat dp) ds)
     in (if neg then CHR ''-'' # body else body))"

fun fmt_v :: "json \<Rightarrow> string" where
  "fmt_v JNull = ''<nil>''"
| "fmt_v (JBool b) = (if b then ''true'' else ''false'')"
| "fmt_v (JNum x) = fmt_num x"
| "fmt_v (JStr s) = s"
| "fmt_v (JArr vs) = ''['' @ str_join '' '' (map fmt_v vs) @ '']''"
| "fmt_v (JObj m) =
     ''map['' @ str_join '' '' (map (\<lambda>kv. fst kv @ '':'' @ snd kv)
               (sort_key fst (map (\<lambda>kv. (fst kv, fmt_v (snd kv))) m))) @ '']''"

definition UI :: string where "UI = ''UI''"
definition LLMKeyword :: string where "LLMKeyword = ''query''"
definition EmbeddingKeyword :: string where "EmbeddingKeyword = ''text''"

definition defaultLlmParams :: "(string, json) gomap" where
  "defaultLlmParams =
     [(''max_tokens'', JNum (GNum False 1024 0)), (''top_k'', JNum (GNum False 1 1)),
      (''top_p'', JNum (GNum False 95 (-2))), (''temperature'', JNum (GNum False 1 (-2))),
      (''repetition_penalty'', JNum (GNum False 103 (-2))), (''streaming'', JBool True)]"

text \<open>The loop that looks for the first hop: the last step when all are downstream services.\<close>

fun find_nextHop :: "Step option \<Rightarrow> Step list \<Rightarrow> Step option" where
  "find_nextHop nextHop [] = nextHop"
| "find_nextHop nextHop (st # sts) = (if step_downstream st then find_nextHop (Some st) sts else Some st)"

definition input_key :: "Step \<Rightarrow> string" where
  "input_key nextHop =
     (if StepName nextHop = ''Embedding'' then EmbeddingKeyword
      else if StepName nextHop = ''Llm'' then LLMKeyword else LLMKeyword)"

text \<open>\<open>fmt.Sprintf("%v", parsedData[key])\<close>: a missing key reads as nil.\<close>

definition fmt_entry :: "(string, json) gomap \<Rightarrow> string \<Rightarrow> string" where
  "fmt_entry m key = fmt_v (case gm_get m key of None \<Rightarrow> JNull | Some v \<Rightarrow> v)"

definition add_message :: "string \<Rightarrow> json \<Rightarrow> (string, json) gomap \<Rightarrow> (string, json) gomap" where
  "add_message key item parsedData =
     (case item of
        JObj m \<Rightarrow>
          (case gm_get m ''role'' of
             None \<Rightarrow> parsedData
           | Some v \<Rightarrow>
               (let strRole = fmt_v v;
                    content = (case gm_get m ''content'' of None \<Rightarrow> [] | Some c \<Rightarrow> fmt_v c)
                in if strRole = ''system'' then gm_set key (JStr (content @ ''/n'')) parsedData
                   else gm_set key (JStr (fmt_entry parsedData key @ strRole @ '':'' @ content @ ''/n'')) parsedData))
      | _ \<Rightarrow> parsedData)"

text \<open>The payload for the pipeline. A \<open>messages\<close> value that is neither a string nor an array ends in a
  call to \<open>Error\<close> on a nil error.\<close>

definition parse_payload :: "string \<Rightarrow> (string, json) gomap \<Rightarrow> (string, json) gomap go" where
  "parse_payload key dat =
     (let msgs = (case gm_get dat ''messages'' of
            None \<Rightarrow> Ret []
          | Some (JStr ms) \<Rightarrow> Ret (gm_set key (JStr ms) [])
          | Some (JArr ms) \<Rightarrow> Ret (foldl (\<lambda>m item. add_message key item m) [] ms)
          | Some _ \<Rightarrow> Panic)
      in case msgs of
           Ret parsedData \<Rightarrow>
             (let parsedData = (if key = LLMKeyword
                    then foldl (\<lambda>m kv. gm_set (fst kv) (snd kv) m) parsedData defaultLlmParams else parsedData)
              in Ret (foldl (\<lambda>m kv. if fst kv = ''messages'' then m else gm_set (fst kv) (snd kv) m) parsedData dat))
         | Panic \<Rightarrow> Panic
         | Unfinished \<Rightarrow> Unfinished)"

text \<open>The work for one UI step: \<open>Inl\<close> when the handler returns. The body of the request is drained.\<close>

definition serve_ui :: "nat \<Rightarrow> 'w hext \<Rightarrow> GMConnector \<Rightarrow> nat option \<Rightarrow> srv_request \<Rightarrow> Step \<Rightarrow> writer \<Rightarrow> 'w rs \<Rightarrow>
    (writer + (writer \<times> srv_request)) go \<times> 'w rs" where
  "serve_ui depth H mcGraph timeout req step w s =
     (case readAll (rq_body req) of
        (_, Some err, _) \<Rightarrow> (Ret (Inl (http_Error w err 500)), s)
      | (body, None, drained) \<Rightarrow>
          (let req = req\<lparr>rq_body := drained\<rparr> in
           if length body = 0 then
             (let serviceURL = getServiceURLByStepTarget step (graph_ns mcGraph) in
              case url_parse_err (rt H) serviceURL of
                Some err \<Rightarrow> (Ret (Inl (http_Error w err 500)), s)
              | None \<Rightarrow>
                  (let (w, world) = proxy_serve H serviceURL req w (rs_world s)
                   in (Ret (Inr (w, req)), s\<lparr>rs_world := world\<rparr>)))
           else case find_nextHop None (Steps (node_at (graph_nodes mcGraph) defaultNodeName)) of
             None \<Rightarrow> (Panic, s)
           | Some nextHop \<Rightarrow>
               (case init_req_data body of
                  None \<Rightarrow> (Ret (Inl (http_Error w (json_error (rt H) body) 500)), s)
                | Some dat \<Rightarrow>
                    (case parse_payload (input_key nextHop) dat of
                       Ret parsedData \<Rightarrow>
                         (if url_parse_err (rt H) (rq_url req) \<noteq> None then (Panic, s)
                          else case mcGraphHandler depth (rt H) mcGraph timeout (NewReadCloser (marshal_map parsedData)) w s of
                            (Ret w, s) \<Rightarrow> (Ret (Inr (w, req)), s)
                          | (Panic, s) \<Rightarrow> (Panic, s)
                          | (Unfinished, s) \<Rightarrow> (Unfinished, s))
                     | Panic \<Rightarrow> (Panic, s)
                     | Unfinished \<Rightarrow> (Unfinished, s)))))"

fun ui_loop :: "nat \<Rightarrow> 'w hext \<Rightarrow> GMConnector \<Rightarrow> nat option \<Rightarrow> srv_request \<Rightarrow> Step list \<Rightarrow> writer \<Rightarrow> 'w rs \<Rightarrow> writer go \<times> 'w rs" where
  "ui_loop depth H mcGraph timeout req [] w s = (Ret w, s)"
| "ui_loop depth H mcGraph timeout req (step # steps) w s =
     (if StepName step = UI then
        (case serve_ui depth H mcGraph timeout req step w s of
           (Ret (Inl w), s) \<Rightarrow> (Ret w, s)
         | (Ret (Inr (w, req)), s) \<Rightarrow> ui_loop depth H mcGraph timeout req steps w s
         | (Panic, s) \<Rightarrow> (Panic, s)
         | (Unfinished, s) \<Rightarrow> (Unfinished, s))
      else ui_loop depth H mcGraph timeout req steps w s)"

definition mcUiHandler :: "nat \<Rightarrow> 'w hext \<Rightarrow> GMConnector \<Rightarrow> nat option \<Rightarrow> srv_request \<Rightarrow> writer \<Rightarrow> 'w rs \<Rightarrow> writer go \<times> 'w rs" where
  "mcUiHandler depth H mcGraph timeout req w s =
     ui_loop depth H mcGraph timeout req (Steps (node_at (graph_nodes mcGraph) defaultNodeName)) w s"

section \<open>Assets and dispatch\<close>

fun asset_loop :: "'w hext \<Rightarrow> GMConnector \<Rightarrow> srv_request \<Rightarrow> Step list \<Rightarrow> writer \<Rightarrow> 'w rs \<Rightarrow> writer \<times> 'w rs" where
  "asset_loop H mcGraph req [] w s = (w, s)"
| "asset_loop H mcGraph req (step # steps) w s =
     (if StepName step = UI then
        (let serviceURL = getServiceURLByStepTarget step (graph_ns mcGraph) in
         case url_parse_err (rt H) serviceURL of
           Some err \<Rightarrow> (http_Error w err 500, s)
         | None \<Rightarrow> (let (w, world) = proxy_serve H serviceURL req w (rs_world s) in (w, s\<lparr>rs_world := world\<rparr>)))
      else asset_loop H mcGraph req steps w s)"

definition mcAssetHandler :: "'w hext \<Rightarrow> GMConnector \<Rightarrow> srv_request \<Rightarrow> writer \<Rightarrow> 'w rs \<Rightarrow> writer \<times> 'w rs" where
  "mcAssetHandler H mcGraph req w s =
     asset_loop H mcGraph req (Steps (node_at (graph_nodes mcGraph) defaultNodeName)) w s"

datatype handler = GraphHandler | DataHandler | AssetHandler | UiHandler | RedirectTo string

text \<open>\<open>mux.HandleFunc\<close>: the patterns with their handlers.\<close>

definition initializeRoutes :: "(string \<times> handler) list" where
  "initializeRoutes = [(''/'', GraphHandler), (''/dataprep'', DataHandler), (''/assets/'', AssetHandler), (''/ui'', UiHandler)]"

text \<open>\<open>http.ServeMux\<close> on a clean path: an exact pattern, else a pattern that ends in a slash and is
  reached by adding one, else the longest pattern that ends in a slash and is a prefix.\<close>

definition subtree :: "string \<Rightarrow> bool" where
  "subtree pat = (pat \<noteq> [] \<and> last pat = CHR ''/'')"

definition mux_match :: "(string \<times> handler) list \<Rightarrow> string \<Rightarrow> handler option" where
  "mux_match mux path =
     (case gm_get mux path of
        Some h \<Rightarrow> Some h
      | None \<Rightarrow>
          if gm_has mux (path @ ''/'') then Some (RedirectTo (path @ ''/''))
          else case rev (sort_key (\<lambda>ph. length (fst ph)) (filter (\<lambda>ph. subtree (fst ph) \<and> prefix (fst ph) path) mux)) of
            [] \<Rightarrow> None
          | ph # _ \<Rightarrow> Some (snd ph))"

section \<open>What the graph handler sends\<close>

lemma relay_step_fresh:
  assumes "stream_fresh b" "w_open w" "w_flusher w"
  shows "relay_step b w = (case sr_packets b of
     [] \<Rightarrow> Inr w
   | p # ps \<Rightarrow> Inl (b\<lparr>sr_packets := (if length p \<le> BufferSize then ps else drop BufferSize p # ps)\<rparr>,
       w\<lparr>w_status := Some (final_status w), w_body := w_body w @ take BufferSize p\<rparr>))"
  using assms
  by (auto simp: relay_step_def stream_read_def stream_fresh_def sr_unreadable_def w_write_open BufferSize_def
      split: list.split)

lemma w_open_update [simp]:
  "w_open (w\<lparr>w_status := Some (final_status w), w_body := x\<rparr>) = w_open w"
  "final_status (w\<lparr>w_status := Some c, w_body := x\<rparr>) = c"
  by (simp_all add: w_open_def final_status_def)

lemma relay_fresh:
  assumes "stream_fresh b" "w_open w" "w_flusher w"
  shows "relay b w = (if sr_packets b = [] then w
    else w\<lparr>w_status := Some (final_status w), w_body := w_body w @ concat (sr_packets b)\<rparr>)"
  using assms
proof (induction b w rule: relay.induct)
  case (1 b w)
  note step = relay_step_fresh [OF "1.prems"]
  show ?case
  proof (cases "sr_packets b")
    case Nil
    with step show ?thesis by (simp add: relay.simps [of b w])
  next
    case (Cons p ps)
    let ?b = "b\<lparr>sr_packets := (if length p \<le> BufferSize then ps else drop BufferSize p # ps)\<rparr>"
    let ?w = "w\<lparr>w_status := Some (final_status w), w_body := w_body w @ take BufferSize p\<rparr>"
    have st: "relay_step b w = Inl (?b, ?w)" using step Cons by simp
    have "relay ?b ?w = (if sr_packets ?b = [] then ?w
        else ?w\<lparr>w_status := Some (final_status ?w), w_body := w_body ?w @ concat (sr_packets ?b)\<rparr>)"
      using "1.IH" [OF st] "1.prems" Cons by (simp add: stream_fresh_def)
    then show ?thesis using st Cons by (simp add: relay.simps [of b w])
  qed
qed

text \<open>However far the relay got, the body so far is a prefix of the answer.\<close>

lemma relay_for_started:
  assumes "stream_fresh b" "w_status w = Some c" "w_open w" "w_flusher w"
  shows "\<exists>d. prefix d (concat (sr_packets b)) \<and> relay_for k b w = w\<lparr>w_body := w_body w @ d\<rparr>"
  using assms
proof (induction k arbitrary: b w)
  case (Suc k)
  have c: "final_status w = c" using Suc.prems(2) by (simp add: final_status_def)
  show ?case
  proof (cases "sr_packets b")
    case Nil
    with relay_step_fresh [of b w] Suc.prems show ?thesis by simp
  next
    case (Cons p ps)
    let ?b = "b\<lparr>sr_packets := (if length p \<le> BufferSize then ps else drop BufferSize p # ps)\<rparr>"
    let ?w = "w\<lparr>w_body := w_body w @ take BufferSize p\<rparr>"
    have w: "?w = w\<lparr>w_status := Some (final_status w), w_body := w_body w @ take BufferSize p\<rparr>"
      using Suc.prems(2) c by simp
    have "stream_fresh ?b" "w_open ?w" using Suc.prems Cons by (auto simp: stream_fresh_def w)
    with Suc.IH [of ?b ?w] Suc.prems obtain d where d: "prefix d (concat (sr_packets ?b))"
      "relay_for k ?b ?w = ?w\<lparr>w_body := w_body ?w @ d\<rparr>" by auto
    have "relay_for (Suc k) b w = relay_for k ?b ?w"
      using relay_step_fresh [of b w] Suc.prems Cons by (simp add: w)
    moreover have "concat (sr_packets b) = take BufferSize p @ concat (sr_packets ?b)"
      using Cons by simp
    ultimately show ?thesis using d by (intro exI [of _ "take BufferSize p @ d"]) simp
  qed
qed (auto intro!: exI [of _ "[]"])

lemma relay_for_first:
  assumes "stream_fresh b" "sr_packets b \<noteq> []" "w_open w" "w_flusher w"
  shows "\<exists>d. prefix d (concat (sr_packets b)) \<and>
    relay_for (Suc k) b w = w\<lparr>w_status := Some (final_status w), w_body := w_body w @ d\<rparr>"
proof -
  obtain p ps where p: "sr_packets b = p # ps" using assms(2) by (auto simp: neq_Nil_conv)
  let ?b = "b\<lparr>sr_packets := (if length p \<le> BufferSize then ps else drop BufferSize p # ps)\<rparr>"
  let ?w = "w\<lparr>w_status := Some (final_status w), w_body := w_body w @ take BufferSize p\<rparr>"
  have "stream_fresh ?b" using assms p by (auto simp: stream_fresh_def)
  with relay_for_started [of ?b ?w "final_status w" k] assms obtain d where
    d: "prefix d (concat (sr_packets ?b))" "relay_for k ?b ?w = ?w\<lparr>w_body := w_body ?w @ d\<rparr>" by auto
  moreover have "relay_for (Suc k) b w = relay_for k ?b ?w"
    using relay_step_fresh [of b w] assms p by simp
  moreover have "concat (sr_packets b) = take BufferSize p @ concat (sr_packets ?b)"
    using p by simp
  ultimately show ?thesis by (intro exI [of _ "take BufferSize p @ d"]) simp
qed

lemma new_writer_simps [simp]:
  "w_open (w_set_header k v new_writer)" "w_flusher new_writer"
  "w_body new_writer = []" "w_status new_writer = None" "w_writes_left new_writer = None"
  "final_status (w_set_header k v new_writer) = 200"
  "gm_get (w_header (w_set_header k v new_writer)) k = Some [v]"
  by (simp_all add: new_writer_def w_open_def final_status_def body_allowed_def w_set_header_def)

text \<open>The answer of a finished run, streamed: the status the pipeline computed is not used.\<close>

lemma graph_handler_relays:
  assumes "readAll body = (inp, None, body')"
    and "routeStep depth E g ''root'' inp inp s = (Ret (Some b, c, None), s')" "stream_fresh b"
  shows "\<exists>w. mcGraphHandler depth E g None body new_writer s = (Ret w, s') \<and> final_status w = 200 \<and>
    w_body w = concat (sr_packets b) \<and> gm_get (w_header w) ''Content-Type'' = Some [''application/json'']"
  using assms
  by (auto simp: mcGraphHandler_def graph_goroutine_def defaultNodeName_def relay_fresh)

lemma graph_handler_error:
  assumes "readAll body = (inp, None, body')"
    and "routeStep depth E g ''root'' inp inp s = (Ret (b, c, Some e), s')"
  shows "\<exists>w. mcGraphHandler depth E g None body new_writer s = (Ret w, s') \<and> final_status w = 500 \<and>
    w_body w = prepareErrorResponse e ''Failed to process request''"
proof -
  have "c = 500" using routeStep_err_shape [of depth E g "''root''" inp inp s] assms(2) by simp
  with assms show ?thesis
    by (auto simp: mcGraphHandler_def graph_goroutine_def defaultNodeName_def WriteHeader_def w_write_def
        body_allowed_def final_status_def)
qed

lemma graph_handler_nil_body:
  assumes "readAll body = (inp, None, body')"
    and "routeStep depth E g ''root'' inp inp s = (Ret (None, c, None), s')"
  shows "mcGraphHandler depth E g None body w s = (Panic, s')"
  using assms by (simp add: mcGraphHandler_def graph_goroutine_def defaultNodeName_def)

lemma graph_handler_unreadable:
  assumes "readAll body = (inp, None, body')"
    and "routeStep depth E g ''root'' inp inp s = (Ret (Some b, c, None), s')" "sr_unreadable b"
  shows "\<exists>w. mcGraphHandler depth E g None body new_writer s = (Ret w, s') \<and> final_status w = 500 \<and>
    w_body w = ''failed to read from response body'' @ [CHR 0x0A]"
proof -
  let ?w = "w_set_header ''Content-Type'' ''application/json'' new_writer"
  have "relay b ?w = http_Error ?w ''failed to read from response body'' 500"
    using assms(3) by (simp add: relay.simps relay_step_def stream_read_def)
  moreover have "body_allowed 500" by (simp add: body_allowed_def)
  ultimately show ?thesis
    using assms(1,2) http_Error_open [of ?w 500]
    by (simp add: mcGraphHandler_def graph_goroutine_def defaultNodeName_def final_status_def)
qed

lemma graph_handler_timeout:
  assumes "readAll body = (inp, None, body')"
    and "routeStep depth E g ''root'' inp inp s = (Ret (Some b, c, None), s')" "stream_fresh b" "sr_packets b \<noteq> []"
  shows "\<exists>w d. mcGraphHandler depth E g (Some (Suc k)) body new_writer s = (Ret w, s') \<and> final_status w = 200 \<and>
    prefix d (concat (sr_packets b)) \<and> w_body w = d @ ''request timed out'' @ [CHR 0x0A]"
proof -
  let ?w = "w_set_header ''Content-Type'' ''application/json'' new_writer"
  obtain d where d: "prefix d (concat (sr_packets b))"
    "relay_for (Suc k) b ?w = ?w\<lparr>w_status := Some 200, w_body := d\<rparr>"
    using relay_for_first [OF assms(3,4), of ?w k] by auto
  have "http_Error (?w\<lparr>w_status := Some 200, w_body := d\<rparr>) ''request timed out'' 504 =
      ?w\<lparr>w_status := Some 200, w_body := d @ ''request timed out'' @ [CHR 0x0A]\<rparr>"
    by (subst http_Error_started [where c = 200]) (simp_all add: body_allowed_def)
  with assms d show ?thesis
    by (auto simp: mcGraphHandler_def graph_goroutine_def defaultNodeName_def final_status_def simp del: relay_for.simps)
qed

section \<open>The payload of a chat request\<close>

definition chat_message :: "string \<Rightarrow> string \<Rightarrow> json" where
  "chat_message role content = JObj [(''role'', JStr role), (''content'', JStr content)]"

definition chat_line :: "string \<times> string \<Rightarrow> string" where
  "chat_line rc = fst rc @ '':'' @ snd rc @ ''/n''"

abbreviation chat_items :: "(string \<times> string) list \<Rightarrow> json list" where
  "chat_items rcs \<equiv> map (\<lambda>rc. chat_message (fst rc) (snd rc)) rcs"

abbreviation add_messages :: "string \<Rightarrow> (string, json) gomap \<Rightarrow> json list \<Rightarrow> (string, json) gomap" where
  "add_messages key \<equiv> foldl (\<lambda>m item. add_message key item m)"

lemma add_chat_message:
  "add_message key (chat_message role content) m =
     gm_set key (JStr ((if role = ''system'' then content else fmt_entry m key @ role @ '':'' @ content) @ ''/n'')) m"
  by (simp add: add_message_def chat_message_def gm_simps)

lemma add_messages_value:
  assumes "\<forall>rc \<in> set rcs. fst rc \<noteq> ''system''" "rcs \<noteq> []"
  shows "gm_get (add_messages key m (chat_items rcs)) key = Some (JStr (fmt_entry m key @ concat (map chat_line rcs)))"
  using assms
proof (induction rcs arbitrary: m)
  case (Cons rc rcs)
  then show ?case
    by (cases "rcs = []") (simp_all add: add_chat_message chat_line_def fmt_entry_def)
qed simp

text \<open>Only the last system message and what follows it reach the pipeline.\<close>

lemma add_messages_system:
  assumes "\<forall>rc \<in> set post. fst rc \<noteq> ''system''"
  shows "gm_get (add_messages key m (chat_items (pre @ (''system'', prompt) # post))) key =
    Some (JStr (prompt @ ''/n'' @ concat (map chat_line post)))"
proof (cases "post = []")
  case False
  with assms show ?thesis by (simp add: add_chat_message add_messages_value fmt_entry_def)
qed (simp add: add_chat_message)

lemma foldl_rest_get:
  assumes "gm_wf dat"
  shows "gm_get (foldl (\<lambda>m kv. if fst kv = ''messages'' then m else gm_set (fst kv) (snd kv) m) m dat) k =
    (if k = ''messages'' then gm_get m k else case gm_get dat k of None \<Rightarrow> gm_get m k | Some v \<Rightarrow> Some v)"
  using assms
proof (induction dat arbitrary: m)
  case (Cons kv kvs)
  then have "gm_get kvs (fst kv) = None"
    by (cases kv) (auto simp: gm_wf_def gm_keys_def gm_get_def map_of_eq_None_iff)
  moreover have "gm_wf kvs" using Cons.prems by (simp add: gm_wf_def gm_keys_def)
  ultimately show ?case using Cons.IH by (cases kv) (auto simp: gm_simps split: option.split)
qed simp

text \<open>Every entry of the payload: the fields of the request win over the defaults, which go to an LLM
  pipeline only and win over the prompt.\<close>

lemma parse_payload_entry:
  assumes "gm_wf dat" "parse_payload key dat = Ret p" "k \<noteq> ''messages''" "k \<noteq> key"
  shows "gm_get p k = (case gm_get dat k of
     Some v \<Rightarrow> Some v
   | None \<Rightarrow> if key = LLMKeyword then gm_get defaultLlmParams k else None)"
proof -
  have wf: "gm_wf defaultLlmParams" by (simp add: gm_wf_def gm_keys_def defaultLlmParams_def)
  have other: "gm_get (add_messages key m ms) k = gm_get m k" for m ms
    using assms(4) by (induction ms arbitrary: m)
      (auto simp: add_message_def Let_def split: json.split option.split)
  show ?thesis
    using assms(2) foldl_rest_get [OF assms(1)] foldl_set_get [OF wf] other assms(3,4)
    by (auto simp: parse_payload_def Let_def split: option.splits json.splits go.splits if_splits)
qed

section \<open>Uploads\<close>

lemma data_loop_skips:
  "\<forall>st \<in> set pre. \<not> selects_step sn st \<Longrightarrow>
     data_loop H g r sn (pre @ steps) h w s = data_loop H g r sn steps h w s"
  by (induction pre) auto

lemma data_loop_none:
  "\<forall>st \<in> set steps. \<not> selects_step sn st \<Longrightarrow>
     data_loop H g r sn steps True w s = (Ret w, s)"
  by (induction steps) auto

lemma data_handler_missing:
  assumes "\<forall>st \<in> set (Steps (node_at (graph_nodes g) ''root'')). \<not> selects_step (header_get (rq_header r) ''SERVICE_NAME'') st"
  shows "\<exists>w. mcDataHandler H g r new_writer s = (Ret w, s) \<and> final_status w = 404 \<and> w_body w = no_data_message"
  using data_loop_skips [OF assms, of H g r "[]" False new_writer s]
  by (auto simp: mcDataHandler_def defaultNodeName_def WriteHeader_def w_write_def body_allowed_def final_status_def)

lemma copy_packets_open:
  "w_open w \<Longrightarrow> w_status w = Some c \<Longrightarrow> copy_packets ps w = w\<lparr>w_body := w_body w @ concat ps\<rparr>"
proof (induction ps arbitrary: w)
  case (Cons p ps)
  have "w\<lparr>w_status := Some (final_status w)\<rparr> = w" using Cons.prems by (simp add: final_status_def)
  then have "w_write p w = (True, w\<lparr>w_body := w_body w @ p\<rparr>)"
    using w_write_open [OF Cons.prems(1), of p] by simp
  moreover have "w_open (w\<lparr>w_body := w_body w @ p\<rparr>)" using Cons.prems by (simp add: w_open_def final_status_def)
  ultimately show ?case using Cons by simp
qed simp

text \<open>The specification of the copied form: the parts of the fields, then those of the files, each a block
  of headers and content, between boundaries.\<close>

type_synonym form_part = "string list \<times> bytes"

definition field_parts :: "(string, string list) gomap \<Rightarrow> form_part list" where
  "field_parts vals = concat (map (\<lambda>kv. map (\<lambda>v.
     ([''Content-Disposition: form-data; name='' @ [quote] @ escapeQuotes (fst kv) @ [quote]], v)) (snd kv)) vals)"

definition file_bytes :: "file_header \<Rightarrow> bytes" where
  "file_bytes fh = (case fh_content fh of Inl _ \<Rightarrow> [] | Inr b \<Rightarrow> concat (sr_packets b))"

definition file_readable :: "file_header \<Rightarrow> bool" where
  "file_readable fh = (case fh_content fh of Inl _ \<Rightarrow> False | Inr b \<Rightarrow> stream_fresh b)"

definition file_part :: "string \<Rightarrow> file_header \<Rightarrow> form_part" where
  "file_part key fh =
     ([''Content-Disposition: form-data; name='' @ [quote] @ escapeQuotes key @ [quote] @
         ''; filename='' @ [quote] @ escapeQuotes (fh_Filename fh) @ [quote],
       ''Content-Type: application/octet-stream''], file_bytes fh)"

definition file_parts :: "(string, file_header list) gomap \<Rightarrow> form_part list" where
  "file_parts files = concat (map (\<lambda>kf. map (file_part (fst kf)) (snd kf)) files)"

definition mp_block :: "string \<Rightarrow> form_part \<Rightarrow> bytes" where
  "mp_block bnd p = ''--'' @ bnd @ crlf @ concat (map (\<lambda>h. h @ crlf) (fst p)) @ crlf @ snd p"

definition mp_body :: "string \<Rightarrow> form_part list \<Rightarrow> bytes" where
  "mp_body bnd ps = str_join crlf (map (mp_block bnd) ps)"

lemma str_join_snoc: "str_join sep (xs @ [x]) = (if xs = [] then x else str_join sep xs @ sep @ x)"
  by (induction sep xs rule: str_join.induct) auto

lemma mp_body_empty: "mp_body bnd ps = [] \<longleftrightarrow> ps = []"
  by (cases ps; cases "tl ps") (auto simp: mp_body_def mp_block_def neq_Nil_conv)

lemma mp_part_body: "mp_part bnd hdrs content (mp_body bnd ps) = mp_body bnd (ps @ [(hdrs, content)])"
  using mp_body_empty [of bnd ps]
  by (simp add: mp_part_def mp_body_def [of _ "ps @ _"] str_join_snoc mp_block_def) (simp add: mp_body_def)

lemma mp_part_append: "mp_part bnd hdrs [] buf @ d = mp_part bnd hdrs d buf"
  by (simp add: mp_part_def)

lemma copy_fields_parts: "copy_fields bnd vals (mp_body bnd ps) = mp_body bnd (ps @ field_parts vals)"
proof -
  have one: "foldl (\<lambda>buf v. WriteField bnd k v buf) (mp_body bnd ps) vs = mp_body bnd (ps @ field_parts [(k, vs)])" for k vs ps
    by (induction vs arbitrary: ps) (simp_all add: field_parts_def WriteField_def mp_part_body)
  show ?thesis
  proof (induction vals arbitrary: ps)
    case (Cons kv vals)
    from Cons [of "ps @ field_parts [kv]"] one [of "fst kv" ps "snd kv"] show ?case
      by (simp add: copy_fields_def field_parts_def)
  qed (simp add: copy_fields_def field_parts_def)
qed

lemma copy_files_parts:
  "\<forall>fh \<in> set fhs. file_readable fh \<Longrightarrow>
     copy_files bnd key fhs (mp_body bnd ps) = Inr (mp_body bnd (ps @ map (file_part key) fhs))"
proof (induction fhs arbitrary: ps)
  case (Cons fh fhs)
  then obtain b where "fh_content fh = Inr b" "stream_fresh b" by (auto simp: file_readable_def split: sum.splits)
  moreover from this have "CreateFormFile bnd key (fh_Filename fh) (mp_body bnd ps) @ concat (sr_packets b) = mp_body bnd (ps @ [file_part key fh])"
    unfolding CreateFormFile_def mp_part_append by (simp only: mp_part_body file_part_def file_bytes_def sum.case)
  ultimately show ?case using Cons.IH [of "ps @ [file_part key fh]"] Cons.prems by (simp add: readAll_fresh)
qed simp

lemma copy_all_files_parts:
  "\<forall>kf \<in> set files. \<forall>fh \<in> set (snd kf). file_readable fh \<Longrightarrow>
     copy_all_files bnd files (mp_body bnd ps) = Inr (mp_body bnd (ps @ file_parts files))"
proof (induction files arbitrary: ps)
  case (Cons kf files)
  then show ?case
    by (cases kf) (simp add: copy_files_parts file_parts_def)
qed (simp add: file_parts_def)

definition form_readable :: "form \<Rightarrow> bool" where
  "form_readable frm = (\<forall>kf \<in> set (form_File frm). \<forall>fh \<in> set (snd kf). file_readable fh)"

text \<open>The request for the service: the headers of the upload with a new content type, the fields and files.\<close>

definition forwarded_request :: "string \<Rightarrow> GMConnector \<Rightarrow> srv_request \<Rightarrow> form \<Rightarrow> Step \<Rightarrow> data_request" where
  "forwarded_request bnd g r frm st =
     \<lparr>dr_method = rq_method r, dr_url = getServiceURLByStepTarget st (graph_ns g),
      dr_header = gm_set ''Content-Type'' [FormDataContentType bnd] (add_headers (rq_header r) []),
      dr_body = mp_close bnd (mp_body bnd (field_parts (form_Value frm) @ file_parts (form_File frm)))\<rparr>"

lemma form_copied:
  assumes "form_readable frm"
  shows "copy_all_files bnd (form_File frm) (copy_fields bnd (form_Value frm) []) =
    Inr (mp_body bnd (field_parts (form_Value frm) @ file_parts (form_File frm)))"
proof -
  have "copy_fields bnd (form_Value frm) [] = mp_body bnd (field_parts (form_Value frm))"
    using copy_fields_parts [of bnd "form_Value frm" "[]"] by (simp add: mp_body_def)
  then show ?thesis using assms by (simp add: copy_all_files_parts form_readable_def)
qed

lemma data_handler_forwards:
  assumes "Steps (node_at (graph_nodes g) ''root'') = pre @ st # post"
    and "selects_step sn st" "\<forall>st \<in> set pre \<union> set post. \<not> selects_step sn st"
    and "header_get (rq_header r) ''SERVICE_NAME'' = sn"
    and "rq_form r = Inr frm" "form_readable frm"
    and "url_parse_err (rt H) (getServiceURLByStepTarget st (graph_ns g)) = None"
    and "data_do H (forwarded_request (boundary H) g r frm st) (rs_world s) = (Inr (code, hdr, http_body ps), w')"
    and "100 \<le> code" "code \<le> 999" "body_allowed code"
  shows "\<exists>w. mcDataHandler H g r new_writer s = (Ret w, s\<lparr>rs_world := w'\<rparr>) \<and> final_status w = code \<and> w_body w = concat ps"
proof -
  let ?w = "new_writer\<lparr>w_header := add_headers hdr [], w_status := Some code\<rparr>"
  have "w_open ?w" using assms(11) by (simp add: w_open_def final_status_def)
  then have copy: "copy_packets ps ?w = ?w\<lparr>w_body := concat ps\<rparr>" by (simp add: copy_packets_open)
  have "w_header new_writer = []" by (simp add: new_writer_def)
  then have "forward_data H g r st new_writer s = (Ret (Inr (?w\<lparr>w_body := concat ps\<rparr>)), s\<lparr>rs_world := w'\<rparr>)"
    using assms(5,7,8,9,10) form_copied [OF assms(6)] copy
    by (simp add: forward_data_def forwarded_request_def WriteHeader_def copy_body_def)
  then show ?thesis
    using assms(1-4) data_loop_skips [of pre sn H g r "st # post" False new_writer s] data_loop_none [of post sn H g r]
    by (auto simp: mcDataHandler_def defaultNodeName_def final_status_def)
qed

section \<open>Dispatch\<close>

lemma mux_dispatch:
  "mux_match initializeRoutes path =
     (if path = ''/dataprep'' then Some DataHandler
      else if path = ''/ui'' then Some UiHandler
      else if path = ''/assets'' then Some (RedirectTo ''/assets/'')
      else if prefix ''/assets/'' path then Some AssetHandler
      else if prefix ''/'' path then Some GraphHandler
      else if path = [] then Some (RedirectTo ''/'') else None)"
  by (auto simp: mux_match_def initializeRoutes_def gm_simps gm_has_def subtree_def append_eq_Cons_conv
      append_eq_append_conv2 Cons_eq_append_conv)

section \<open>Properties\<close>

lemma readAll_NewReadCloser [simp]: "\<exists>b. readAll (NewReadCloser d) = (d, None, b)"
  by (simp add: readAll_def)

text \<open>C34: a run that finished without an error is relayed byte for byte, as JSON, with status 200: the status
  code the pipeline computed never reaches the client.\<close>

theorem answer_relayed_with_200:
  assumes "routeStep depth E g ''root'' inp inp s = (Ret (Some b, c, None), s')" "stream_fresh b"
  shows "\<exists>w. mcGraphHandler depth E g None (NewReadCloser inp) new_writer s = (Ret w, s') \<and> final_status w = 200 \<and>
    w_body w = concat (sr_packets b) \<and> gm_get (w_header w) ''Content-Type'' = Some [''application/json'']"
  using readAll_NewReadCloser [of inp] graph_handler_relays assms by blast

definition down_ext :: "unit ext" where
  "down_ext = (demo_ext (\<lambda>u b. b))\<lparr>client_do := \<lambda>q w. (Inr (503, http_body [''down'']), w)\<rparr>"

definition one_step_graph :: "string \<Rightarrow> Step list \<Rightarrow> GMConnector" where
  "one_step_graph typ steps = example_graph [(''root'', \<lparr>routerType = typ, Steps = steps\<rparr>)]"

theorem answer_relayed_with_200_witness:
  "\<exists>w s'. mcGraphHandler 1 down_ext (one_step_graph Sequence [service_step ''Llm'' ''u'' []]) None (NewReadCloser ''{}'') new_writer demo_state = (Ret w, s') \<and>
     final_status w = 200 \<and> w_body w = ''down''"
proof -
  let ?g = "one_step_graph Sequence [service_step ''Llm'' ''u'' []]"
  let ?s = "demo_state\<lparr>rs_sent := [\<lparr>hr_method = ''POST'', hr_url = ''u'', hr_body = ''{}'', hr_ctype = ''application/json''\<rparr>]\<rparr>"
  have "routeStep 1 down_ext ?g ''root'' ''{}'' ''{}'' demo_state = (Ret (Some (http_body [''down'']), 503, None), ?s)"
    by code_simp
  from answer_relayed_with_200 [OF this] show ?thesis by auto
qed

text \<open>A routing error is answered with status 500 and a JSON object that holds the error.\<close>

theorem error_answered_with_500:
  assumes "routeStep depth E g ''root'' inp inp s = (Ret (b, c, Some e), s')"
  shows "\<exists>w. mcGraphHandler depth E g None (NewReadCloser inp) new_writer s = (Ret w, s') \<and> final_status w = 500 \<and>
    w_body w = prepareErrorResponse e ''Failed to process request''"
  using readAll_NewReadCloser [of inp] graph_handler_error assms by blast

theorem error_answered_with_500_witness:
  "\<exists>w s'. mcGraphHandler 1 refusing_ext (one_step_graph Sequence [service_step ''Llm'' ''u'' []]) None (NewReadCloser ''{}'') new_writer demo_state = (Ret w, s') \<and>
     final_status w = 500"
proof -
  let ?g = "one_step_graph Sequence [service_step ''Llm'' ''u'' []]"
  let ?s = "demo_state\<lparr>rs_sent := [\<lparr>hr_method = ''POST'', hr_url = ''u'', hr_body = ''{}'', hr_ctype = ''application/json''\<rparr>]\<rparr>"
  have "routeStep 1 refusing_ext ?g ''root'' ''{}'' ''{}'' demo_state = (Ret (None, 500, Some ''connection refused''), ?s)"
    by code_simp
  from error_answered_with_500 [OF this] show ?thesis by blast
qed

text \<open>A timeout while the answer is being relayed leaves status 200 and a truncated answer with the text
  of the timeout behind it.\<close>

theorem timeout_truncates_answer:
  assumes "routeStep depth E g ''root'' inp inp s = (Ret (Some b, c, None), s')" "stream_fresh b" "sr_packets b \<noteq> []"
  shows "\<exists>w d. mcGraphHandler depth E g (Some (Suc k)) (NewReadCloser inp) new_writer s = (Ret w, s') \<and> final_status w = 200 \<and>
    prefix d (concat (sr_packets b)) \<and> w_body w = d @ ''request timed out'' @ [CHR 0x0A]"
  using readAll_NewReadCloser [of inp] graph_handler_timeout assms by blast

theorem timeout_truncates_answer_witness:
  "\<exists>w d s'. mcGraphHandler 1 down_ext (one_step_graph Sequence [service_step ''Llm'' ''u'' []]) (Some 1) (NewReadCloser ''{}'') new_writer demo_state = (Ret w, s') \<and>
     final_status w = 200 \<and> w_body w = d @ ''request timed out'' @ [CHR 0x0A]"
proof -
  let ?g = "one_step_graph Sequence [service_step ''Llm'' ''u'' []]"
  let ?s = "demo_state\<lparr>rs_sent := [\<lparr>hr_method = ''POST'', hr_url = ''u'', hr_body = ''{}'', hr_ctype = ''application/json''\<rparr>]\<rparr>"
  have "routeStep 1 down_ext ?g ''root'' ''{}'' ''{}'' demo_state = (Ret (Some (http_body [''down'']), 503, None), ?s)"
    by code_simp
  from timeout_truncates_answer [OF this, of 0] show ?thesis by auto
qed

text \<open>Of the messages of a chat payload only the last system message and what follows it reach the
  pipeline; each later message is one line \<open>role:content/n\<close>.\<close>

theorem last_system_message_restarts_prompt:
  assumes "gm_wf dat" "gm_get dat ''messages'' = Some (JArr (chat_items (pre @ (''system'', prompt) # post)))"
    and "\<forall>rc \<in> set post. fst rc \<noteq> ''system''" "gm_get dat EmbeddingKeyword = None"
  shows "\<exists>p. parse_payload EmbeddingKeyword dat = Ret p \<and>
    gm_get p EmbeddingKeyword = Some (JStr (prompt @ ''/n'' @ concat (map chat_line post)))"
  using assms foldl_rest_get [OF assms(1)] add_messages_system [OF assms(3), of EmbeddingKeyword "[]" pre prompt]
  by (auto simp: parse_payload_def EmbeddingKeyword_def LLMKeyword_def)

theorem last_system_message_restarts_prompt_witness:
  "\<exists>p. parse_payload EmbeddingKeyword [(''messages'', JArr (chat_items [(''user'', ''a''), (''system'', ''b''), (''user'', ''c'')]))] = Ret p \<and>
    gm_get p EmbeddingKeyword = Some (JStr ''b/nuser:c/n'')"
  using last_system_message_restarts_prompt
    [of "[(''messages'', JArr (chat_items ([(''user'', ''a'')] @ (''system'', ''b'') # [(''user'', ''c'')])))]" "[(''user'', ''a'')]" "''b''" "[(''user'', ''c'')]"]
  by (simp add: gm_wf_def gm_keys_def gm_simps EmbeddingKeyword_def chat_line_def)

text \<open>The other fields of a chat request go to the pipeline unchanged and win over the default LLM
  parameters, which are added for an LLM pipeline only; nothing else is added.\<close>

theorem payload_fields_and_defaults:
  assumes "gm_wf dat" "parse_payload key dat = Ret p" "k \<noteq> ''messages''" "k \<noteq> key"
  shows "gm_get p k = (case gm_get dat k of
     Some v \<Rightarrow> Some v
   | None \<Rightarrow> if key = LLMKeyword then gm_get defaultLlmParams k else None)"
  using assms by (rule parse_payload_entry)

theorem payload_fields_and_defaults_witness:
  "\<exists>p. parse_payload LLMKeyword [(''top_k'', JNum (GNum False 5 0))] = Ret p \<and>
     gm_get p ''top_k'' = Some (JNum (GNum False 5 0)) \<and> gm_get p ''streaming'' = Some (JBool True)"
proof -
  let ?d = "[(''top_k'', JNum (GNum False 5 0))]"
  have wf: "gm_wf ?d" by (simp add: gm_wf_def gm_keys_def)
  obtain p where p: "parse_payload LLMKeyword ?d = Ret p" by (simp add: parse_payload_def gm_simps)
  from payload_fields_and_defaults [OF wf p, of "''top_k''"] payload_fields_and_defaults [OF wf p, of "''streaming''"] p
  show ?thesis by (simp add: LLMKeyword_def gm_simps defaultLlmParams_def)
qed

text \<open>An upload for which the graph has no data preparation step, or none with the service name of the
  request, is answered with 404 and sent nowhere.\<close>

theorem upload_without_service_404:
  assumes "\<forall>st \<in> set (Steps (node_at (graph_nodes g) ''root'')). \<not> selects_step (header_get (rq_header r) ''SERVICE_NAME'') st"
  shows "\<exists>w. mcDataHandler H g r new_writer s = (Ret w, s) \<and> final_status w = 404 \<and> w_body w = no_data_message"
  using assms by (rule data_handler_missing)

definition demo_hext :: "unit hext" where
  "demo_hext = \<lparr>rt = demo_ext (\<lambda>u b. b), data_do = \<lambda>q w. (Inr (201, [], http_body [''stored'']), w),
     proxy_serve = \<lambda>u q w x. (w, x), boundary = ''b''\<rparr>"

definition upload :: srv_request where
  "upload = \<lparr>rq_method = ''POST'', rq_url = ''/dataprep'', rq_path = ''/dataprep'', rq_header = [(''Service_name'', [''prep''])],
     rq_body = NewReadCloser [], rq_form = Inr \<lparr>form_Value = [(''k'', [''v''])], form_File = []\<rparr>\<rparr>"

theorem upload_without_service_404_witness:
  "\<exists>w. mcDataHandler demo_hext (one_step_graph Sequence [example_step ''DataPrep'' [] ''other'']) upload new_writer demo_state = (Ret w, demo_state) \<and>
     final_status w = 404"
proof -
  have "header_get (rq_header upload) ''SERVICE_NAME'' = ''prep''" by code_simp
  with upload_without_service_404 [of "one_step_graph Sequence [example_step ''DataPrep'' [] ''other'']" upload demo_hext demo_state]
  show ?thesis by (auto simp: one_step_graph_def node_at_def gm_simps selects_step_def DataPrep_def example_step_def zero_defs)
qed

text \<open>C35: an upload that exactly one step of the graph can take is forwarded once, to the service of that step,
  with its method, its headers, all its fields and all its files, and the status and the body of the
  answer are relayed.\<close>

theorem upload_forwarded:
  assumes "Steps (node_at (graph_nodes g) ''root'') = pre @ st # post"
    and "selects_step sn st" "\<forall>st \<in> set pre \<union> set post. \<not> selects_step sn st"
    and "header_get (rq_header r) ''SERVICE_NAME'' = sn"
    and "rq_form r = Inr frm" "form_readable frm"
    and "url_parse_err (rt H) (getServiceURLByStepTarget st (graph_ns g)) = None"
    and "data_do H (forwarded_request (boundary H) g r frm st) (rs_world s) = (Inr (code, hdr, http_body ps), w')"
    and "100 \<le> code" "code \<le> 999" "body_allowed code"
  shows "\<exists>w. mcDataHandler H g r new_writer s = (Ret w, s\<lparr>rs_world := w'\<rparr>) \<and> final_status w = code \<and> w_body w = concat ps"
  using assms by (rule data_handler_forwards)

theorem upload_forwarded_witness:
  "\<exists>w. mcDataHandler demo_hext (one_step_graph Sequence [example_step ''DataPrep'' [] ''prep'']) upload new_writer demo_state =
     (Ret w, demo_state\<lparr>rs_world := ()\<rparr>) \<and> final_status w = 201 \<and> w_body w = concat [''stored'']"
proof (rule upload_forwarded [where pre = "[]" and post = "[]" and st = "example_step ''DataPrep'' [] ''prep''"
      and sn = "''prep''" and frm = "\<lparr>form_Value = [(''k'', [''v''])], form_File = []\<rparr>" and hdr = "[]"])
  show "header_get (rq_header upload) ''SERVICE_NAME'' = ''prep''" by code_simp
qed (simp_all add: one_step_graph_def node_at_def gm_simps selects_step_def DataPrep_def example_step_def zero_defs upload_def
      demo_hext_def demo_ext_def body_allowed_def form_readable_def)

text \<open>The routes of the router: every path that starts with a slash has a handler, the graph handler unless
  a more specific route matches.\<close>

theorem routes_dispatch:
  "mux_match initializeRoutes path =
     (if path = ''/dataprep'' then Some DataHandler
      else if path = ''/ui'' then Some UiHandler
      else if path = ''/assets'' then Some (RedirectTo ''/assets/'')
      else if prefix ''/assets/'' path then Some AssetHandler
      else if prefix ''/'' path then Some GraphHandler
      else if path = [] then Some (RedirectTo ''/'') else None)"
  by (rule mux_dispatch)

end
