(* ===== verification/Router_Main.thy ===== *)
theory Router_Main
  imports Router_Handlers
begin

text \<open>
  The start of the router (\<open>main\<close> of \<open>cmd/router/main.go\<close>): it decodes its argument \<open>--graph-json\<close> into a GMConnector and
  serves the graph. \<open>json.Unmarshal\<close> into the structs of \<open>gmconnector_types.go\<close> is built from decoders for strings,
  maps, slices and structs.
\<close>

section \<open>Decoding into structs\<close>

text \<open>\<open>json.Unmarshal\<close> into a typed value: a decoder takes the text and the value so far. \<open>None\<close> is an error; Go goes on
  after one, but both of the program's callers give up, so that what it leaves in the value is not modelled. A JSON
  \<open>null\<close> clears maps and slices and leaves other values as they are. Unknown members are skipped.\<close>

type_synonym 'a dec = "jtree \<Rightarrow> 'a \<Rightarrow> 'a option"

definition dec_string :: "string dec" where
  "dec_string t v = (case t of TStr s \<Rightarrow> Some s | TNull \<Rightarrow> Some v | _ \<Rightarrow> None)"

definition dec_bool :: "bool dec" where
  "dec_bool t v = (case t of TBool b \<Rightarrow> Some b | TNull \<Rightarrow> Some v | _ \<Rightarrow> None)"

primrec fold_opt :: "('m \<Rightarrow> 'a \<Rightarrow> 'a option) \<Rightarrow> 'm list \<Rightarrow> 'a \<Rightarrow> 'a option" where
  "fold_opt f [] v = Some v"
| "fold_opt f (m # ms) v = Option.bind (f m v) (fold_opt f ms)"

text \<open>\<open>foldName\<close>: members match fields up to case; of the characters beyond ASCII the Kelvin sign matches \<open>K\<close> and the
  long s matches \<open>S\<close>. No two fields of a struct of the program agree up to case, so that the preference for an exact
  match does not matter.\<close>

definition fold_char :: "char \<Rightarrow> char" where
  "fold_char c = (if 97 \<le> ord_of c \<and> ord_of c \<le> 122 then char_of (ord_of c - 32) else c)"

fun fold_name :: "string \<Rightarrow> string" where
  "fold_name [] = []"
| "fold_name (c # cs) =
     (if prefix [CHR 0xE2, CHR 0x84, CHR 0xAA] (c # cs) then CHR ''K'' # fold_name (drop 2 cs)
      else if prefix [CHR 0xC5, CHR 0xBF] (c # cs) then CHR ''S'' # fold_name (drop 1 cs)
      else fold_char c # fold_name cs)"

declare fold_name.simps [simp del]

definition dec_member :: "(string \<times> 'a dec) list \<Rightarrow> string \<times> jtree \<Rightarrow> 'a \<Rightarrow> 'a option" where
  "dec_member fs m v = (case find (\<lambda>f. fold_name (fst f) = fold_name (fst m)) fs of
     None \<Rightarrow> Some v | Some f \<Rightarrow> snd f (snd m) v)"

definition dec_struct :: "(string \<times> 'a dec) list \<Rightarrow> 'a dec" where
  "dec_struct fs t v = (case t of TObj ms \<Rightarrow> fold_opt (dec_member fs) ms v | TNull \<Rightarrow> Some v | _ \<Rightarrow> None)"

text \<open>Decoding into a field of a struct, given how to read and how to change the field.\<close>

definition into :: "('a \<Rightarrow> 'b) \<Rightarrow> (('b \<Rightarrow> 'b) \<Rightarrow> 'a \<Rightarrow> 'a) \<Rightarrow> 'b dec \<Rightarrow> 'a dec" where
  "into get upd d t v = map_option (\<lambda>x. upd (\<lambda>_. x) v) (d t (get v))"

text \<open>An entry of a map starts from the zero value, an element of a slice from the element that is there, if a repeated
  member has filled the slice before. (Elements that a second such member cut off and a third one brings back are
  not modelled.)\<close>

definition dec_map :: "'a dec \<Rightarrow> 'a \<Rightarrow> (string, 'a) gomap option dec" where
  "dec_map d z t m = (case t of
     TObj ms \<Rightarrow> map_option Some (fold_opt (\<lambda>kt m. map_option (\<lambda>x. gm_set (fst kt) x m) (d (snd kt) z)) ms
       (case m of None \<Rightarrow> [] | Some m \<Rightarrow> m))
   | TNull \<Rightarrow> Some None | _ \<Rightarrow> None)"

text \<open>A map whose nil and empty values the program does not tell apart.\<close>

definition dec_plain_map :: "'a dec \<Rightarrow> 'a \<Rightarrow> (string, 'a) gomap dec" where
  "dec_plain_map d z t m = map_option (\<lambda>r. case r of None \<Rightarrow> [] | Some m \<Rightarrow> m) (dec_map d z t (Some m))"

primrec dec_elems :: "'a dec \<Rightarrow> 'a \<Rightarrow> jtree list \<Rightarrow> 'a list \<Rightarrow> 'a list option" where
  "dec_elems d z [] vs = Some []"
| "dec_elems d z (t # ts) vs =
     Option.bind (d t (case vs of [] \<Rightarrow> z | v # _ \<Rightarrow> v)) (\<lambda>x. map_option (Cons x) (dec_elems d z ts (tl vs)))"

definition dec_slice :: "'a dec \<Rightarrow> 'a \<Rightarrow> 'a list dec" where
  "dec_slice d z t vs = (case t of TArr ts \<Rightarrow> dec_elems d z ts vs | TNull \<Rightarrow> Some [] | _ \<Rightarrow> None)"

section \<open>The API types\<close>

text \<open>The fields and tags of \<open>gmconnector_types.go\<close>; the fields of the embedded \<open>Executor\<close> and \<open>TypeMeta\<close> are members
  of the struct around them. The decoders of Kubernetes' \<open>ObjectMeta\<close> and \<open>Time\<close> are parameters.\<close>

record meta_dec =
  dec_ObjectMeta :: "ObjectMeta dec"
  dec_Time :: "string dec"

definition dec_target :: "GMCTarget dec" where
  "dec_target = dec_struct
     [(''serviceName'', into ServiceName ServiceName_update dec_string),
      (''nameSpace'', into NameSpace NameSpace_update dec_string),
      (''config'', into Config Config_update (dec_map dec_string [])),
      (''isDownstreamService'', into IsDownstreamService IsDownstreamService_update dec_bool)]"

definition into_executor :: "(Executor \<Rightarrow> 'b) \<Rightarrow> (('b \<Rightarrow> 'b) \<Rightarrow> Executor \<Rightarrow> Executor) \<Rightarrow> 'b dec \<Rightarrow> Step dec" where
  "into_executor get upd d = into StepExecutor StepExecutor_update (into get upd d)"

definition step_fields :: "(string \<times> Step dec) list" where
  "step_fields =
     [(''name'', into StepName StepName_update dec_string),
      (''nodeName'', into_executor NodeName NodeName_update dec_string),
      (''internalService'', into_executor InternalService InternalService_update dec_target),
      (''externalService'', into_executor ExternalService ExternalService_update dec_string),
      (''data'', into Data Data_update dec_string),
      (''condition'', into Condition Condition_update dec_string),
      (''dependency'', into Dependency Dependency_update dec_string),
      (''serviceUrl'', into ServiceURL ServiceURL_update dec_string)]"

definition dec_step :: "Step dec" where
  "dec_step = dec_struct step_fields"

definition dec_router :: "Router dec" where
  "dec_router = dec_struct
     [(''routerType'', into routerType routerType_update dec_string),
      (''steps'', into Steps Steps_update (dec_slice dec_step zero_step))]"

definition dec_router_config :: "RouterConfig dec" where
  "dec_router_config = dec_struct
     [(''name'', into rc_Name rc_Name_update dec_string),
      (''serviceName'', into rc_ServiceName rc_ServiceName_update dec_string),
      (''nameSpace'', into rc_NameSpace rc_NameSpace_update dec_string),
      (''config'', into rc_Config rc_Config_update (dec_map dec_string []))]"

definition dec_spec :: "GMConnectorSpec dec" where
  "dec_spec = dec_struct
     [(''nodes'', into Nodes Nodes_update (dec_plain_map dec_router zero_router)),
      (''routerConfig'', into routerConfig routerConfig_update dec_router_config)]"

definition dec_condition :: "meta_dec \<Rightarrow> GMConnectorCondition dec" where
  "dec_condition M = dec_struct
     [(''type'', into gc_Type gc_Type_update dec_string),
      (''message'', into gc_Message gc_Message_update dec_string),
      (''reason'', into gc_Reason gc_Reason_update dec_string),
      (''lastUpdateTime'', into gc_LastUpdateTime gc_LastUpdateTime_update (dec_Time M))]"

definition dec_status :: "meta_dec \<Rightarrow> GMConnectorStatus dec" where
  "dec_status M = dec_struct
     [(''condition'', into gs_Condition gs_Condition_update (dec_condition M)),
      (''status'', into gs_Status gs_Status_update dec_string),
      (''accessUrl'', into AccessURL AccessURL_update dec_string),
      (''annotations'', into Annotations Annotations_update (dec_plain_map dec_string []))]"

definition dec_graph :: "meta_dec \<Rightarrow> GMConnector dec" where
  "dec_graph M = dec_struct
     [(''kind'', into gm_TypeMeta gm_TypeMeta_update (into tm_Kind tm_Kind_update dec_string)),
      (''apiVersion'', into gm_TypeMeta gm_TypeMeta_update (into tm_APIVersion tm_APIVersion_update dec_string)),
      (''metadata'', into gm_ObjectMeta gm_ObjectMeta_update (dec_ObjectMeta M)),
      (''spec'', into gm_Spec gm_Spec_update dec_spec),
      (''status'', into gm_Status gm_Status_update (dec_status M))]"

definition zero_spec :: GMConnectorSpec where
  "zero_spec = \<lparr>Nodes = [], routerConfig = zero_router_config\<rparr>"

definition unmarshal_graph :: "meta_dec \<Rightarrow> bytes \<Rightarrow> GMConnector option" where
  "unmarshal_graph M s = Option.bind (parse_json s) (\<lambda>t. dec_graph M t (graph_of_spec zero_spec))"

section \<open>The process\<close>

text \<open>Times in seconds.\<close>

record http_server =
  srv_Addr :: string
  srv_Handler :: "(string \<times> handler) list"
  srv_ReadTimeout :: nat
  srv_WriteTimeout :: nat
  srv_IdleTimeout :: nat

datatype router_process = Exited int | Listening GMConnector http_server

definition router_main :: "meta_dec \<Rightarrow> string \<Rightarrow> router_process" where
  "router_main M jsonGraph =
     (case unmarshal_graph M jsonGraph of
        None \<Rightarrow> Exited 1
      | Some mcGraph \<Rightarrow> Listening mcGraph
          \<lparr>srv_Addr = '':8080'', srv_Handler = initializeRoutes, srv_ReadTimeout = 60, srv_WriteTimeout = 60, srv_IdleTimeout = 180\<rparr>)"

text \<open>The end of \<open>main\<close>, when \<open>ListenAndServe\<close> returns.\<close>

definition router_stopped :: "go_error option \<Rightarrow> int" where
  "router_stopped err = (case err of None \<Rightarrow> 0 | Some _ \<Rightarrow> 1)"

end
