(* ===== verification/GMC_Controller.thy ===== *)
theory GMC_Controller
  imports GMC_Types Go_Json
begin

text \<open>
  The controller (\<open>internal/controller/gmconnector_controller.go\<close>): \<open>Reconcile\<close> deploys the services of a
  graph from manifests, records every applied object in the annotations of the graph's status, deploys
  the router with the graph as its argument, deletes the objects that were recorded before and no
  longer are, and writes the status.

  \<^item> The API server, the file system, the YAML decoder, the scheme's conversions and
    \<open>SetControllerReference\<close> are code outside the repository: the fields of \<open>'w k8s\<close>, on a cluster state
    \<open>'w\<close>. An object is its identifying fields and the rest of its content.
  \<^item> \<open>'w cs\<close> is the log of the write requests issued and the cluster. A graph that the code updates through
    a pointer is returned.
  \<^item> \<open>ticks\<close> bounds the retries of \<open>applyResourceToK8s\<close>: the number of ticks before its context or its
    timeout ends it.
\<close>

section \<open>Objects\<close>

datatype api_err = NotFound string | ApiErr string

primrec api_text :: "api_err \<Rightarrow> string" where
  "api_text (NotFound e) = e"
| "api_text (ApiErr e) = e"

record kobj =
  ko_kind :: string
  ko_apiVersion :: string
  ko_name :: string
  ko_namespace :: string
  ko_resourceVersion :: string
  ko_content :: json

record svc_port =
  sp_Port :: int
  sp_NodePort :: int

text \<open>\<open>corev1.Service\<close> and \<open>appsv1.Deployment\<close>: the fields the code reads or writes; a nil map is \<open>None\<close>.\<close>

record service =
  sv_kind :: string
  sv_name :: string
  sv_namespace :: string
  sv_type :: string
  sv_ports :: "svc_port list"
  sv_ingress :: "string list"
  sv_externalName :: string
  sv_selector :: "(string, string) gomap option"
  sv_rest :: json

record env_var =
  ev_name :: string
  ev_value :: string

record container =
  ct_env :: "env_var list"
  ct_rest :: json

record dpl_condition =
  dc_type :: string
  dc_status :: string
  dc_reason :: string
  dc_message :: string

record dpl_status =
  ds_updated :: int
  ds_replicas :: int
  ds_available :: int
  ds_unavailable :: int
  ds_conditions :: "dpl_condition list"
  ds_other :: json

record deployment =
  dp_name :: string
  dp_namespace :: string
  dp_owners :: "OwnerReference list"
  dp_replicas :: "int option"
  dp_matchLabels :: "(string, string) gomap option"
  dp_labels :: "(string, string) gomap option"
  dp_containers :: "container list"
  dp_status :: dpl_status
  dp_rest :: json

record 'w k8s =
  read_file :: "string \<Rightarrow> go_error + string"
  decode_obj :: "string \<Rightarrow> go_error + kobj"
  decode_svc :: "string \<Rightarrow> go_error + service"
  to_service :: "kobj \<Rightarrow> go_error + service"
  of_service :: "service \<Rightarrow> go_error + kobj"
  to_deployment :: "kobj \<Rightarrow> go_error + deployment"
  of_deployment :: "deployment \<Rightarrow> go_error + kobj"
  set_owner :: "GMConnector \<Rightarrow> kobj \<Rightarrow> go_error + kobj"
  ticks :: nat
  deadline_err :: go_error
  k_get :: "string \<Rightarrow> string \<Rightarrow> string \<Rightarrow> string \<Rightarrow> 'w \<Rightarrow> (api_err + kobj) \<times> 'w"
  k_create :: "kobj \<Rightarrow> 'w \<Rightarrow> (api_err + kobj) \<times> 'w"
  k_update :: "kobj \<Rightarrow> 'w \<Rightarrow> (api_err + kobj) \<times> 'w"
  k_delete :: "kobj \<Rightarrow> 'w \<Rightarrow> api_err option \<times> 'w"
  k_get_graph :: "string \<Rightarrow> string \<Rightarrow> 'w \<Rightarrow> (api_err + GMConnector) \<times> 'w"
  k_get_deployment :: "string \<Rightarrow> string \<Rightarrow> 'w \<Rightarrow> (api_err + deployment) \<times> 'w"
  k_status_update :: "GMConnector \<Rightarrow> 'w \<Rightarrow> api_err option \<times> 'w"

datatype k8s_op = OpCreate kobj | OpUpdate kobj | OpDelete kobj | OpStatus GMConnector

record 'w cs =
  cs_ops :: "k8s_op list"
  cs_world :: 'w

definition cs_log :: "k8s_op \<Rightarrow> 'w \<Rightarrow> 'w cs \<Rightarrow> 'w cs" where
  "cs_log op w c = c\<lparr>cs_ops := cs_ops c @ [op], cs_world := w\<rparr>"

text \<open>\<open>errors.Wrapf\<close>.\<close>

definition wrap :: "string \<Rightarrow> go_error \<Rightarrow> go_error" where
  "wrap msg err = msg @ '': '' @ err"

section \<open>Manifests\<close>

definition yaml_dir :: string where "yaml_dir = ''/tmp/microservices/yamls/''"

definition yamlDict :: "(string, string) gomap" where
  "yamlDict = map (\<lambda>kf. (fst kf, yaml_dir @ snd kf))
     [(''TeiEmbedding'', ''tei.yaml''), (''TeiEmbeddingGaudi'', ''tei_gaudi.yaml''), (''Embedding'', ''embedding-usvc.yaml''),
      (''VectorDB'', ''redis-vector-db.yaml''), (''Retriever'', ''retriever-usvc.yaml''), (''Reranking'', ''reranking-usvc.yaml''),
      (''TeiReranking'', ''teirerank.yaml''), (''Tgi'', ''tgi.yaml''), (''TgiGaudi'', ''tgi_gaudi.yaml''), (''TgiNvidia'', ''tgi_nv.yaml''),
      (''Llm'', ''llm-uservice.yaml''), (''DocSum'', ''docsum-llm-uservice.yaml''), (''router'', ''gmc-router.yaml''),
      (''WebRetriever'', ''web-retriever.yaml''), (''Asr'', ''asr.yaml''), (''Tts'', ''tts.yaml''), (''SpeechT5'', ''speecht5.yaml''),
      (''SpeechT5Gaudi'', ''speecht5_gaudi.yaml''), (''Whisper'', ''whisper.yaml''), (''WhisperGaudi'', ''whisper_gaudi.yaml''),
      (''DataPrep'', ''data-prep.yaml''), (''UI'', ''ui.yaml'')]"

definition lookupManifestDir :: "string \<Rightarrow> string" where
  "lookupManifestDir step = (case gm_get yamlDict step of Some value \<Rightarrow> value | None \<Rightarrow> [])"

definition getTemplateBytes :: "'w k8s \<Rightarrow> string \<Rightarrow> go_error + string" where
  "getTemplateBytes K resourceType =
     (let tmpltFile = lookupManifestDir resourceType in
      if tmpltFile = [] then Inl ''unexpected target'' else read_file K tmpltFile)"

definition getNsNameFromStep :: "Step \<Rightarrow> string \<times> string" where
  "getNsNameFromStep step =
     (if step_external step = [] then (NameSpace (step_target step), step_service step) else ([], []))"

fun service_details :: "'w k8s \<Rightarrow> string list \<Rightarrow> go_error + (string \<times> int)" where
  "service_details K [] = Inl ''service name or port not found''"
| "service_details K (res # resources) =
     (if res = [] \<or> \<not> str_contains res ''kind: Service'' then service_details K resources
      else case decode_svc K res of
        Inl err \<Rightarrow> Inl err
      | Inr svc \<Rightarrow>
          if sv_kind svc = ''Service'' \<and> sv_ports svc \<noteq> [] then Inr (sv_name svc, sp_Port (hd (sv_ports svc)))
          else service_details K resources)"

definition getServiceDetailsFromManifests :: "'w k8s \<Rightarrow> string \<Rightarrow> go_error + (string \<times> int)" where
  "getServiceDetailsFromManifests K filePath =
     (case read_file K filePath of
        Inl err \<Rightarrow> Inl err
      | Inr dat \<Rightarrow> service_details K (str_split dat ''---''))"

section \<open>Downstream services\<close>

definition isDownStreamEndpointKey :: "string \<Rightarrow> bool" where
  "isDownStreamEndpointKey keyname =
     (keyname = ''TEI_EMBEDDING_ENDPOINT'' \<or> keyname = ''TEI_RERANKING_ENDPOINT'' \<or> keyname = ''TGI_LLM_ENDPOINT'' \<or>
      keyname = ''REDIS_URL'' \<or> keyname = ''ASR_ENDPOINT'' \<or> keyname = ''TTS_ENDPOINT'' \<or> keyname = ''TEI_ENDPOINT'')"

definition findDownStreamService :: "string \<Rightarrow> Step option \<Rightarrow> Router option \<Rightarrow> Step option" where
  "findDownStreamService dsName stepCfg nodeCfg =
     (case (stepCfg, nodeCfg) of
        (Some _, Some node) \<Rightarrow> find (\<lambda>otherStep. step_service otherStep = dsName \<and> step_downstream otherStep) (Steps node)
      | _ \<Rightarrow> None)"

definition getDownstreamSvcEndpoint :: "'w k8s \<Rightarrow> string \<Rightarrow> string \<Rightarrow> Step option \<Rightarrow> go_error + string" where
  "getDownstreamSvcEndpoint K graphNs dsName stepCfg =
     (case stepCfg of
        None \<Rightarrow> Inl (''empty stepCfg for '' @ dsName)
      | Some step \<Rightarrow>
          (let tmplt = lookupManifestDir (StepName step) in
           if tmplt = [] then Inl (''failed to find yaml file for '' @ dsName)
           else case getServiceDetailsFromManifests K tmplt of
             Inl err \<Rightarrow> Inl (''failed to get service details for '' @ dsName @ '': '' @ err @ [CHR 0x0A])
           | Inr (svcName, port) \<Rightarrow>
               (let (altNs, altSvcName) = getNsNameFromStep step;
                    altNs = (if altNs = [] then graphNs else altNs);
                    altSvcName = (if altSvcName = [] then svcName else altSvcName);
                    scheme = (if StepName step = ''VectorDB'' then ''redis://'' else ''http://'')
                in Inr (scheme @ altSvcName @ ''.'' @ altNs @ ''.svc.cluster.local:'' @ string_of_int port))))"

definition getServiceURL :: "service \<Rightarrow> string" where
  "getServiceURL s =
     (if sv_type s = ''ClusterIP'' then
        (if sv_ports s \<noteq> [] then
           ''http://'' @ sv_name s @ ''.'' @ sv_namespace s @ ''.svc.cluster.local:'' @ string_of_int (sp_Port (hd (sv_ports s)))
         else [])
      else if sv_type s = ''NodePort'' then
        (if sv_ports s \<noteq> [] then ''<node-ip>:'' @ string_of_int (sp_NodePort (hd (sv_ports s))) else [])
      else if sv_type s = ''LoadBalancer'' then
        (if sv_ports s \<noteq> [] \<and> sv_ingress s \<noteq> [] then hd (sv_ingress s) @ '':'' @ string_of_int (sp_Port (hd (sv_ports s)))
         else [])
      else if sv_type s = ''ExternalName'' then sv_externalName s
      else [])"

section \<open>Applying an object\<close>

fun apply_loop :: "nat \<Rightarrow> 'w k8s \<Rightarrow> GMConnector \<Rightarrow> kobj \<Rightarrow> 'w cs \<Rightarrow> (go_error + kobj) \<times> 'w cs" where
  "apply_loop 0 K graph obj c = (Inl (deadline_err K), c)"
| "apply_loop (Suc n) K graph obj c =
     (case set_owner K graph obj of
        Inl err \<Rightarrow> (Inl (''failed to set controller reference: '' @ err), c)
      | Inr obj \<Rightarrow>
          (case k_get K (ko_kind obj) (ko_apiVersion obj) (ko_namespace obj) (ko_name obj) (cs_world c) of
             (Inl (NotFound e), w) \<Rightarrow>
               (case k_create K obj w of
                  (Inl err, w') \<Rightarrow> (Inl (''failed to create resource: '' @ api_text err), cs_log (OpCreate obj) w' c)
                | (Inr obj', w') \<Rightarrow> (Inr obj', cs_log (OpCreate obj) w' c))
           | (Inl (ApiErr e), w) \<Rightarrow> apply_loop n K graph obj (c\<lparr>cs_world := w\<rparr>)
           | (Inr latest, w) \<Rightarrow>
               (let obj = obj\<lparr>ko_resourceVersion := ko_resourceVersion latest\<rparr> in
                case k_update K obj w of
                  (Inl err, w') \<Rightarrow> apply_loop n K graph obj (cs_log (OpUpdate obj) w' c)
                | (Inr obj', w') \<Rightarrow> (Inr obj', cs_log (OpUpdate obj) w' c))))"

definition applyResourceToK8s :: "'w k8s \<Rightarrow> GMConnector \<Rightarrow> kobj \<Rightarrow> 'w cs \<Rightarrow> (go_error + kobj) \<times> 'w cs" where
  "applyResourceToK8s K graph obj c = apply_loop (ticks K) K graph obj c"

section \<open>Reconciling a step\<close>

text \<open>The user defined environment of a step; \<open>endpoint\<close> and \<open>nodes\<close> are not part of it, and the name of a
  downstream service becomes its URL.\<close>

fun user_envs :: "'w k8s \<Rightarrow> string \<Rightarrow> Step \<Rightarrow> Router \<Rightarrow> (string, string) gomap \<Rightarrow> go_error + env_var list" where
  "user_envs K graphNs step node [] = Inr []"
| "user_envs K graphNs step node ((name, value) # cfg) =
     (if name = ''endpoint'' \<or> name = ''nodes'' then user_envs K graphNs step node cfg
      else case (if isDownStreamEndpointKey name
                 then getDownstreamSvcEndpoint K graphNs value (findDownStreamService value (Some step) (Some node))
                 else Inr value) of
        Inl err \<Rightarrow> Inl err
      | Inr value' \<Rightarrow>
          (case user_envs K graphNs step node cfg of
             Inl err \<Rightarrow> Inl err
           | Inr envs \<Rightarrow> Inr (\<lparr>ev_name = name, ev_value = value'\<rparr> # envs)))"

text \<open>A write to a nil selector or a nil label map panics.\<close>

definition rename_service :: "'w k8s \<Rightarrow> string \<Rightarrow> kobj \<Rightarrow> (go_error + kobj) go" where
  "rename_service K svc obj =
     (case to_service K obj of
        Inl err \<Rightarrow> Ret (Inl err)
      | Inr s \<Rightarrow>
          (case sv_selector s of
             None \<Rightarrow> Panic
           | Some sel \<Rightarrow> Ret (of_service K (s\<lparr>sv_name := svc, sv_selector := Some (gm_set ''app'' svc sel)\<rparr>))))"

definition rename_deployment :: "string \<Rightarrow> deployment \<Rightarrow> deployment go" where
  "rename_deployment svc d =
     (if svc = [] then Ret d
      else case (dp_matchLabels d, dp_labels d) of
        (Some ml, Some ls) \<Rightarrow>
          Ret (d\<lparr>dp_name := svc @ ''-deployment'', dp_matchLabels := Some (gm_set ''app'' svc ml),
                 dp_labels := Some (gm_set ''app'' svc ls)\<rparr>)
      | _ \<Rightarrow> Panic)"

definition add_envs :: "env_var list \<Rightarrow> deployment \<Rightarrow> deployment" where
  "add_envs envs d =
     (if envs \<noteq> [] then d\<lparr>dp_containers := map (\<lambda>ct. ct\<lparr>ct_env := ct_env ct @ envs\<rparr>) (dp_containers d)\<rparr> else d)"

definition configure_deployment :: "'w k8s \<Rightarrow> string \<Rightarrow> Step \<Rightarrow> Router \<Rightarrow> kobj \<Rightarrow> (go_error + kobj) go" where
  "configure_deployment K graphNs step node obj =
     (case to_deployment K obj of
        Inl err \<Rightarrow> Ret (Inl err)
      | Inr d \<Rightarrow>
          (case rename_deployment (step_service step) d of
             Ret d \<Rightarrow>
               (case user_envs K graphNs step node (case Config (step_target step) of None \<Rightarrow> [] | Some cfg \<Rightarrow> cfg) of
                  Inl err \<Rightarrow> Ret (Inl err)
                | Inr envs \<Rightarrow> Ret (of_deployment K (add_envs envs d)))
           | Panic \<Rightarrow> Panic
           | Unfinished \<Rightarrow> Unfinished))"

definition prepare_object :: "'w k8s \<Rightarrow> string \<Rightarrow> Step \<Rightarrow> Router \<Rightarrow> kobj \<Rightarrow> (go_error + kobj) go" where
  "prepare_object K graphNs step node obj =
     (let ns = (if NameSpace (step_target step) \<noteq> [] then NameSpace (step_target step) else graphNs);
          svc = step_service step;
          obj = (if ns \<noteq> [] then obj\<lparr>ko_namespace := ns\<rparr> else obj)
      in if ko_kind obj = ''Service'' \<and> svc \<noteq> [] then rename_service K svc obj
         else if ko_kind obj = ''Deployment'' then configure_deployment K graphNs step node obj
         else Ret (Inr obj))"

fun resource_loop :: "'w k8s \<Rightarrow> string \<Rightarrow> Step \<Rightarrow> Router \<Rightarrow> GMConnector \<Rightarrow> string list \<Rightarrow> 'w cs \<Rightarrow>
    (go_error + kobj list) go \<times> 'w cs" where
  "resource_loop K graphNs step node graph [] c = (Ret (Inr []), c)"
| "resource_loop K graphNs step node graph (res # resources) c =
     (if res = [] \<or> \<not> str_contains res ''kind:'' then resource_loop K graphNs step node graph resources c
      else case decode_obj K res of
        Inl err \<Rightarrow> (Ret (Inl err), c)
      | Inr obj \<Rightarrow>
          (case prepare_object K graphNs step node obj of
             Ret (Inl err) \<Rightarrow> (Ret (Inl err), c)
           | Ret (Inr obj) \<Rightarrow>
               (case applyResourceToK8s K graph obj c of
                  (Inl err, c) \<Rightarrow> (Ret (Inl err), c)
                | (Inr obj, c) \<Rightarrow>
                    (case resource_loop K graphNs step node graph resources c of
                       (Ret (Inr objs), c) \<Rightarrow> (Ret (Inr (obj # objs)), c)
                     | (Ret (Inl err), c) \<Rightarrow> (Ret (Inl err), c)
                     | (Panic, c) \<Rightarrow> (Panic, c)
                     | (Unfinished, c) \<Rightarrow> (Unfinished, c)))
           | Panic \<Rightarrow> (Panic, c)
           | Unfinished \<Rightarrow> (Unfinished, c)))"

definition reconcileResource :: "'w k8s \<Rightarrow> string \<Rightarrow> Step option \<Rightarrow> Router option \<Rightarrow> GMConnector \<Rightarrow> 'w cs \<Rightarrow>
    (go_error + kobj list) go \<times> 'w cs" where
  "reconcileResource K graphNs stepCfg nodeCfg graph c =
     (case (stepCfg, nodeCfg) of
        (Some step, Some node) \<Rightarrow>
          (case getTemplateBytes K (StepName step) of
             Inl err \<Rightarrow> (Ret (Inl err), c)
           | Inr yamlFile \<Rightarrow> resource_loop K graphNs step node graph (str_split yamlFile ''---'') c)
      | _ \<Rightarrow> (Ret (Inl ''invalid svc config''), c))"

section \<open>Recording an object\<close>

definition resource_key :: "kobj \<Rightarrow> string" where
  "resource_key obj = ko_kind obj @ '':'' @ ko_apiVersion obj @ '':'' @ ko_name obj @ '':'' @ ko_namespace obj"

definition annotate :: "string \<Rightarrow> string \<Rightarrow> GMConnector \<Rightarrow> GMConnector" where
  "annotate key value graph = graph\<lparr>gm_Status := (gm_Status graph)\<lparr>Annotations := gm_set key value (Annotations (gm_Status graph))\<rparr>\<rparr>"

text \<open>\<open>graph.Spec.Nodes[nodeName].Steps[stepIdx].ServiceURL = url\<close>.\<close>

definition set_step_url :: "string \<Rightarrow> nat \<Rightarrow> string \<Rightarrow> GMConnector \<Rightarrow> GMConnector" where
  "set_step_url nodeName stepIdx url graph =
     (let node = node_at (graph_nodes graph) nodeName;
          step = Steps node ! stepIdx;
          node' = node\<lparr>Steps := (Steps node)[stepIdx := step\<lparr>ServiceURL := url\<rparr>]\<rparr>
      in graph\<lparr>gm_Spec := (gm_Spec graph)\<lparr>Nodes := gm_set nodeName node' (graph_nodes graph)\<rparr>\<rparr>)"

definition step_cfg :: "Step \<Rightarrow> string \<Rightarrow> string" where
  "step_cfg step key = (case Config (step_target step) of None \<Rightarrow> [] | Some cfg \<Rightarrow> gm_str cfg key)"

definition recordResource :: "'w k8s \<Rightarrow> GMConnector \<Rightarrow> string \<Rightarrow> nat \<Rightarrow> kobj \<Rightarrow> (go_error option \<times> GMConnector) go" where
  "recordResource K graph nodeName stepIdx obj =
     (let key = resource_key obj; graph = annotate key ''provisioned'' graph in
      if ko_kind obj = ''Service'' then
        (case to_service K obj of
           Inl err \<Rightarrow> Ret (Some (wrap (''Failed to convert service '' @ ko_name obj) err), graph)
         | Inr service \<Rightarrow>
             if graph_nodes graph \<noteq> [] \<and> Steps (node_at (graph_nodes graph) nodeName) \<noteq> [] then
               (if stepIdx < length (Steps (node_at (graph_nodes graph) nodeName)) then
                  (let url = getServiceURL service @ step_cfg (Steps (node_at (graph_nodes graph) nodeName) ! stepIdx) ''endpoint''
                   in Ret (None, annotate key url (set_step_url nodeName stepIdx url graph)))
                else Panic)
             else
               (let url = getServiceURL service; graph = annotate key url graph
                in Ret (None, graph\<lparr>gm_Status := (gm_Status graph)\<lparr>AccessURL := url\<rparr>\<rparr>)))
      else Ret (None, graph))"

section \<open>The router service\<close>

text \<open>\<open>json.Marshal\<close> of the API types: fields in the order of the structs under the names of their tags, empty
  ones with \<open>omitempty\<close> left out (a struct is never empty), maps with sorted keys.\<close>

definition enc_fields :: "(string \<times> string) list \<Rightarrow> string" where
  "enc_fields fs = ''{'' @ str_join '','' (map (\<lambda>kv. enc_string (fst kv) @ '':'' @ snd kv) fs) @ ''}''"

definition opt_str :: "string \<Rightarrow> string \<Rightarrow> (string \<times> string) list" where
  "opt_str k v = (if v = [] then [] else [(k, enc_string v)])"

definition enc_str_map :: "(string, string) gomap \<Rightarrow> string" where
  "enc_str_map m = enc_fields (sort_key fst (map (\<lambda>kv. (fst kv, enc_string (snd kv))) m))"

definition enc_target :: "GMCTarget \<Rightarrow> string" where
  "enc_target t = enc_fields
     (opt_str ''serviceName'' (ServiceName t) @ opt_str ''nameSpace'' (NameSpace t) @
      (case Config t of Some (kv # m) \<Rightarrow> [(''config'', enc_str_map (kv # m))] | _ \<Rightarrow> []) @
      (if IsDownstreamService t then [(''isDownstreamService'', ''true'')] else []))"

definition enc_step :: "Step \<Rightarrow> string" where
  "enc_step s = enc_fields
     (opt_str ''name'' (StepName s) @ opt_str ''nodeName'' (step_node s) @
      [(''internalService'', enc_target (step_target s))] @ opt_str ''externalService'' (step_external s) @
      opt_str ''data'' (Data s) @ opt_str ''condition'' (Condition s) @ opt_str ''dependency'' (Dependency s) @
      opt_str ''serviceUrl'' (ServiceURL s))"

definition enc_router :: "Router \<Rightarrow> string" where
  "enc_router r = enc_fields
     ([(''routerType'', enc_string (routerType r))] @
      (if Steps r = [] then [] else [(''steps'', ''['' @ str_join '','' (map enc_step (Steps r)) @ '']'')]))"

definition enc_router_config :: "RouterConfig \<Rightarrow> string" where
  "enc_router_config rc = enc_fields
     [(''name'', enc_string (rc_Name rc)), (''serviceName'', enc_string (rc_ServiceName rc)),
      (''nameSpace'', enc_string (rc_NameSpace rc)),
      (''config'', case rc_Config rc of None \<Rightarrow> ''null'' | Some m \<Rightarrow> enc_str_map m)]"

text \<open>A \<open>GMConnector\<close> of which only the spec is set.\<close>

definition graph_json :: "GMConnectorSpec \<Rightarrow> string" where
  "graph_json sp = enc_fields
     [(''metadata'', enc_fields [(''creationTimestamp'', ''null'')]),
      (''spec'', enc_fields
         [(''nodes'', enc_fields (sort_key fst (map (\<lambda>nr. (fst nr, enc_router (snd nr))) (Nodes sp)))),
          (''routerConfig'', enc_router_config (routerConfig sp))]),
      (''status'', enc_fields [(''condition'', enc_fields [(''lastUpdateTime'', ''null'')])])]"

record RouterCfg =
  cfg_Namespace :: string
  cfg_SvcName :: string
  cfg_DplymntName :: string
  cfg_NoProxy :: string
  cfg_HttpProxy :: string
  cfg_HttpsProxy :: string
  cfg_GRAPH_JSON :: string

definition cfg_field :: "RouterCfg \<Rightarrow> string \<Rightarrow> string option" where
  "cfg_field cfg f = map_of
     [(''.Namespace'', cfg_Namespace cfg), (''.SvcName'', cfg_SvcName cfg), (''.DplymntName'', cfg_DplymntName cfg),
      (''.NoProxy'', cfg_NoProxy cfg), (''.HttpProxy'', cfg_HttpProxy cfg), (''.HttpsProxy'', cfg_HttpsProxy cfg),
      (''.GRAPH_JSON'', cfg_GRAPH_JSON cfg)] f"

text \<open>\<open>text/template\<close> for templates whose actions are fields, as in \<open>config/gmcrouter/gmc-router.yaml\<close>: the
  text up to the first opening braces, then for each piece after them an action and the text behind it.\<close>

fun template_pieces :: "RouterCfg \<Rightarrow> string list \<Rightarrow> go_error + string" where
  "template_pieces cfg [] = Inr []"
| "template_pieces cfg (p # ps) =
     (case str_index p ''}}'' of
        None \<Rightarrow> Inl ''error parsing template: unclosed action''
      | Some i \<Rightarrow>
          (case cfg_field cfg (trim_space (take i p)) of
             None \<Rightarrow> Inl ''error executing template: can't evaluate field''
           | Some v \<Rightarrow>
               (case template_pieces cfg ps of
                  Inl e \<Rightarrow> Inl e
                | Inr rest \<Rightarrow> Inr (v @ drop (i + 2) p @ rest))))"

definition template_execute :: "RouterCfg \<Rightarrow> string \<Rightarrow> go_error + string" where
  "template_execute cfg tmpl =
     (case str_split tmpl ''{{'' of
        [] \<Rightarrow> Inr []
      | t # ps \<Rightarrow> (case template_pieces cfg ps of Inl e \<Rightarrow> Inl e | Inr rest \<Rightarrow> Inr (t @ rest)))"

definition applyRouterConfigToTemplates :: "string \<Rightarrow> (string, string) gomap \<Rightarrow> string \<Rightarrow> go_error + string" where
  "applyRouterConfigToTemplates step svcCfg yamlFile =
     (if step = ''router'' then
        template_execute \<lparr>cfg_Namespace = gm_str svcCfg ''namespace'', cfg_SvcName = gm_str svcCfg ''svcName'',
          cfg_DplymntName = gm_str svcCfg ''dplymntName'', cfg_NoProxy = gm_str svcCfg ''no_proxy'',
          cfg_HttpProxy = gm_str svcCfg ''http_proxy'', cfg_HttpsProxy = gm_str svcCfg ''https_proxy'',
          cfg_GRAPH_JSON = gm_str svcCfg ''nodes''\<rparr> yamlFile
      else Inr yamlFile)"

definition router_config_map :: "GMConnector \<Rightarrow> (string, string) gomap" where
  "router_config_map graph =
     (let rc = routerConfig (gm_Spec graph);
          escapedString = str_replace_all (graph_json (gm_Spec graph)) [CHR 0x27] [backslash, CHR 0x27];
          routerServiceName = (if rc_ServiceName rc \<noteq> [] then rc_ServiceName rc else ''router-service'')
      in [(''nodes'', [CHR 0x27] @ escapedString @ [CHR 0x27]),
          (''namespace'', if rc_NameSpace rc \<noteq> [] then rc_NameSpace rc else graph_ns graph),
          (''svcName'', routerServiceName), (''dplymntName'', routerServiceName @ ''-deployment'')])"

fun router_loop :: "'w k8s \<Rightarrow> GMConnector \<Rightarrow> string list \<Rightarrow> 'w cs \<Rightarrow> (go_error + GMConnector) go \<times> 'w cs" where
  "router_loop K graph [] c = (Ret (Inr graph), c)"
| "router_loop K graph (res # resources) c =
     (if res = [] \<or> \<not> str_contains res ''kind:'' then router_loop K graph resources c
      else case decode_obj K res of
        Inl err \<Rightarrow> (Ret (Inl err), c)
      | Inr obj \<Rightarrow>
          (case applyResourceToK8s K graph obj c of
             (Inl err, c) \<Rightarrow> (Ret (Inl err), c)
           | (Inr obj, c) \<Rightarrow>
               (case recordResource K graph [] 0 obj of
                  Ret (Some err, graph) \<Rightarrow> (Ret (Inl err), c)
                | Ret (None, graph) \<Rightarrow> router_loop K graph resources c
                | Panic \<Rightarrow> (Panic, c)
                | Unfinished \<Rightarrow> (Unfinished, c))))"

definition reconcileRouterService :: "'w k8s \<Rightarrow> GMConnector \<Rightarrow> 'w cs \<Rightarrow> (go_error + GMConnector) go \<times> 'w cs" where
  "reconcileRouterService K graph c =
     (case getTemplateBytes K ''router'' of
        Inl err \<Rightarrow> (Ret (Inl (wrap ''Failed to get template bytes for router'' err)), c)
      | Inr templateBytes \<Rightarrow>
          (case applyRouterConfigToTemplates ''router'' (router_config_map graph) templateBytes of
             Inl err \<Rightarrow> (Ret (Inl err), c)
           | Inr appliedCfg \<Rightarrow> router_loop K graph (str_split appliedCfg ''---'') c))"

section \<open>Status\<close>

definition nl :: string where "nl = [CHR 0x0A]"

definition deployment_text :: "int \<Rightarrow> dpl_status \<Rightarrow> string" where
  "deployment_text desired st =
     ''Replicas: '' @ string_of_int desired @ '' desired | '' @ string_of_int (ds_updated st) @ '' updated | '' @
     string_of_int (ds_replicas st) @ '' total | '' @ string_of_int (ds_available st) @ '' available | '' @
     string_of_int (ds_unavailable st) @ '' unavailable'' @ nl @ ''Conditions:'' @ nl @
     concat (map (\<lambda>c. ''  Type: '' @ dc_type c @ nl @ ''  Status: '' @ dc_status c @ nl @
       ''  Reason: '' @ dc_reason c @ nl @ ''  Message: '' @ dc_message c @ nl) (ds_conditions st))"

text \<open>The loop over the annotations: the number of ready deployments, of all deployments, and the graph.\<close>

fun status_loop :: "'w k8s \<Rightarrow> string list \<Rightarrow> nat \<Rightarrow> nat \<Rightarrow> GMConnector \<Rightarrow> 'w cs \<Rightarrow> (nat \<times> nat \<times> GMConnector) go \<times> 'w cs" where
  "status_loop K [] readyCnt totalCnt graph c = (Ret (readyCnt, totalCnt, graph), c)"
| "status_loop K (resName # names) readyCnt totalCnt graph c =
     (let parts = str_split resName '':'' in
      if length parts < 4 then (Panic, c)
      else if parts ! 0 = ''Deployment'' then
        (case k_get_deployment K (parts ! 3) (parts ! 2) (cs_world c) of
           (Inl err, w) \<Rightarrow> status_loop K names readyCnt (Suc totalCnt) graph (c\<lparr>cs_world := w\<rparr>)
         | (Inr d, w) \<Rightarrow>
             (case dp_replicas d of
                None \<Rightarrow> (Panic, c\<lparr>cs_world := w\<rparr>)
              | Some desired \<Rightarrow>
                  status_loop K names (if ds_available (dp_status d) = desired then Suc readyCnt else readyCnt) (Suc totalCnt)
                    (annotate resName (deployment_text desired (dp_status d)) graph) (c\<lparr>cs_world := w\<rparr>)))
      else status_loop K names readyCnt totalCnt graph c)"

definition set_status :: "string \<Rightarrow> GMConnector \<Rightarrow> GMConnector" where
  "set_status st graph = graph\<lparr>gm_Status := (gm_Status graph)\<lparr>gs_Status := st\<rparr>\<rparr>"

definition status_text :: "nat \<Rightarrow> int \<Rightarrow> nat \<Rightarrow> string" where
  "status_text readyCnt externalCnt totalCnt =
     string_of_nat readyCnt @ ''/'' @ string_of_int externalCnt @ ''/'' @ string_of_nat totalCnt"

definition atoi_error :: "string \<Rightarrow> go_error" where
  "atoi_error s = ''strconv.Atoi: parsing '' @ [quote] @ s @ [quote] @ '': '' @
     (if parse_nat s = None then ''invalid syntax'' else ''value out of range'')"

text \<open>The graph with the resource version of the second read. When that fails with another error than a missing
  object, the version is the empty one of the zero value.\<close>

definition with_latest_version :: "api_err + GMConnector \<Rightarrow> GMConnector \<Rightarrow> GMConnector" where
  "with_latest_version latest graph =
     (case latest of
        Inl (NotFound e) \<Rightarrow> graph
      | Inl (ApiErr e) \<Rightarrow> graph\<lparr>gm_ObjectMeta := (gm_ObjectMeta graph)\<lparr>om_ResourceVersion := []\<rparr>\<rparr>
      | Inr g \<Rightarrow> graph\<lparr>gm_ObjectMeta := (gm_ObjectMeta graph)\<lparr>om_ResourceVersion := om_ResourceVersion (gm_ObjectMeta g)\<rparr>\<rparr>)"

definition update_status :: "'w k8s \<Rightarrow> GMConnector \<Rightarrow> 'w cs \<Rightarrow> (go_error option \<times> GMConnector) \<times> 'w cs" where
  "update_status K graph c =
     (let (latest, w) = k_get_graph K (graph_ns graph) (graph_name graph) (cs_world c);
          graph = with_latest_version latest graph;
          (err, w) = k_status_update K graph w
      in (case err of
            Some e \<Rightarrow> (Some (wrap (''Failed to Update CR status to '' @ gs_Status (gm_Status graph)) (api_text e)), graph)
          | None \<Rightarrow> (None, graph), cs_log (OpStatus graph) w c))"

text \<open>The second part of the status is the number of external services; a status without one is an index out
  of range.\<close>

definition collectResourceStatus :: "'w k8s \<Rightarrow> GMConnector \<Rightarrow> 'w cs \<Rightarrow> (go_error option \<times> GMConnector) go \<times> 'w cs" where
  "collectResourceStatus K graph c =
     (if Annotations (gm_Status graph) = [] then (Ret (Some ''graph is empty or no annotations'', graph), c)
      else case status_loop K (gm_keys (Annotations (gm_Status graph))) 0 0 graph c of
        (Ret (readyCnt, totalCnt, graph), c) \<Rightarrow>
          (case str_split (gs_Status (gm_Status graph)) ''/'' of
             _ # externalStr # _ \<Rightarrow>
               (case parse_int 64 externalStr of
                  None \<Rightarrow> (Ret (Some (wrap ''Error converting externalResourceCnt to int'' (atoi_error externalStr)), graph), c)
                | Some externalCnt \<Rightarrow>
                    (let (res, c) = update_status K (set_status (status_text readyCnt externalCnt totalCnt) graph) c
                     in (Ret res, c)))
           | _ \<Rightarrow> (Panic, c))
      | (Panic, c) \<Rightarrow> (Panic, c)
      | (Unfinished, c) \<Rightarrow> (Unfinished, c))"

section \<open>Deleting what is no longer recorded\<close>

definition recorded_object :: "string \<Rightarrow> kobj option" where
  "recorded_object key =
     (case str_split key '':'' of
        kind # apiVersion # name # ns # _ \<Rightarrow>
          Some \<lparr>ko_kind = kind, ko_apiVersion = apiVersion, ko_name = name, ko_namespace = ns,
            ko_resourceVersion = [], ko_content = JNull\<rparr>
      | _ \<Rightarrow> None)"

text \<open>A key of fewer than four parts is an index out of range. The error of the deletion is only logged.\<close>

definition deleteRecordedResource :: "'w k8s \<Rightarrow> string \<Rightarrow> 'w cs \<Rightarrow> unit go \<times> 'w cs" where
  "deleteRecordedResource K key c =
     (case recorded_object key of
        None \<Rightarrow> (Panic, c)
      | Some obj \<Rightarrow> (let (err, w) = k_delete K obj (cs_world c) in (Ret (), cs_log (OpDelete obj) w c)))"

fun delete_loop :: "'w k8s \<Rightarrow> string list \<Rightarrow> GMConnector \<Rightarrow> 'w cs \<Rightarrow> unit go \<times> 'w cs" where
  "delete_loop K [] graph c = (Ret (), c)"
| "delete_loop K (k # ks) graph c =
     (if \<not> gm_has (Annotations (gm_Status graph)) k then
        (case deleteRecordedResource K k c of
           (Ret _, c) \<Rightarrow> delete_loop K ks graph c
         | (Panic, c) \<Rightarrow> (Panic, c)
         | (Unfinished, c) \<Rightarrow> (Unfinished, c))
      else delete_loop K ks graph c)"

section \<open>Reconcile\<close>

record reconcile_result =
  rr_requeue :: bool
  rr_err :: "go_error option"

definition no_requeue :: reconcile_result where
  "no_requeue = \<lparr>rr_requeue = False, rr_err = None\<rparr>"

definition requeue_with :: "go_error \<Rightarrow> reconcile_result" where
  "requeue_with err = \<lparr>rr_requeue = True, rr_err = Some err\<rparr>"

fun record_all :: "'w k8s \<Rightarrow> GMConnector \<Rightarrow> string \<Rightarrow> nat \<Rightarrow> kobj list \<Rightarrow> (go_error + GMConnector) go" where
  "record_all K graph nodeName i [] = Ret (Inr graph)"
| "record_all K graph nodeName i (obj # objs) =
     (case recordResource K graph nodeName i obj of
        Ret (Some err, graph) \<Rightarrow> Ret (Inl err)
      | Ret (None, graph) \<Rightarrow> record_all K graph nodeName i objs
      | Panic \<Rightarrow> Panic
      | Unfinished \<Rightarrow> Unfinished)"

text \<open>One step: the graph and the number of external services, or the error of the early return.\<close>

definition reconcile_step :: "'w k8s \<Rightarrow> string \<Rightarrow> Router \<Rightarrow> nat \<Rightarrow> Step \<Rightarrow> GMConnector \<times> nat \<Rightarrow> 'w cs \<Rightarrow>
    (go_error + GMConnector \<times> nat) go \<times> 'w cs" where
  "reconcile_step K nodeName node i step gx c =
     (let (graph, externalService) = gx in
      if step_node step \<noteq> [] then (Ret (Inr (graph, externalService)), c)
      else if step_external step = [] then
        (case reconcileResource K (graph_ns graph) (Some step) (Some node) graph c of
           (Ret (Inl err), c) \<Rightarrow> (Ret (Inl (wrap (''Failed to reconcile service for '' @ StepName step) err)), c)
         | (Ret (Inr objs), c) \<Rightarrow>
             (case record_all K graph nodeName i objs of
                Ret (Inl err) \<Rightarrow> (Ret (Inl (wrap (''Resource created with failure '' @ StepName step) err)), c)
              | Ret (Inr graph) \<Rightarrow> (Ret (Inr (graph, externalService)), c)
              | Panic \<Rightarrow> (Panic, c)
              | Unfinished \<Rightarrow> (Unfinished, c))
         | (Panic, c) \<Rightarrow> (Panic, c)
         | (Unfinished, c) \<Rightarrow> (Unfinished, c))
      else (Ret (Inr (set_step_url nodeName i (step_external step) graph, Suc externalService)), c))"

fun steps_loop :: "'w k8s \<Rightarrow> string \<Rightarrow> Router \<Rightarrow> nat \<Rightarrow> Step list \<Rightarrow> GMConnector \<times> nat \<Rightarrow> 'w cs \<Rightarrow>
    (go_error + GMConnector \<times> nat) go \<times> 'w cs" where
  "steps_loop K nodeName node i [] gx c = (Ret (Inr gx), c)"
| "steps_loop K nodeName node i (step # steps) gx c =
     (case reconcile_step K nodeName node i step gx c of
        (Ret (Inr gx), c) \<Rightarrow> steps_loop K nodeName node (Suc i) steps gx c
      | (Ret (Inl err), c) \<Rightarrow> (Ret (Inl err), c)
      | (Panic, c) \<Rightarrow> (Panic, c)
      | (Unfinished, c) \<Rightarrow> (Unfinished, c))"

fun nodes_loop :: "'w k8s \<Rightarrow> (string, Router) gomap \<Rightarrow> GMConnector \<times> nat \<Rightarrow> 'w cs \<Rightarrow>
    (go_error + GMConnector \<times> nat) go \<times> 'w cs" where
  "nodes_loop K [] gx c = (Ret (Inr gx), c)"
| "nodes_loop K ((nodeName, node) # nodes) gx c =
     (case steps_loop K nodeName node 0 (Steps node) gx c of
        (Ret (Inr gx), c) \<Rightarrow> nodes_loop K nodes gx c
      | (Ret (Inl err), c) \<Rightarrow> (Ret (Inl err), c)
      | (Panic, c) \<Rightarrow> (Panic, c)
      | (Unfinished, c) \<Rightarrow> (Unfinished, c))"

text \<open>The error of the status update is logged; the function returns the error of the read, which is nil.\<close>

fun handleStatusUpdate_loop :: "'w k8s \<Rightarrow> string \<Rightarrow> OwnerReference list \<Rightarrow> 'w cs \<Rightarrow> reconcile_result go \<times> 'w cs" where
  "handleStatusUpdate_loop K ns [] c = (Ret no_requeue, c)"
| "handleStatusUpdate_loop K ns (owner # owners) c =
     (if or_Kind owner = ''GMConnector'' then
        (case k_get_graph K ns (or_Name owner) (cs_world c) of
           (Inl err, w) \<Rightarrow> handleStatusUpdate_loop K ns owners (c\<lparr>cs_world := w\<rparr>)
         | (Inr graph, w) \<Rightarrow>
             (case collectResourceStatus K graph (c\<lparr>cs_world := w\<rparr>) of
                (Ret (Some ue, _), c) \<Rightarrow> (Ret no_requeue, c)
              | (Ret (None, _), c) \<Rightarrow> handleStatusUpdate_loop K ns owners c
              | (Panic, c) \<Rightarrow> (Panic, c)
              | (Unfinished, c) \<Rightarrow> (Unfinished, c)))
      else handleStatusUpdate_loop K ns owners c)"

definition handleStatusUpdate :: "'w k8s \<Rightarrow> deployment \<Rightarrow> 'w cs \<Rightarrow> reconcile_result go \<times> 'w cs" where
  "handleStatusUpdate K d c = handleStatusUpdate_loop K (dp_namespace d) (dp_owners d) c"

definition with_type_meta :: "GMConnector \<Rightarrow> GMConnector" where
  "with_type_meta graph =
     (if gm_TypeMeta graph = zero_type_meta
      then graph\<lparr>gm_TypeMeta := \<lparr>tm_Kind = ''GMConnector'', tm_APIVersion = ''gmc.opea.io/v1alpha3''\<rparr>\<rparr> else graph)"

definition clear_annotations :: "GMConnector \<Rightarrow> GMConnector" where
  "clear_annotations graph = graph\<lparr>gm_Status := (gm_Status graph)\<lparr>Annotations := []\<rparr>\<rparr>"

text \<open>The work on a graph that was found.\<close>

definition reconcile_graph :: "'w k8s \<Rightarrow> GMConnector \<Rightarrow> 'w cs \<Rightarrow> reconcile_result go \<times> 'w cs" where
  "reconcile_graph K graph c =
     (let graph = with_type_meta graph;
          oldAnnotations = Annotations (gm_Status graph);
          graph = clear_annotations graph
      in case nodes_loop K (graph_nodes graph) (graph, 0) c of
           (Ret (Inl err), c) \<Rightarrow> (Ret (requeue_with err), c)
         | (Ret (Inr (graph, externalService)), c) \<Rightarrow>
             (case reconcileRouterService K graph c of
                (Ret (Inl err), c) \<Rightarrow> (Ret (requeue_with (wrap ''Failed to reconcile router service'' err)), c)
              | (Ret (Inr graph), c) \<Rightarrow>
                  (case delete_loop K (gm_keys oldAnnotations) graph c of
                     (Ret _, c) \<Rightarrow>
                       (case collectResourceStatus K (set_status (status_text 0 (int externalService) 0) graph) c of
                          (Ret (Some err, _), c) \<Rightarrow> (Ret (requeue_with (wrap ''Failed to collect service status'' err)), c)
                        | (Ret (None, _), c) \<Rightarrow> (Ret no_requeue, c)
                        | (Panic, c) \<Rightarrow> (Panic, c)
                        | (Unfinished, c) \<Rightarrow> (Unfinished, c))
                   | (Panic, c) \<Rightarrow> (Panic, c)
                   | (Unfinished, c) \<Rightarrow> (Unfinished, c))
              | (Panic, c) \<Rightarrow> (Panic, c)
              | (Unfinished, c) \<Rightarrow> (Unfinished, c))
         | (Panic, c) \<Rightarrow> (Panic, c)
         | (Unfinished, c) \<Rightarrow> (Unfinished, c))"

definition Reconcile :: "'w k8s \<Rightarrow> string \<Rightarrow> string \<Rightarrow> 'w cs \<Rightarrow> reconcile_result go \<times> 'w cs" where
  "Reconcile K ns name c =
     (case k_get_graph K ns name (cs_world c) of
        (Inl (NotFound e), w) \<Rightarrow>
          (case k_get_deployment K ns name w of
             (Inr d, w) \<Rightarrow> handleStatusUpdate K d (c\<lparr>cs_world := w\<rparr>)
           | (Inl err, w) \<Rightarrow> (Ret no_requeue, c\<lparr>cs_world := w\<rparr>))
      | (Inl (ApiErr e), w) \<Rightarrow>
          (Ret \<lparr>rr_requeue = False, rr_err = Some (wrap (''Failed to get GMConnector '' @ name) e)\<rparr>, c\<lparr>cs_world := w\<rparr>)
      | (Inr graph, w) \<Rightarrow> reconcile_graph K graph (c\<lparr>cs_world := w\<rparr>))"

section \<open>Event filters\<close>

text \<open>\<open>reflect.DeepEqual\<close>: maps are equal with the same keys and equal values, in whatever order; a nil map
  equals a nil map only.\<close>

definition map_equal :: "('v \<Rightarrow> 'v \<Rightarrow> bool) \<Rightarrow> (string, 'v) gomap \<Rightarrow> (string, 'v) gomap \<Rightarrow> bool" where
  "map_equal eq m m' =
     (length m = length m' \<and> list_all (\<lambda>kv. case gm_get m' (fst kv) of None \<Rightarrow> False | Some v' \<Rightarrow> eq (snd kv) v') m)"

definition nil_map_equal :: "(string, string) gomap option \<Rightarrow> (string, string) gomap option \<Rightarrow> bool" where
  "nil_map_equal m m' = (case (m, m') of (None, None) \<Rightarrow> True | (Some x, Some y) \<Rightarrow> map_equal (=) x y | _ \<Rightarrow> False)"

definition step_equal :: "Step \<Rightarrow> Step \<Rightarrow> bool" where
  "step_equal s s' =
     (StepName s = StepName s' \<and> step_node s = step_node s' \<and> step_external s = step_external s' \<and>
      step_service s = step_service s' \<and> NameSpace (step_target s) = NameSpace (step_target s') \<and>
      nil_map_equal (Config (step_target s)) (Config (step_target s')) \<and> step_downstream s = step_downstream s' \<and>
      Data s = Data s' \<and> Condition s = Condition s' \<and> Dependency s = Dependency s' \<and> ServiceURL s = ServiceURL s')"

definition router_equal :: "Router \<Rightarrow> Router \<Rightarrow> bool" where
  "router_equal r r' = (routerType r = routerType r' \<and> list_all2 step_equal (Steps r) (Steps r'))"

definition spec_equal :: "GMConnectorSpec \<Rightarrow> GMConnectorSpec \<Rightarrow> bool" where
  "spec_equal sp sp' =
     (map_equal router_equal (Nodes sp) (Nodes sp') \<and>
      rc_Name (routerConfig sp) = rc_Name (routerConfig sp') \<and> rc_ServiceName (routerConfig sp) = rc_ServiceName (routerConfig sp') \<and>
      rc_NameSpace (routerConfig sp) = rc_NameSpace (routerConfig sp') \<and>
      nil_map_equal (rc_Config (routerConfig sp)) (rc_Config (routerConfig sp')))"

definition isMetadataChanged :: "ObjectMeta option \<Rightarrow> ObjectMeta option \<Rightarrow> bool" where
  "isMetadataChanged oldObject newObject =
     (case (oldObject, newObject) of
        (Some old, Some new) \<Rightarrow>
          if om_Name old \<noteq> om_Name new then True
          else if om_Namespace old \<noteq> om_Namespace new then True
          else if \<not> nil_map_equal (om_Labels old) (om_Labels new) then True
          else if om_DeletionTimestamp old \<noteq> om_DeletionTimestamp new then True
          else False
      | (None, None) \<Rightarrow> False
      | _ \<Rightarrow> True)"

datatype watched = WGraph GMConnector | WDeployment deployment | WOther

definition isGMCSpecOrMetadataChanged :: "watched \<Rightarrow> watched \<Rightarrow> bool" where
  "isGMCSpecOrMetadataChanged old new =
     (case (old, new) of
        (WGraph g, WGraph g') \<Rightarrow> \<not> spec_equal (gm_Spec g) (gm_Spec g') \<or> isMetadataChanged (Some (gm_ObjectMeta g)) (Some (gm_ObjectMeta g'))
      | _ \<Rightarrow> True)"

text \<open>The status of the last condition of type \<open>Available\<close>.\<close>

definition available_status :: "dpl_condition list \<Rightarrow> string" where
  "available_status conds = foldl (\<lambda>st c. if dc_type c = ''Available'' then dc_status c else st) ''Unknown'' conds"

definition isDeploymentStatusChanged :: "watched \<Rightarrow> watched \<Rightarrow> bool" where
  "isDeploymentStatusChanged old new =
     (case (old, new) of
        (WDeployment d, WDeployment d') \<Rightarrow>
          if dp_owners d' = [] then False
          else if dp_status d \<noteq> dp_status d' then
            (let newStatus = available_status (ds_conditions (dp_status d'));
                 oldStatus = available_status (ds_conditions (dp_status d))
             in (oldStatus = ''True'' \<and> oldStatus \<noteq> newStatus) \<or> (newStatus = ''True'' \<and> oldStatus \<noteq> newStatus))
          else False
      | _ \<Rightarrow> True)"

end
