(* ===== verification/Controller_Correct.thy ===== *)
theory Controller_Correct
  imports GMC_Controller Validating_Webhook
begin

text \<open>
  What the controller guarantees: the order and the extent of its writes to the cluster, that every
  object it applies is recorded under a key from which it can be deleted, the retries of an update, the
  status it reports and the events it reacts to.
\<close>

section \<open>Recorded keys\<close>

text \<open>The contract of the keys: what was encoded is decoded to the fields that identify it, so different
  objects have different keys.\<close>

locale key_codec =
  fixes encode :: "'a \<Rightarrow> string" and decode :: "string \<Rightarrow> 'b option" and clean :: "'a \<Rightarrow> bool" and view :: "'a \<Rightarrow> 'b"
  assumes decode_encode: "clean x \<Longrightarrow> decode (encode x) = Some (view x)"
begin

lemma encode_inj: "clean x \<Longrightarrow> clean y \<Longrightarrow> encode x = encode y \<Longrightarrow> view x = view y"
  by (metis decode_encode option.inject)

lemma decode_all: "\<forall>x \<in> set xs. clean x \<Longrightarrow> map (\<lambda>x. decode (encode x)) xs = map Some (map view xs)"
  by (simp add: decode_encode)

end

definition identity :: "kobj \<Rightarrow> kobj" where
  "identity obj = obj\<lparr>ko_resourceVersion := [], ko_content := JNull\<rparr>"

text \<open>Names, namespaces, kinds and versions of Kubernetes hold no colon.\<close>

definition clean_object :: "kobj \<Rightarrow> bool" where
  "clean_object obj = (CHR '':'' \<notin> set (ko_kind obj) \<and> CHR '':'' \<notin> set (ko_apiVersion obj) \<and>
     CHR '':'' \<notin> set (ko_name obj) \<and> CHR '':'' \<notin> set (ko_namespace obj))"

lemma resource_key_join:
  "resource_key obj = str_join '':'' [ko_kind obj, ko_apiVersion obj, ko_name obj, ko_namespace obj]"
  by (simp add: resource_key_def)

lemma split_resource_key:
  "clean_object obj \<Longrightarrow> str_split (resource_key obj) '':'' = [ko_kind obj, ko_apiVersion obj, ko_name obj, ko_namespace obj]"
  unfolding resource_key_join by (rule str_split_join) (auto simp: clean_object_def)

interpretation recorded: key_codec resource_key recorded_object clean_object identity
  by unfold_locales (simp add: recorded_object_def split_resource_key identity_def)

section \<open>Writes of a phase\<close>

text \<open>Between two states only objects were applied, and their keys are in \<open>A\<close>.\<close>

definition applied_within :: "string set \<Rightarrow> 'w cs \<Rightarrow> 'w cs \<Rightarrow> bool" where
  "applied_within A c c' = (\<exists>new. cs_ops c' = cs_ops c @ new \<and>
     (\<forall>op \<in> set new. \<exists>obj. (op = OpCreate obj \<or> op = OpUpdate obj) \<and> resource_key obj \<in> A))"

lemma applied_within_refl [simp, intro]: "applied_within A c c"
  by (simp add: applied_within_def)

lemma applied_within_world [simp]:
  "applied_within A (c\<lparr>cs_world := w\<rparr>) c' = applied_within A c c'"
  "applied_within A c (c'\<lparr>cs_world := w\<rparr>) = applied_within A c c'"
  by (simp_all add: applied_within_def)

lemma applied_within_trans [trans]:
  assumes "applied_within A c c'" "applied_within A c' c''"
  shows "applied_within A c c''"
proof -
  from assms obtain n n' where "cs_ops c' = cs_ops c @ n" "cs_ops c'' = cs_ops c' @ n'"
    and "\<forall>op \<in> set n \<union> set n'. \<exists>obj. (op = OpCreate obj \<or> op = OpUpdate obj) \<and> resource_key obj \<in> A"
    unfolding applied_within_def by blast
  then show ?thesis unfolding applied_within_def by (intro exI [of _ "n @ n'"]) auto
qed

lemma applied_within_mono: "applied_within A c c' \<Longrightarrow> A \<subseteq> B \<Longrightarrow> applied_within B c c'"
  unfolding applied_within_def by blast

lemma applied_within_log [simp]:
  "resource_key obj \<in> A \<Longrightarrow> applied_within A c (cs_log (OpCreate obj) w c)"
  "resource_key obj \<in> A \<Longrightarrow> applied_within A c (cs_log (OpUpdate obj) w c)"
  by (auto simp: applied_within_def cs_log_def)

text \<open>What the code relies on of the API server and of \<open>SetControllerReference\<close>: they do not change the fields
  that identify an object.\<close>

definition identity_kept :: "'w k8s \<Rightarrow> bool" where
  "identity_kept K =
     ((\<forall>g obj obj'. set_owner K g obj = Inr obj' \<longrightarrow> resource_key obj' = resource_key obj) \<and>
      (\<forall>obj obj' w w'. k_create K obj w = (Inr obj', w') \<longrightarrow> resource_key obj' = resource_key obj) \<and>
      (\<forall>obj obj' w w'. k_update K obj w = (Inr obj', w') \<longrightarrow> resource_key obj' = resource_key obj))"

lemma identity_keptD:
  assumes "identity_kept K"
  shows "set_owner K g obj = Inr obj' \<Longrightarrow> resource_key obj' = resource_key obj"
    and "k_create K obj w = (Inr obj', w') \<Longrightarrow> resource_key obj' = resource_key obj"
    and "k_update K obj w = (Inr obj', w') \<Longrightarrow> resource_key obj' = resource_key obj"
  using assms unfolding identity_kept_def by blast+

lemma resource_key_version [simp]: "resource_key (obj\<lparr>ko_resourceVersion := v\<rparr>) = resource_key obj"
  by (simp add: resource_key_def)

lemma apply_loop_applied:
  assumes "identity_kept K"
  shows "apply_loop n K g obj c = (r, c') \<Longrightarrow>
    applied_within {resource_key obj} c c' \<and> (\<forall>obj'. r = Inr obj' \<longrightarrow> resource_key obj' = resource_key obj)"
proof (induction n arbitrary: obj c)
  case (Suc n)
  show ?case
  proof (cases "set_owner K g obj")
    case (Inl e)
    with Suc.prems show ?thesis by auto
  next
    case (Inr o1)
    then have o1: "resource_key o1 = resource_key obj" using assms by (simp add: identity_kept_def)
    obtain a w where get: "k_get K (ko_kind o1) (ko_apiVersion o1) (ko_namespace o1) (ko_name o1) (cs_world c) = (a, w)" by fastforce
    consider e where "a = Inl (NotFound e)" | e where "a = Inl (ApiErr e)" | latest where "a = Inr latest"
      by (metis api_err.exhaust sum.exhaust)
    then show ?thesis
    proof cases
      case 1
      obtain x w' where "k_create K o1 w = (x, w')" by fastforce
      with Suc.prems Inr get 1 o1 show ?thesis by (cases x) (auto dest: identity_keptD [OF assms])
    next
      case 2
      with Suc.IH [of o1 "c\<lparr>cs_world := w\<rparr>"] Suc.prems Inr get o1 show ?thesis by simp
    next
      case 3
      let ?o = "o1\<lparr>ko_resourceVersion := ko_resourceVersion latest\<rparr>"
      obtain x w' where x: "k_update K ?o w = (x, w')" by fastforce
      have log: "applied_within {resource_key obj} c (cs_log (OpUpdate ?o) w' c)" using o1 by simp
      show ?thesis
      proof (cases x)
        case (Inl e)
        with Suc.IH [of ?o "cs_log (OpUpdate ?o) w' c"] Suc.prems \<open>set_owner K g obj = Inr o1\<close> get 3 x o1
        show ?thesis by (auto simp: Let_def intro: applied_within_trans [OF log])
      next
        case (Inr o2)
        with Suc.prems \<open>set_owner K g obj = Inr o1\<close> get 3 x o1 log show ?thesis
          by (auto dest: identity_keptD [OF assms])
      qed
    qed
  qed
qed auto

lemma applyResource_applied:
  assumes "identity_kept K" "applyResourceToK8s K g obj c = (Inr obj', c')"
  shows "applied_within {resource_key obj'} c c'"
  using apply_loop_applied [OF assms(1)] assms(2) unfolding applyResourceToK8s_def by fastforce

lemma resource_loop_applied:
  assumes "identity_kept K"
  shows "resource_loop K ns st nd g ress c = (Ret (Inr objs), c') \<Longrightarrow> applied_within (resource_key ` set objs) c c'"
proof (induction ress arbitrary: c objs)
  case (Cons res ress)
  show ?case
  proof (cases "res = [] \<or> \<not> str_contains res ''kind:''")
    case True
    with Cons show ?thesis by simp
  next
    case False
    with Cons.prems obtain obj o1 o2 c1 objs' where
      "applyResourceToK8s K g o1 c = (Inr o2, c1)" "resource_loop K ns st nd g ress c1 = (Ret (Inr objs'), c')" "objs = o2 # objs'"
      by (auto split: sum.splits go.splits prod.splits)
    moreover from this Cons.IH have "applied_within (resource_key ` set objs) c1 c'"
      by (auto intro: applied_within_mono)
    moreover have "applied_within (resource_key ` set objs) c c1"
      using applyResource_applied [OF assms calculation(1)] calculation(3) by (auto intro: applied_within_mono)
    ultimately show ?thesis by (blast intro: applied_within_trans)
  qed
qed simp

section \<open>What is applied is recorded\<close>

definition recorded_keys :: "GMConnector \<Rightarrow> string set" where
  "recorded_keys g = set (gm_keys (Annotations (gm_Status g)))"

lemma recorded_keys_simps [simp]:
  "recorded_keys (annotate k v g) = insert k (recorded_keys g)"
  "recorded_keys (set_step_url n i u g) = recorded_keys g"
  "recorded_keys (g\<lparr>gm_Status := (gm_Status g)\<lparr>AccessURL := u\<rparr>\<rparr>) = recorded_keys g"
  "recorded_keys (set_status st g) = recorded_keys g"
  "recorded_keys (clear_annotations g) = {}"
  by (simp_all add: recorded_keys_def annotate_def gm_keys_set set_step_url_def Let_def set_status_def clear_annotations_def)

lemma recordResource_keys:
  "recordResource K g n i obj = Ret (e, g') \<Longrightarrow> recorded_keys g' = insert (resource_key obj) (recorded_keys g)"
  by (auto simp: recordResource_def Let_def split: if_splits sum.splits)

lemma record_all_keys:
  "record_all K g n i objs = Ret (Inr g') \<Longrightarrow> recorded_keys g' = resource_key ` set objs \<union> recorded_keys g"
proof (induction objs arbitrary: g)
  case (Cons obj objs)
  then obtain g1 where g1: "recordResource K g n i obj = Ret (None, g1)" "record_all K g1 n i objs = Ret (Inr g')"
    by (auto split: go.splits option.splits prod.splits)
  with Cons.IH [OF g1(2)] recordResource_keys [OF g1(1)] show ?case by auto
qed simp

text \<open>A phase of the reconciliation that took the graph from \<open>g\<close> to \<open>g'\<close>.\<close>

definition phase_ok :: "GMConnector \<Rightarrow> GMConnector \<Rightarrow> 'w cs \<Rightarrow> 'w cs \<Rightarrow> bool" where
  "phase_ok g g' c c' = (recorded_keys g \<subseteq> recorded_keys g' \<and> applied_within (recorded_keys g') c c')"

lemma phase_ok_refl [simp]: "phase_ok g g c c"
  by (simp add: phase_ok_def)

lemma phase_ok_trans [trans]: "phase_ok g g1 c c1 \<Longrightarrow> phase_ok g1 g2 c1 c2 \<Longrightarrow> phase_ok g g2 c c2"
  unfolding phase_ok_def by (blast intro: applied_within_trans applied_within_mono)

lemma reconcile_step_phase:
  assumes "identity_kept K" "reconcile_step K n nd i st (g, x) c = (Ret (Inr (g', x')), c')"
  shows "phase_ok g g' c c'"
proof -
  consider "step_node st \<noteq> []" | "step_node st = []" "step_external st \<noteq> []" | "step_node st = []" "step_external st = []" by blast
  then show ?thesis
  proof cases
    case 3
    with assms(2) obtain objs where objs: "reconcileResource K (graph_ns g) (Some st) (Some nd) g c = (Ret (Inr objs), c')"
      "record_all K g n i objs = Ret (Inr g')"
      by (auto simp: reconcile_step_def split: go.splits sum.splits prod.splits)
    then have "applied_within (resource_key ` set objs) c c'"
      using resource_loop_applied [OF assms(1)] by (auto simp: reconcileResource_def split: sum.splits)
    then show ?thesis
      using record_all_keys [OF objs(2)] by (auto simp: phase_ok_def intro: applied_within_mono)
  qed (use assms(2) in \<open>auto simp: reconcile_step_def phase_ok_def\<close>)
qed

lemma steps_loop_phase:
  assumes "identity_kept K"
  shows "steps_loop K n nd i sts (g, x) c = (Ret (Inr (g', x')), c') \<Longrightarrow> phase_ok g g' c c'"
proof (induction sts arbitrary: i g x c)
  case (Cons st sts)
  then obtain g1 x1 c1 where "reconcile_step K n nd i st (g, x) c = (Ret (Inr (g1, x1)), c1)"
    "steps_loop K n nd (Suc i) sts (g1, x1) c1 = (Ret (Inr (g', x')), c')"
    by (auto split: go.splits sum.splits prod.splits)
  with Cons.IH reconcile_step_phase [OF assms] show ?case by (blast intro: phase_ok_trans)
qed simp

lemma nodes_loop_phase:
  assumes "identity_kept K"
  shows "nodes_loop K nds (g, x) c = (Ret (Inr (g', x')), c') \<Longrightarrow> phase_ok g g' c c'"
proof (induction nds arbitrary: g x c)
  case (Cons nd nds)
  then obtain g1 x1 c1 where "steps_loop K (fst nd) (snd nd) 0 (Steps (snd nd)) (g, x) c = (Ret (Inr (g1, x1)), c1)"
    "nodes_loop K nds (g1, x1) c1 = (Ret (Inr (g', x')), c')"
    by (cases nd) (auto split: go.splits sum.splits prod.splits)
  with Cons.IH steps_loop_phase [OF assms] show ?case by (blast intro: phase_ok_trans)
qed simp

lemma router_loop_phase:
  assumes "identity_kept K"
  shows "router_loop K g ress c = (Ret (Inr g'), c') \<Longrightarrow> phase_ok g g' c c'"
proof (induction ress arbitrary: g c)
  case (Cons res ress)
  show ?case
  proof (cases "res = [] \<or> \<not> str_contains res ''kind:''")
    case True
    with Cons show ?thesis by simp
  next
    case False
    with Cons.prems obtain obj o1 c1 g1 where s: "applyResourceToK8s K g obj c = (Inr o1, c1)"
      "recordResource K g [] 0 o1 = Ret (None, g1)" "router_loop K g1 ress c1 = (Ret (Inr g'), c')"
      by (auto split: go.splits sum.splits prod.splits option.splits)
    have "phase_ok g g1 c c1"
      using applyResource_applied [OF assms s(1)] recordResource_keys [OF s(2)]
      by (auto simp: phase_ok_def intro: applied_within_mono)
    with Cons.IH [OF s(3)] show ?thesis by (rule phase_ok_trans [rotated])
  qed
qed simp

lemma reconcileRouterService_phase:
  "identity_kept K \<Longrightarrow> reconcileRouterService K g c = (Ret (Inr g'), c') \<Longrightarrow> phase_ok g g' c c'"
  by (auto simp: reconcileRouterService_def split: sum.splits dest: router_loop_phase)

section \<open>Deletions and the status\<close>

definition stale_keys :: "GMConnector \<Rightarrow> string list \<Rightarrow> string list" where
  "stale_keys g ks = filter (\<lambda>k. k \<notin> recorded_keys g) ks"

lemma delete_loop_ops:
  "delete_loop K ks g c = (Ret u, c') \<Longrightarrow>
     (\<forall>k \<in> set (stale_keys g ks). recorded_object k \<noteq> None) \<and>
     cs_ops c' = cs_ops c @ map (\<lambda>k. OpDelete (the (recorded_object k))) (stale_keys g ks)"
proof (induction ks arbitrary: c)
  case (Cons k ks)
  have has: "gm_has (Annotations (gm_Status g)) k \<longleftrightarrow> k \<in> recorded_keys g"
    by (simp add: gm_has_keys recorded_keys_def)
  show ?case
  proof (cases "k \<in> recorded_keys g")
    case True
    with Cons has show ?thesis by (simp add: stale_keys_def)
  next
    case False
    then have stale: "stale_keys g (k # ks) = k # stale_keys g ks" by (simp add: stale_keys_def)
    from False Cons.prems has obtain obj w where obj: "recorded_object k = Some obj"
      "delete_loop K ks g (cs_log (OpDelete obj) w c) = (Ret u, c')"
      by (auto simp: deleteRecordedResource_def split: option.splits prod.splits)
    from Cons.IH [OF obj(2)] obj(1) stale show ?thesis by (simp add: cs_log_def)
  qed
qed (simp add: stale_keys_def)

lemma status_loop_keys:
  "status_loop K names r t g c = (Ret (r', t', g'), c') \<Longrightarrow> set names \<subseteq> recorded_keys g \<Longrightarrow>
     recorded_keys g' = recorded_keys g \<and> cs_ops c' = cs_ops c"
proof (induction names arbitrary: r t g c)
  case (Cons nm names)
  then show ?case
    by (auto simp: Let_def insert_absorb split: if_splits sum.splits prod.splits option.splits dest!: Cons.IH)
qed simp

lemma with_latest_version_keys [simp]: "recorded_keys (with_latest_version l g) = recorded_keys g"
  by (auto simp: with_latest_version_def recorded_keys_def split: sum.split api_err.split)

lemma update_status_ops:
  "update_status K g c = ((e, g'), c') \<Longrightarrow> recorded_keys g' = recorded_keys g \<and> cs_ops c' = cs_ops c @ [OpStatus g']"
  by (auto simp: update_status_def Let_def cs_log_def split: prod.splits option.splits)

lemma collectResourceStatus_ops:
  assumes "collectResourceStatus K g c = (Ret (None, g'), c')"
  shows "recorded_keys g' = recorded_keys g \<and> cs_ops c' = cs_ops c @ [OpStatus g']"
proof -
  obtain r t g1 c1 where loop: "status_loop K (gm_keys (Annotations (gm_Status g))) 0 0 g c = (Ret (r, t, g1), c1)"
    using assms by (auto simp: collectResourceStatus_def split: if_splits go.splits prod.splits)
  have keys: "recorded_keys g1 = recorded_keys g" "cs_ops c1 = cs_ops c"
    using status_loop_keys [OF loop] by (auto simp: recorded_keys_def)
  obtain e n where "update_status K (set_status (status_text r e t) g1) c1 = ((None, g'), c')"
    using assms loop by (auto simp: collectResourceStatus_def split: if_splits list.splits option.splits prod.splits)
  from update_status_ops [OF this] keys show ?thesis by simp
qed

lemma reconcile_graph_trace:
  assumes "identity_kept K" "reconcile_graph K g c = (Ret no_requeue, c')"
  shows "\<exists>applied g'. cs_ops c' = cs_ops c @ applied @
      map (\<lambda>k. OpDelete (the (recorded_object k))) (stale_keys g' (gm_keys (Annotations (gm_Status g)))) @ [OpStatus g'] \<and>
    (\<forall>op \<in> set applied. \<exists>obj. (op = OpCreate obj \<or> op = OpUpdate obj) \<and> resource_key obj \<in> recorded_keys g')"
proof -
  let ?g = "clear_annotations (with_type_meta g)"
  have old: "Annotations (gm_Status (with_type_meta g)) = Annotations (gm_Status g)" by (simp add: with_type_meta_def)
  obtain g1 x c1 g2 c2 c3 g' where
    s: "nodes_loop K (graph_nodes ?g) (?g, 0) c = (Ret (Inr (g1, x)), c1)" "reconcileRouterService K g1 c1 = (Ret (Inr g2), c2)"
    "delete_loop K (gm_keys (Annotations (gm_Status g))) g2 c2 = (Ret (), c3)"
    "collectResourceStatus K (set_status (status_text 0 (int x) 0) g2) c3 = (Ret (None, g'), c')"
    using assms(2) old
    by (auto simp: reconcile_graph_def Let_def no_requeue_def requeue_with_def split: go.splits sum.splits prod.splits option.splits)
  have "phase_ok ?g g2 c c2"
    using nodes_loop_phase [OF assms(1) s(1)] reconcileRouterService_phase [OF assms(1) s(2)] by (rule phase_ok_trans)
  then obtain applied where "cs_ops c2 = cs_ops c @ applied"
    "\<forall>op \<in> set applied. \<exists>obj. (op = OpCreate obj \<or> op = OpUpdate obj) \<and> resource_key obj \<in> recorded_keys g2"
    by (auto simp: phase_ok_def applied_within_def)
  moreover have "recorded_keys g' = recorded_keys g2" "cs_ops c' = cs_ops c3 @ [OpStatus g']"
    using collectResourceStatus_ops [OF s(4)] by simp_all
  moreover have "stale_keys g' = stale_keys g2" using calculation(3) by (auto simp: stale_keys_def)
  ultimately show ?thesis using delete_loop_ops [OF s(3)] by auto
qed

section \<open>Retries\<close>

fun is_update :: "k8s_op \<Rightarrow> bool" where
  "is_update (OpUpdate obj) = True"
| "is_update _ = False"

lemma apply_loop_bounded:
  "\<exists>new. cs_ops (snd (apply_loop n K g obj c)) = cs_ops c @ new \<and> length new \<le> n \<and> list_all is_update (butlast new)"
proof (induction n arbitrary: obj c)
  case (Suc n)
  show ?case
  proof (cases "set_owner K g obj")
    case (Inr o1)
    obtain a w where get: "k_get K (ko_kind o1) (ko_apiVersion o1) (ko_namespace o1) (ko_name o1) (cs_world c) = (a, w)" by fastforce
    consider e where "a = Inl (NotFound e)" | e where "a = Inl (ApiErr e)" | latest where "a = Inr latest"
      by (metis api_err.exhaust sum.exhaust)
    then show ?thesis
    proof cases
      case 1
      with Inr get show ?thesis by (auto simp: cs_log_def split: prod.split sum.split)
    next
      case 2
      with Suc.IH [of o1 "c\<lparr>cs_world := w\<rparr>"] Inr get show ?thesis by (auto intro: le_SucI)
    next
      case 3
      let ?o = "o1\<lparr>ko_resourceVersion := ko_resourceVersion latest\<rparr>"
      obtain x w' where x: "k_update K ?o w = (x, w')" by fastforce
      obtain new where "cs_ops (snd (apply_loop n K g ?o (cs_log (OpUpdate ?o) w' c))) = cs_ops c @ OpUpdate ?o # new"
        "length new \<le> n" "list_all is_update (butlast new)"
        using Suc.IH [of ?o "cs_log (OpUpdate ?o) w' c"] by (auto simp: cs_log_def)
      with Inr get 3 x show ?thesis
        by (cases x) (auto simp: Let_def cs_log_def intro: exI [of _ "[OpUpdate ?o]"] exI [of _ "OpUpdate ?o # new"])
    qed
  qed simp
qed simp

section \<open>Counting\<close>

definition deployment_key :: "string \<Rightarrow> bool" where
  "deployment_key key = (str_split key '':'' ! 0 = ''Deployment'')"

lemma status_loop_counts:
  "status_loop K names r t g c = (Ret (r', t', g'), c') \<Longrightarrow>
     t' = t + length (filter deployment_key names) \<and> r' \<le> r + length (filter deployment_key names) \<and>
     gs_Status (gm_Status g') = gs_Status (gm_Status g)"
proof (induction names arbitrary: r t g c)
  case (Cons nm names)
  then show ?case
    by (fastforce simp: Let_def deployment_key_def annotate_def split: if_splits sum.splits prod.splits option.splits dest!: Cons.IH)
qed simp

lemma update_status_text: "update_status K g c = ((e, g'), c') \<Longrightarrow> gs_Status (gm_Status g') = gs_Status (gm_Status g)"
  by (auto simp: update_status_def with_latest_version_def Let_def
      split: prod.splits option.splits sum.splits api_err.splits)

lemma collectResourceStatus_text:
  assumes "collectResourceStatus K g c = (Ret (None, g'), c')" "gs_Status (gm_Status g) = status_text a (int x) b" "int x < 2 ^ 63"
  shows "\<exists>r. gs_Status (gm_Status g') = status_text r (int x) (length (filter deployment_key (gm_keys (Annotations (gm_Status g))))) \<and>
    r \<le> length (filter deployment_key (gm_keys (Annotations (gm_Status g))))"
proof -
  let ?n = "length (filter deployment_key (gm_keys (Annotations (gm_Status g))))"
  obtain r t g1 c1 where loop: "status_loop K (gm_keys (Annotations (gm_Status g))) 0 0 g c = (Ret (r, t, g1), c1)"
    using assms(1) by (auto simp: collectResourceStatus_def split: if_splits go.splits prod.splits)
  note cnt = status_loop_counts [OF loop]
  have "status_text a (int x) b = str_join ''/'' [string_of_nat a, string_of_nat x, string_of_nat b]"
    by (simp add: status_text_def string_of_int_def)
  moreover have "str_split (str_join ''/'' [string_of_nat a, string_of_nat x, string_of_nat b]) ''/'' =
      [string_of_nat a, string_of_nat x, string_of_nat b]"
    by (rule str_split_join) (auto simp: string_of_nat_no_char)
  moreover have "parse_int 64 (string_of_nat x) = Some (int x)"
    using assms(3) by (simp add: parse_int_string_of_nat)
  ultimately have "update_status K (set_status (status_text r (int x) t) g1) c1 = ((None, g'), c')"
    using assms(1,2) loop cnt by (auto simp: collectResourceStatus_def split: if_splits prod.splits)
  from update_status_text [OF this] cnt show ?thesis by (auto simp: set_status_def)
qed

definition is_external :: "Step \<Rightarrow> bool" where
  "is_external st = (step_node st = [] \<and> step_external st \<noteq> [])"

lemma steps_loop_external:
  "steps_loop K n nd i sts (g, x) c = (Ret (Inr (g', x')), c') \<Longrightarrow> x' = x + length (filter is_external sts)"
proof (induction sts arbitrary: i g x c)
  case (Cons st sts)
  then obtain g1 x1 c1 where s: "reconcile_step K n nd i st (g, x) c = (Ret (Inr (g1, x1)), c1)"
    "steps_loop K n nd (Suc i) sts (g1, x1) c1 = (Ret (Inr (g', x')), c')"
    by (auto split: go.splits sum.splits prod.splits)
  then have "x1 = x + of_bool (is_external st)"
    by (auto simp: reconcile_step_def is_external_def split: if_splits go.splits sum.splits prod.splits)
  with Cons.IH [OF s(2)] show ?case by simp
qed simp

lemma nodes_loop_external:
  "nodes_loop K nds (g, x) c = (Ret (Inr (g', x')), c') \<Longrightarrow> x' = x + length (filter is_external (all_steps nds))"
proof (induction nds arbitrary: g x c)
  case (Cons nd nds)
  then obtain g1 x1 c1 where s: "steps_loop K (fst nd) (snd nd) 0 (Steps (snd nd)) (g, x) c = (Ret (Inr (g1, x1)), c1)"
    "nodes_loop K nds (g1, x1) c1 = (Ret (Inr (g', x')), c')"
    by (cases nd) (auto split: go.splits sum.splits prod.splits)
  with Cons.IH [OF s(2)] steps_loop_external [OF s(1)] show ?case by (cases nd) simp
qed simp

section \<open>Event filters\<close>

lemma map_equal_refl:
  assumes "gm_wf m" "\<And>k v. (k, v) \<in> set m \<Longrightarrow> eq v v"
  shows "map_equal eq m m"
  using assms gm_get_eq [OF assms(1)] by (auto simp: map_equal_def list_all_iff)

lemma map_equal_perm:
  assumes "gm_wf m" "mset m = mset m'" "\<And>k v. (k, v) \<in> set m \<Longrightarrow> eq v v"
  shows "map_equal eq m m'"
proof -
  have "map_equal eq m m" using assms(1,3) by (rule map_equal_refl)
  then show ?thesis using gm_get_perm [OF assms(1,2)] mset_eq_length [OF assms(2)] by (simp add: map_equal_def)
qed

definition nil_map_wf :: "(string, string) gomap option \<Rightarrow> bool" where
  "nil_map_wf m = (case m of None \<Rightarrow> True | Some x \<Rightarrow> gm_wf x)"

definition spec_wf :: "GMConnectorSpec \<Rightarrow> bool" where
  "spec_wf sp = (gm_wf (Nodes sp) \<and> nil_map_wf (rc_Config (routerConfig sp)) \<and>
     (\<forall>st \<in> set (all_steps (Nodes sp)). nil_map_wf (Config (step_target st))))"

lemma nil_map_equal_refl: "nil_map_wf m \<Longrightarrow> nil_map_equal m m"
  by (auto simp: nil_map_wf_def nil_map_equal_def map_equal_refl split: option.splits)

lemma router_equal_refl: "\<forall>st \<in> set (Steps r). nil_map_wf (Config (step_target st)) \<Longrightarrow> router_equal r r"
  by (auto simp: router_equal_def step_equal_def nil_map_equal_refl list.rel_refl_strong intro!: list.rel_refl_strong)

lemma spec_equal_perm:
  assumes "spec_wf sp" "mset (Nodes sp) = mset nodes"
  shows "spec_equal sp (sp\<lparr>Nodes := nodes\<rparr>)"
proof -
  have "router_equal r r" if "(n, r) \<in> set (Nodes sp)" for n r
    using assms(1) that by (intro router_equal_refl) (force simp: spec_wf_def all_steps_iff)
  then have "map_equal router_equal (Nodes sp) nodes"
    using assms by (intro map_equal_perm) (auto simp: spec_wf_def)
  then show ?thesis using assms(1) by (simp add: spec_equal_def spec_wf_def nil_map_equal_refl)
qed

section \<open>Properties\<close>

text \<open>A concrete cluster for the examples: a store of objects under their keys; every manifest is one service.\<close>

definition demo_obj :: "string \<Rightarrow> string \<Rightarrow> kobj" where
  "demo_obj kind name = \<lparr>ko_kind = kind, ko_apiVersion = ''v1'', ko_name = name, ko_namespace = ''ns'', ko_resourceVersion = [], ko_content = JNull\<rparr>"

definition demo_service :: service where
  "demo_service = \<lparr>sv_kind = ''Service'', sv_name = ''x'', sv_namespace = ''ns'', sv_type = ''ClusterIP'',
     sv_ports = [\<lparr>sp_Port = 80, sp_NodePort = 0\<rparr>], sv_ingress = [], sv_externalName = [], sv_selector = Some [], sv_rest = JNull\<rparr>"

definition demo_k8s :: "(string, kobj) gomap k8s" where
  "demo_k8s = \<lparr>read_file = \<lambda>_. Inr ''kind: Service'', decode_obj = \<lambda>_. Inr (demo_obj ''Service'' ''x''), decode_svc = \<lambda>_. Inr demo_service,
     to_service = \<lambda>obj. Inr (demo_service\<lparr>sv_name := ko_name obj, sv_namespace := ko_namespace obj\<rparr>),
     of_service = \<lambda>s. Inr ((demo_obj ''Service'' (sv_name s))\<lparr>ko_namespace := sv_namespace s\<rparr>),
     to_deployment = \<lambda>_. Inl ''not a deployment'', of_deployment = \<lambda>_. Inl ''not a deployment'', set_owner = \<lambda>g obj. Inr obj,
     ticks = 600, deadline_err = ''timed out while trying to update or create resource'',
     k_get = \<lambda>kind av ns nm w. (case gm_get w (kind @ '':'' @ av @ '':'' @ nm @ '':'' @ ns) of None \<Rightarrow> Inl (NotFound nm) | Some obj \<Rightarrow> Inr obj, w),
     k_create = \<lambda>obj w. (Inr obj, gm_set (resource_key obj) obj w), k_update = \<lambda>obj w. (Inr obj, gm_set (resource_key obj) obj w),
     k_delete = \<lambda>obj w. (None, gm_del (resource_key obj) w), k_get_graph = \<lambda>ns nm w. (Inl (NotFound nm), w),
     k_get_deployment = \<lambda>ns nm w. (Inl (NotFound nm), w), k_status_update = \<lambda>g w. (None, w)\<rparr>"

definition demo_cluster :: "(string, kobj) gomap cs" where
  "demo_cluster = \<lparr>cs_ops = [], cs_world = []\<rparr>"

definition demo_graph :: GMConnector where
  "demo_graph = (example_graph [(''root'', \<lparr>routerType = Sequence, Steps = [example_step ''Llm'' [] ''llm'',
       (example_step ''Tgi'' [] [])\<lparr>StepExecutor := zero_executor\<lparr>ExternalService := ''http://ext''\<rparr>\<rparr>]\<rparr>)])
     \<lparr>gm_Status := zero_status\<lparr>Annotations := [(''ConfigMap:v1:old:ns'', ''provisioned'')]\<rparr>\<rparr>"

lemma demo_reconcile: "fst (reconcile_graph demo_k8s demo_graph demo_cluster) = Ret no_requeue"
  by code_simp

lemma demo_identity_kept: "identity_kept demo_k8s"
  by (simp add: identity_kept_def demo_k8s_def)

text \<open>C2: a successful reconciliation first applies objects, then deletes exactly the objects that were recorded
  before and are not recorded now, then writes the status once; every object it applied is recorded in
  the status it wrote, so that a later run can delete it.\<close>

theorem reconcile_applies_deletes_records:
  assumes "identity_kept K" "reconcile_graph K g c = (Ret no_requeue, c')"
  shows "\<exists>applied g'. cs_ops c' = cs_ops c @ applied @
      map (\<lambda>k. OpDelete (the (recorded_object k))) (stale_keys g' (gm_keys (Annotations (gm_Status g)))) @ [OpStatus g'] \<and>
    (\<forall>op \<in> set applied. \<exists>obj. (op = OpCreate obj \<or> op = OpUpdate obj) \<and> resource_key obj \<in> recorded_keys g')"
  using assms by (rule reconcile_graph_trace)

theorem reconcile_applies_deletes_records_witness:
  "\<exists>c' applied g'. reconcile_graph demo_k8s demo_graph demo_cluster = (Ret no_requeue, c') \<and>
     cs_ops c' = applied @ map (\<lambda>k. OpDelete (the (recorded_object k))) (stale_keys g' [''ConfigMap:v1:old:ns'']) @ [OpStatus g']"
proof -
  obtain c' where c': "reconcile_graph demo_k8s demo_graph demo_cluster = (Ret no_requeue, c')"
    using demo_reconcile by (metis prod.collapse)
  have "gm_keys (Annotations (gm_Status demo_graph)) = [''ConfigMap:v1:old:ns'']" "cs_ops demo_cluster = []"
    by (simp_all add: demo_graph_def gm_keys_def demo_cluster_def)
  with reconcile_applies_deletes_records [OF demo_identity_kept c'] c' show ?thesis by auto
qed



text \<open>C17: what was recorded can be deleted: from the key of an object whose fields hold no colon,
  \<open>deleteRecordedResource\<close> asks the API server to delete exactly that object.\<close>

theorem recorded_object_deleted:
  assumes "clean_object obj"
  shows "deleteRecordedResource K (resource_key obj) c =
    (Ret (), cs_log (OpDelete (identity obj)) (snd (k_delete K (identity obj) (cs_world c))) c)"
  using recorded.decode_encode [OF assms] by (simp add: deleteRecordedResource_def split: prod.split)

theorem recorded_object_deleted_witness:
  "deleteRecordedResource demo_k8s ''Service:v1:x:ns'' demo_cluster =
     (Ret (), \<lparr>cs_ops = [OpDelete (demo_obj ''Service'' ''x'')], cs_world = []\<rparr>)"
proof -
  have "clean_object (demo_obj ''Service'' ''x'')" by code_simp
  moreover have "resource_key (demo_obj ''Service'' ''x'') = ''Service:v1:x:ns''" "identity (demo_obj ''Service'' ''x'') = demo_obj ''Service'' ''x''"
    by code_simp+
  ultimately show ?thesis
    using recorded_object_deleted [of "demo_obj ''Service'' ''x''" demo_k8s demo_cluster]
    by (simp add: cs_log_def demo_k8s_def demo_cluster_def gm_del_def)
qed

text \<open>Applying an object issues at most one write request per tick; all but the last are updates, so a create
  is never followed by another request, and the loop ends with the last tick.\<close>

theorem apply_writes_bounded:
  "\<exists>new. cs_ops (snd (applyResourceToK8s K g obj c)) = cs_ops c @ new \<and> length new \<le> ticks K \<and> list_all is_update (butlast new)"
  unfolding applyResourceToK8s_def by (rule apply_loop_bounded)



text \<open>Every step name the webhook admits has a manifest, with one exception: the name \<open>Router\<close>.\<close>

theorem manifest_for_admitted_names:
  "lookupManifestDir name \<noteq> [] \<longleftrightarrow> name \<in> insert ''router'' (set stepNames - {''Router''})"
proof -
  have "list_all (\<lambda>kv. snd kv \<noteq> []) yamlDict" by code_simp
  then have "lookupManifestDir name \<noteq> [] \<longleftrightarrow> name \<in> set (gm_keys yamlDict)"
    using gm_get_in_set [of yamlDict name]
    by (fastforce simp: lookupManifestDir_def gm_has_keys [symmetric] gm_has_def list_all_iff split: option.splits)
  moreover have "set (gm_keys yamlDict) = insert ''router'' (set stepNames - {''Router''})" by code_simp
  ultimately show ?thesis by simp
qed


text \<open>The status update that a deployment event triggers never reports a failure: whatever goes wrong, the
  reconciliation ends without an error and is not queued again.\<close>

theorem status_update_failure_not_reported:
  assumes "handleStatusUpdate K d c = (Ret r, c')"
  shows "r = no_requeue"
proof -
  have "handleStatusUpdate_loop K ns owners c = (Ret r, c') \<Longrightarrow> r = no_requeue" for ns owners c
    by (induction owners arbitrary: c) (auto split: if_splits sum.splits prod.splits go.splits option.splits)
  with assms show ?thesis by (auto simp: handleStatusUpdate_def)
qed

definition failing_k8s :: "(string, kobj) gomap k8s" where
  "failing_k8s = demo_k8s\<lparr>k_get_graph := \<lambda>ns nm w. (Inr (demo_graph\<lparr>gm_Status := zero_status\<rparr>), w)\<rparr>"

definition owned_deployment :: "string \<Rightarrow> deployment" where
  "owned_deployment st = \<lparr>dp_name = ''d'', dp_namespace = ''ns'', dp_owners = [\<lparr>or_Kind = ''GMConnector'', or_Name = ''g''\<rparr>],
     dp_replicas = Some 1, dp_matchLabels = None, dp_labels = None, dp_containers = [],
     dp_status = \<lparr>ds_updated = 0, ds_replicas = 1, ds_available = 0, ds_unavailable = 1,
       ds_conditions = [\<lparr>dc_type = ''Available'', dc_status = st, dc_reason = [], dc_message = []\<rparr>], ds_other = JNull\<rparr>, dp_rest = JNull\<rparr>"

theorem status_update_failure_not_reported_witness:
  "\<exists>r c'. handleStatusUpdate failing_k8s (owned_deployment ''True'') demo_cluster = (Ret r, c') \<and> r = no_requeue"
proof -
  have "\<exists>r c'. handleStatusUpdate failing_k8s (owned_deployment ''True'') demo_cluster = (Ret r, c')"
    by (simp add: handleStatusUpdate_def owned_deployment_def failing_k8s_def collectResourceStatus_def zero_status_def)
  then show ?thesis using status_update_failure_not_reported by blast
qed

text \<open>A deployment event triggers a status update exactly when the deployment has an owner and became available or
  stopped being available.\<close>

theorem deployment_event_on_availability_change:
  "isDeploymentStatusChanged (WDeployment d) (WDeployment d') \<longleftrightarrow>
     dp_owners d' \<noteq> [] \<and>
     (available_status (ds_conditions (dp_status d)) = ''True'') \<noteq> (available_status (ds_conditions (dp_status d')) = ''True'')"
  by (auto simp: isDeploymentStatusChanged_def Let_def)

text \<open>A graph event that only changes the status, the resource version or the order in which the node map is
  visited triggers no reconciliation.\<close>

theorem graph_event_ignores_status:
  assumes "spec_wf (gm_Spec g)" "nil_map_wf (om_Labels (gm_ObjectMeta g))" "mset (graph_nodes g) = mset nodes"
  shows "isGMCSpecOrMetadataChanged (WGraph g)
    (WGraph (g\<lparr>gm_Status := st, gm_Spec := (gm_Spec g)\<lparr>Nodes := nodes\<rparr>,
       gm_ObjectMeta := (gm_ObjectMeta g)\<lparr>om_ResourceVersion := v\<rparr>\<rparr>)) = False"
  using assms spec_equal_perm [OF assms(1,3)]
  by (simp add: isGMCSpecOrMetadataChanged_def isMetadataChanged_def nil_map_equal_refl)

theorem graph_event_ignores_status_witness:
  "isGMCSpecOrMetadataChanged (WGraph demo_graph)
    (WGraph (demo_graph\<lparr>gm_Status := zero_status, gm_Spec := (gm_Spec demo_graph)\<lparr>Nodes := graph_nodes demo_graph\<rparr>,
       gm_ObjectMeta := (gm_ObjectMeta demo_graph)\<lparr>om_ResourceVersion := ''7''\<rparr>\<rparr>)) = False"
proof (rule graph_event_ignores_status)
  show "spec_wf (gm_Spec demo_graph)" by code_simp
  show "nil_map_wf (om_Labels (gm_ObjectMeta demo_graph))" by code_simp
qed simp

end
