(* ===== verification/Webhook_Setup.thy ===== *)
theory Webhook_Setup
  imports GMC_Controller
begin

text \<open>
  The set-up of the admission webhook (\<open>internal/controller/webhook_config.go\<close>, \<open>cert.go\<close>): at start-up the manager
  makes a certificate for the name of the webhook service and creates or updates the configuration through which
  the API server finds the webhook. The cryptography and the API server are parameters; the state is the log of
  the writes and the cluster.
\<close>

section \<open>Certificates\<close>

definition composeDNSNames :: "string \<Rightarrow> string \<Rightarrow> go_error + (string list \<times> string)" where
  "composeDNSNames webhookName webhookNamespace =
     (if length webhookName = 0 \<or> length webhookNamespace = 0 then Inl ''webhook name or namespace is empty''
      else Inr ([webhookName, webhookName @ ''.'' @ webhookNamespace, webhookName @ ''.'' @ webhookNamespace @ ''.svc''],
                webhookName @ ''.'' @ webhookNamespace @ ''.svc''))"

record x509_template =
  xc_serial :: nat
  xc_orgs :: "string list"
  xc_commonName :: string
  xc_dnsNames :: "string list"
  xc_notBefore :: int
  xc_notAfter :: int
  xc_isCA :: bool
  xc_extKeyUsage :: "string list"
  xc_keyUsage :: "string list"

text \<open>The primitives of \<open>crypto\<close> on a source of randomness \<open>'r\<close> with private keys \<open>'k\<close>: \<open>create_cert t p pub key\<close>
  signs the template \<open>t\<close> for the public part of \<open>pub\<close> with the parent \<open>p\<close> and its key.\<close>

record ('r, 'k) crypto =
  rand_int :: "nat \<Rightarrow> 'r \<Rightarrow> (go_error + nat) \<times> 'r"
  generate_key :: "nat \<Rightarrow> 'r \<Rightarrow> (go_error + 'k) \<times> 'r"
  create_cert :: "x509_template \<Rightarrow> x509_template \<Rightarrow> 'k \<Rightarrow> 'k \<Rightarrow> 'r \<Rightarrow> (go_error + bytes) \<times> 'r"
  pem_encode :: "string \<Rightarrow> bytes \<Rightarrow> go_error + bytes"
  marshal_key :: "'k \<Rightarrow> bytes"
  time_now :: int
  add_year :: "int \<Rightarrow> int"

definition ca_template :: "('r, 'k) crypto \<Rightarrow> string list \<Rightarrow> nat \<Rightarrow> x509_template" where
  "ca_template C orgs serial = \<lparr>xc_serial = serial, xc_orgs = orgs, xc_commonName = [], xc_dnsNames = [],
     xc_notBefore = time_now C, xc_notAfter = add_year C (time_now C), xc_isCA = True,
     xc_extKeyUsage = [''ClientAuth'', ''ServerAuth''], xc_keyUsage = [''DigitalSignature'', ''CertSign'']\<rparr>"

definition cert_template :: "('r, 'k) crypto \<Rightarrow> string list \<Rightarrow> string list \<Rightarrow> string \<Rightarrow> nat \<Rightarrow> x509_template" where
  "cert_template C orgs dnsNames commonName serial = \<lparr>xc_serial = serial, xc_orgs = orgs, xc_commonName = commonName,
     xc_dnsNames = dnsNames, xc_notBefore = time_now C, xc_notAfter = add_year C (time_now C), xc_isCA = False,
     xc_extKeyUsage = [''ClientAuth'', ''ServerAuth''], xc_keyUsage = [''DigitalSignature'']\<rparr>"

text \<open>A serial number below \<open>2 ^ 128\<close>.\<close>

definition new_serial :: "('r, 'k) crypto \<Rightarrow> 'r \<Rightarrow> (go_error + nat) \<times> 'r" where
  "new_serial C r = (case rand_int C (2 ^ 128) r of
     (Inl err, r) \<Rightarrow> (Inl (''failed to generate serial number: '' @ err), r) | (Inr n, r) \<Rightarrow> (Inr n, r))"

definition generateCert :: "('r, 'k) crypto \<Rightarrow> string list \<Rightarrow> string list \<Rightarrow> string \<Rightarrow> 'r \<Rightarrow> go_error + (bytes \<times> bytes \<times> bytes)" where
  "generateCert C orgs dnsNames commonName r =
     (case new_serial C r of
        (Inl err, r) \<Rightarrow> Inl err
      | (Inr serial, r) \<Rightarrow>
     (let ca = ca_template C orgs serial in
      case generate_key C 4096 r of
        (Inl err, r) \<Rightarrow> Inl err
      | (Inr caKey, r) \<Rightarrow>
     (case create_cert C ca ca caKey caKey r of
        (Inl err, r) \<Rightarrow> Inl err
      | (Inr caBytes, r) \<Rightarrow>
     (case pem_encode C ''CERTIFICATE'' caBytes of
        Inl err \<Rightarrow> Inl err
      | Inr caPEM \<Rightarrow>
     (case new_serial C r of
        (Inl err, r) \<Rightarrow> Inl err
      | (Inr serial, r) \<Rightarrow>
     (let newCert = cert_template C orgs dnsNames commonName serial in
      case generate_key C 4096 r of
        (Inl err, r) \<Rightarrow> Inl err
      | (Inr newKey, r) \<Rightarrow>
     (case create_cert C newCert ca newKey caKey r of
        (Inl err, r) \<Rightarrow> Inl err
      | (Inr newCertBytes, r) \<Rightarrow>
     (case pem_encode C ''CERTIFICATE'' newCertBytes of
        Inl err \<Rightarrow> Inl (''failed to encode certificate: '' @ err)
      | Inr newCertPEM \<Rightarrow>
     (case pem_encode C ''RSA PRIVATE KEY'' (marshal_key C newKey) of
        Inl err \<Rightarrow> Inl (''failed to encode key: '' @ err)
      | Inr newKeyPEM \<Rightarrow> Inr (caPEM, newCertPEM, newKeyPEM))))))))))"

text \<open>\<open>keyPair\<close> is \<open>tls.X509KeyPair\<close>.\<close>

definition GenerateX509Cert :: "('r, 'k) crypto \<Rightarrow> (bytes \<Rightarrow> bytes \<Rightarrow> go_error + 'cert) \<Rightarrow> string \<Rightarrow> string \<Rightarrow> 'r \<Rightarrow>
    go_error + ('cert \<times> bytes)" where
  "GenerateX509Cert C keyPair webhookName webhookNamespace r =
     (case composeDNSNames webhookName webhookNamespace of
        Inl err \<Rightarrow> Inl err
      | Inr (dnsNames, commonName) \<Rightarrow>
          (case generateCert C [''opea.dev''] dnsNames commonName r of
             Inl err \<Rightarrow> Inl err
           | Inr (caPEM, certPEM, keyPEM) \<Rightarrow>
               (case keyPair certPEM keyPEM of
                  Inl err \<Rightarrow> Inl err
                | Inr cert \<Rightarrow> Inr (cert, caPEM))))"

definition GetEnvWithDefault :: "(string, string) gomap \<Rightarrow> string \<Rightarrow> string \<Rightarrow> string" where
  "GetEnvWithDefault env key defaultValue =
     (let value = gm_str env key in if length value = 0 then defaultValue else value)"

section \<open>The configuration\<close>

record wh_rule =
  ru_operations :: "string list"
  ru_groups :: "string list"
  ru_versions :: "string list"
  ru_resources :: "string list"
  ru_scope :: "string option"

record wh_service =
  ws_name :: string
  ws_namespace :: string
  ws_path :: "string option"
  ws_port :: "int option"

record webhook =
  wh_name :: string
  wh_caBundle :: bytes
  wh_service_ref :: "wh_service option"
  wh_reviewVersions :: "string list"
  wh_sideEffects :: "string option"
  wh_rules :: "wh_rule list"
  wh_failurePolicy :: "string option"

record webhook_config =
  wc_name :: string
  wc_resourceVersion :: string
  wc_webhooks :: "webhook list"

definition apiGroup :: string where "apiGroup = ''gmc.opea.io''"
definition apiVersion :: string where "apiVersion = ''v1alpha3''"
definition resource :: string where "resource = ''gmconnector''"
definition webhookConfigName :: string where "webhookConfigName = ''validating-webhook-configuration''"

text \<open>\<open>strings.Replace\<close> with at most two replacements: the group has two dots.\<close>

definition validatingPath :: string where
  "validatingPath = ''/validate-'' @ str_replace_all apiGroup ''.'' ''-'' @ ''-'' @ apiVersion @ ''-'' @ resource"

definition desired_config :: "bytes \<Rightarrow> int \<Rightarrow> string \<Rightarrow> string \<Rightarrow> webhook_config" where
  "desired_config caPEM port webhookService webhookNamespace =
     \<lparr>wc_name = webhookConfigName, wc_resourceVersion = [], wc_webhooks =
        [\<lparr>wh_name = ''v'' @ resource @ ''.'' @ apiGroup, wh_caBundle = caPEM,
          wh_service_ref = Some \<lparr>ws_name = webhookService, ws_namespace = webhookNamespace, ws_path = Some validatingPath, ws_port = Some port\<rparr>,
          wh_reviewVersions = [''v1''], wh_sideEffects = Some ''None'',
          wh_rules = [\<lparr>ru_operations = [''CREATE'', ''UPDATE''], ru_groups = [apiGroup], ru_versions = [apiVersion],
            ru_resources = [resource @ ''s''], ru_scope = None\<rparr>],
          wh_failurePolicy = Some ''Fail''\<rparr>]\<rparr>"

record 'w adm =
  wc_get :: "string \<Rightarrow> 'w \<Rightarrow> (api_err + webhook_config) \<times> 'w"
  wc_create :: "webhook_config \<Rightarrow> 'w \<Rightarrow> api_err option \<times> 'w"
  wc_update :: "webhook_config \<Rightarrow> 'w \<Rightarrow> api_err option \<times> 'w"

datatype wc_op = WcCreate webhook_config | WcUpdate webhook_config

record 'w ws =
  ws_ops :: "wc_op list"
  ws_world :: 'w

text \<open>The comparison of the first webhook; the index is out of range when the desired and the found list are
  both empty, which the first test excludes since the desired one has one webhook.\<close>

definition config_unchanged :: "webhook_config \<Rightarrow> webhook_config \<Rightarrow> bool" where
  "config_unchanged found desired =
     (length (wc_webhooks found) = length (wc_webhooks desired) \<and>
      (let f = hd (wc_webhooks found); d = hd (wc_webhooks desired) in
       wh_name f = wh_name d \<and> wh_reviewVersions f = wh_reviewVersions d \<and> wh_sideEffects f = wh_sideEffects d \<and>
       wh_failurePolicy f = wh_failurePolicy d \<and> wh_rules f = wh_rules d \<and> wh_caBundle f = wh_caBundle d \<and>
       wh_service_ref f = wh_service_ref d))"

definition CreateOrUpdateValidatingWebhookConfiguration :: "'w adm \<Rightarrow> bytes \<Rightarrow> int \<Rightarrow> string \<Rightarrow> string \<Rightarrow> 'w ws \<Rightarrow>
    go_error option \<times> 'w ws" where
  "CreateOrUpdateValidatingWebhookConfiguration A caPEM port webhookService webhookNamespace c =
     (let desired = desired_config caPEM port webhookService webhookNamespace in
      case wc_get A webhookConfigName (ws_world c) of
        (Inl (NotFound e), w) \<Rightarrow>
          (let (err, w) = wc_create A desired w; c = c\<lparr>ws_ops := ws_ops c @ [WcCreate desired], ws_world := w\<rparr>
           in (map_option (\<lambda>e. ''failed to create the validatingWebhookConfiguration('' @ webhookConfigName @ ''): '' @ api_text e) err, c))
      | (Inl (ApiErr e), w) \<Rightarrow>
          (Some (''failed to check the validatingWebhookConfiguration('' @ webhookConfigName @ ''): '' @ e), c\<lparr>ws_world := w\<rparr>)
      | (Inr found, w) \<Rightarrow>
          if \<not> config_unchanged found desired then
            (let desired = desired\<lparr>wc_resourceVersion := wc_resourceVersion found\<rparr>;
                 (err, w) = wc_update A desired w; c = c\<lparr>ws_ops := ws_ops c @ [WcUpdate desired], ws_world := w\<rparr>
             in (map_option (\<lambda>e. ''failed to update the validatingWebhookConfiguration('' @ webhookConfigName @ ''): '' @ api_text e) err, c))
          else (None, c\<lparr>ws_world := w\<rparr>))"

section \<open>Convergence\<close>

text \<open>What is assumed of the API server: a read does not change the cluster, and a read after an accepted write
  returns the webhooks that were written, with defaults filled in by \<open>dflt\<close>. Kubernetes documents such
  defaults, among them the scope of a rule, which is \<open>*\<close> when it is not set.\<close>

definition server_defaults :: "(webhook list \<Rightarrow> webhook list) \<Rightarrow> 'w adm \<Rightarrow> bool" where
  "server_defaults dflt A =
     ((\<forall>n w r w'. wc_get A n w = (r, w') \<longrightarrow> w' = w) \<and>
      (\<forall>cfg w w'. wc_create A cfg w = (None, w') \<or> wc_update A cfg w = (None, w') \<longrightarrow>
         (\<exists>found. wc_get A (wc_name cfg) w' = (Inr found, w') \<and> wc_webhooks found = dflt (wc_webhooks cfg))))"

lemma desired_config_name [simp]: "wc_name (desired_config ca p s n) = webhookConfigName"
  by (simp add: desired_config_def)

lemma config_unchanged_webhooks:
  "wc_webhooks found = wc_webhooks found' \<Longrightarrow> config_unchanged found d = config_unchanged found' d"
  by (simp add: config_unchanged_def)

text \<open>After a call that wrote, the stored configuration is the desired one with its defaults.\<close>

lemma config_stored:
  assumes "server_defaults dflt A" "CreateOrUpdateValidatingWebhookConfiguration A ca p s n c = (None, c')" "ws_ops c' \<noteq> ws_ops c"
  shows "\<exists>found. wc_get A webhookConfigName (ws_world c') = (Inr found, ws_world c') \<and>
    wc_webhooks found = dflt (wc_webhooks (desired_config ca p s n))"
proof -
  let ?d = "desired_config ca p s n"
  have store: "\<exists>found. wc_get A (wc_name cfg) w' = (Inr found, w') \<and> wc_webhooks found = dflt (wc_webhooks cfg)"
    if "wc_create A cfg w = (None, w') \<or> wc_update A cfg w = (None, w')" for cfg w w'
    using assms(1) that unfolding server_defaults_def by blast
  obtain r w where get: "wc_get A webhookConfigName (ws_world c) = (r, w)" by fastforce
  consider e where "r = Inl (NotFound e)" | e where "r = Inl (ApiErr e)" | found where "r = Inr found"
    by (metis api_err.exhaust sum.exhaust)
  then show ?thesis
  proof cases
    case 1
    obtain err w1 where cr: "wc_create A ?d w = (err, w1)" by fastforce
    then have "err = None" "ws_world c' = w1"
      using assms(2) get 1 by (auto simp: CreateOrUpdateValidatingWebhookConfiguration_def Let_def)
    with cr store [of ?d w w1] show ?thesis by auto
  next
    case 2
    with assms(2) get show ?thesis by (simp add: CreateOrUpdateValidatingWebhookConfiguration_def)
  next
    case 3
    let ?u = "?d\<lparr>wc_resourceVersion := wc_resourceVersion found\<rparr>"
    obtain err w1 where up: "wc_update A ?u w = (err, w1)" by fastforce
    have "\<not> config_unchanged found ?d"
      using assms(2,3) get 3 by (auto simp: CreateOrUpdateValidatingWebhookConfiguration_def Let_def)
    then have "err = None" "ws_world c' = w1"
      using assms(2) get 3 up by (auto simp: CreateOrUpdateValidatingWebhookConfiguration_def Let_def)
    with up store [of ?u w w1] show ?thesis by auto
  qed
qed

section \<open>Properties\<close>

text \<open>\<open>cert\<close> was loaded from a certificate for \<open>name\<close> that was signed with the key of the CA encoded in \<open>caPEM\<close>.\<close>

definition certified_for :: "('r, 'k) crypto \<Rightarrow> (bytes \<Rightarrow> bytes \<Rightarrow> go_error + 'cert) \<Rightarrow> string \<Rightarrow> 'cert \<Rightarrow> bytes \<Rightarrow> bool" where
  "certified_for C keyPair name cert caPEM = (\<exists>ca leaf caKey key caBytes certBytes certPEM keyPEM r1 r1' r2 r2'.
    create_cert C ca ca caKey caKey r1 = (Inr caBytes, r1') \<and> pem_encode C ''CERTIFICATE'' caBytes = Inr caPEM \<and>
    create_cert C leaf ca key caKey r2 = (Inr certBytes, r2') \<and> pem_encode C ''CERTIFICATE'' certBytes = Inr certPEM \<and>
    pem_encode C ''RSA PRIVATE KEY'' (marshal_key C key) = Inr keyPEM \<and> keyPair certPEM keyPEM = Inr cert \<and>
    xc_isCA ca \<and> \<not> xc_isCA leaf \<and> xc_commonName leaf = name \<and> name \<in> set (xc_dnsNames leaf))"

text \<open>A certificate that was made is for the name under which the API server calls the service.\<close>

lemma generated_certified:
  assumes "GenerateX509Cert C keyPair s n r = Inr (cert, caPEM)"
  shows "certified_for C keyPair (s @ ''.'' @ n @ ''.svc'') cert caPEM"
proof -
  let ?cn = "s @ ''.'' @ n @ ''.svc''"
  obtain dns certPEM keyPEM where
    dns: "generateCert C [''opea.dev''] dns ?cn r = Inr (caPEM, certPEM, keyPEM)" "?cn \<in> set dns" "keyPair certPEM keyPEM = Inr cert"
    using assms by (auto simp: GenerateX509Cert_def composeDNSNames_def split: if_splits sum.splits prod.splits)
  obtain n1 caKey r1 caBytes r1' n2 key r2 certBytes r2' where gen:
    "create_cert C (ca_template C [''opea.dev''] n1) (ca_template C [''opea.dev''] n1) caKey caKey r1 = (Inr caBytes, r1')"
    "pem_encode C ''CERTIFICATE'' caBytes = Inr caPEM"
    "create_cert C (cert_template C [''opea.dev''] dns ?cn n2) (ca_template C [''opea.dev''] n1) key caKey r2 = (Inr certBytes, r2')"
    "pem_encode C ''CERTIFICATE'' certBytes = Inr certPEM" "pem_encode C ''RSA PRIVATE KEY'' (marshal_key C key) = Inr keyPEM"
    using dns(1) by (auto simp: generateCert_def Let_def split: sum.splits prod.splits)
  show ?thesis unfolding certified_for_def
    by (intro exI conjI, rule gen(1), rule gen(2), rule gen(3), rule gen(4), rule gen(5), rule dns(3))
      (use dns(2) in \<open>simp_all add: ca_template_def cert_template_def\<close>)
qed


text \<open>A server that fills in the scope of the rules.\<close>

definition scope_default :: "webhook list \<Rightarrow> webhook list" where
  "scope_default = map (\<lambda>h. h\<lparr>wh_rules := map (\<lambda>r. if ru_scope r = None then r\<lparr>ru_scope := Some ''*''\<rparr> else r) (wh_rules h)\<rparr>)"

definition scope_adm :: "webhook_config option adm" where
  "scope_adm = (let store = \<lambda>cfg w. (None, Some (cfg\<lparr>wc_webhooks := scope_default (wc_webhooks cfg)\<rparr>)) in
     \<lparr>wc_get = \<lambda>n w. (case w of Some cfg \<Rightarrow> if wc_name cfg = n then Inr cfg else Inl (NotFound n) | None \<Rightarrow> Inl (NotFound n), w),
      wc_create = store, wc_update = store\<rparr>)"


end
