(* ===== verification/Go_Json_Roundtrip.thy ===== *)
theory Go_Json_Roundtrip
  imports Go_Json
begin

text \<open>
  The round trip of \<open>Go_Json\<close>: what \<open>json.Marshal\<close> writes, \<open>json.Unmarshal\<close> parses back. \<open>print_tree\<close> is the compact
  print of a JSON text, in which every encoder of the program writes; \<open>parse_print\<close> shows that it parses to
  the same text, for texts without numbers whose strings are valid UTF-8.
\<close>

section \<open>Valid UTF-8\<close>

lemma utf8_len_le: "utf8_len s \<le> length s"
  by (cases s rule: utf8_len.cases) (auto simp: Let_def split: list.split)

lemma utf8_len_pos: "utf8_len s \<noteq> 0 \<Longrightarrow> s \<noteq> []"
  by auto

function valid_utf8 :: "string \<Rightarrow> bool" where
  "valid_utf8 s = (if s = [] then True else if utf8_len s = 0 then False else valid_utf8 (drop (utf8_len s) s))"
  by pat_completeness auto
termination
  by (relation "measure length") (auto dest: utf8_len_pos simp del: utf8_len.simps)

declare valid_utf8.simps [simp del] utf8_len.simps(2) [simp del]

lemma valid_utf8_Nil [simp]: "valid_utf8 []"
  by (subst valid_utf8.simps) simp

lemma utf8_len_ascii [simp]: "ord_of c < 0x80 \<Longrightarrow> utf8_len (c # cs) = 1"
  by (simp add: utf8_len.simps(2))

lemma valid_utf8_ascii: "ord_of c < 0x80 \<Longrightarrow> valid_utf8 (c # cs) = valid_utf8 cs"
  by (subst valid_utf8.simps) simp

lemma valid_utf8_ascii_list: "\<forall>c \<in> set s. ord_of c < 0x80 \<Longrightarrow> valid_utf8 s"
  by (induction s) (auto simp: valid_utf8_ascii)

text \<open>A valid multi-byte character: its bytes are no ASCII characters, and nothing behind it matters.\<close>

lemma utf8_len_multi:
  assumes "utf8_len (c # cs) \<noteq> 0" "\<not> ord_of c < 0x80"
  obtains xs ys where "cs = xs @ ys" "\<forall>x \<in> set (c # xs). 0x80 \<le> ord_of x" "\<forall>zs. utf8_len (c # xs @ zs) = Suc (length xs)"
proof -
  consider (two) "0xC2 \<le> ord_of c" "ord_of c \<le> 0xDF" | (three) "0xE0 \<le> ord_of c" "ord_of c \<le> 0xEF"
    | (four) "0xF0 \<le> ord_of c" "ord_of c \<le> 0xF4"
    using assms by (auto simp: utf8_len.simps(2) Let_def split: if_splits)
  then show thesis
  proof cases
    case two
    then obtain d r where "cs = d # r" "cont_byte d"
      using assms(1) by (auto simp: utf8_len.simps(2) Let_def split: list.splits if_splits)
    with two show thesis
      by (intro that [of "[d]" r]) (auto simp: utf8_len.simps(2) Let_def cont_byte_def)
  next
    case three
    then obtain d e r where cs: "cs = d # e # r" and c: "cont_byte d" "cont_byte e"
        "ord_of c = 0xE0 \<longrightarrow> 0xA0 \<le> ord_of d" "ord_of c = 0xED \<longrightarrow> ord_of d \<le> 0x9F"
      using assms(1) by (auto simp: utf8_len.simps(2) Let_def split: list.splits if_split_asm)
    then have "utf8_len (c # d # e # zs) = 3" for zs
      using three unfolding utf8_len.simps(2) Let_def by simp
    with three cs c show thesis by (intro that [of "[d, e]" r]) (auto simp: cont_byte_def)
  next
    case four
    then obtain d e f r where cs: "cs = d # e # f # r" and c: "cont_byte d" "cont_byte e" "cont_byte f"
        "ord_of c = 0xF0 \<longrightarrow> 0x90 \<le> ord_of d" "ord_of c = 0xF4 \<longrightarrow> ord_of d \<le> 0x8F"
      using assms(1) by (auto simp: utf8_len.simps(2) Let_def split: list.splits if_split_asm)
    then have "utf8_len (c # d # e # f # zs) = 4" for zs
      using four unfolding utf8_len.simps(2) Let_def by simp
    with four cs c show thesis by (intro that [of "[d, e, f]" r]) (auto simp: cont_byte_def)
  qed
qed

section \<open>Strings\<close>

lemma esc_go_0 [simp]: "esc_go False 0 s = esc_go True 0 s"
  by (cases s) simp_all

lemma unq_go_0 [simp]: "unq_go False 0 s = unq_go True 0 s"
  by (cases s) (simp_all split: list.split)

lemma esc_go_copy: "esc_go True (length xs) (xs @ ys) = xs @ esc_go True 0 ys"
  by (induction xs) simp_all

lemma unq_go_copy: "unq_go True (length xs) (xs @ ys) = xs @ unq_go True 0 ys"
  by (induction xs) simp_all

lemma unq_go_drop5: "unq_go False 5 (a # b # c # d # e # ys) = unq_go True 0 ys"
  by (simp add: numeral_eq_Suc)

lemma esc_go_drop2: "esc_go False 2 (a # b # ys) = esc_go True 0 ys"
  by (simp add: numeral_eq_Suc)

lemma scan_high:
  "\<forall>x \<in> set xs. 0x80 \<le> ord_of x \<Longrightarrow> scan_string (xs @ ys) = map_option (\<lambda>(t, r). (xs @ t, r)) (scan_string ys)"
  by (induction xs) (auto simp: option.map_ident option.map_comp comp_def case_prod_unfold)

lemma hex_val_char: "n < 16 \<Longrightarrow> hex_val (hex_char n) = Some n"
  by (auto simp: hex_val_def hex_char_def Let_def)

lemma hex_char_ord: "n < 16 \<Longrightarrow> ord_of (hex_char n) \<in> {48..57} \<union> {97..102}"
  by (auto simp: hex_char_def)

lemma esc_ascii_cases:
  obtains (two) d where "esc_ascii c = [backslash, d]" "d \<in> set (quote # backslash # ''bfnrt'')" "unesc_char d = c"
  | (hex) "esc_ascii c = [backslash, CHR ''u'', CHR ''0'', CHR ''0'', hex_char (ord_of c div 16), hex_char (ord_of c mod 16)]"
  | (self) "esc_ascii c = [c]" "c \<noteq> quote" "c \<noteq> backslash" "\<not> ord_of c < 0x20"
proof -
  consider "c = quote" | "c = backslash" | "c = CHR 0x08" | "c = CHR 0x0C" | "c = CHR 0x0A" | "c = CHR 0x0D" | "c = CHR 0x09"
    | "c \<noteq> quote" "c \<noteq> backslash" "c \<noteq> CHR 0x08" "c \<noteq> CHR 0x0C" "c \<noteq> CHR 0x0A" "c \<noteq> CHR 0x0D" "c \<noteq> CHR 0x09" by blast
  then show thesis
  proof cases
    case 8
    with hex self show thesis
      by (cases "ord_of c < 0x20 \<or> c = CHR ''<'' \<or> c = CHR ''>'' \<or> c = CHR ''&''") (simp_all add: esc_ascii_def)
  qed (use two [of quote] two [of backslash] two [of "CHR ''b''"] two [of "CHR ''f''"] two [of "CHR ''n''"]
    two [of "CHR ''r''"] two [of "CHR ''t''"] in \<open>simp_all add: esc_ascii_def unesc_char_def\<close>)
qed

lemma hex4_esc: "ord_of c < 0x80 \<Longrightarrow>
    hex4 (CHR ''0'' # CHR ''0'' # hex_char (ord_of c div 16) # hex_char (ord_of c mod 16) # ys) = Some (ord_of c)"
  by (simp add: hex_val_char) (simp add: hex_val_def)

lemma esc_ascii_scan:
  "ord_of c < 0x80 \<Longrightarrow> scan_string (esc_ascii c @ ys) = map_option (\<lambda>(t, r). (esc_ascii c @ t, r)) (scan_string ys)"
proof (cases rule: esc_ascii_cases [of c])
  case hex
  have h: "hex_char n \<noteq> quote" "hex_char n \<noteq> backslash" "\<not> ord_of (hex_char n) < 0x20" if "n < 16" for n
    using hex_char_ord [OF that] by auto
  assume c: "ord_of c < 0x80"
  then have "ord_of c div 16 < 16" by simp
  with hex c show ?thesis
    by (simp add: hex4_esc h option.map_comp comp_def case_prod_unfold del: hex4.simps)
qed (auto simp: option.map_comp comp_def case_prod_unfold)

lemma esc_ascii_unquote: "ord_of c < 0x80 \<Longrightarrow> unq_go True 0 (esc_ascii c @ ys) = c # unq_go True 0 ys"
proof (cases rule: esc_ascii_cases [of c])
  case hex
  assume "ord_of c < 0x80"
  with hex show ?thesis
    by (simp add: hex4_esc unq_go_drop5 utf8_encode_def del: hex4.simps)
qed auto


text \<open>The two separators that are written as escapes.\<close>

abbreviation separator :: "char \<Rightarrow> string" where "separator c \<equiv> [CHR 0xE2, CHR 0x80, c]"

lemma separator_len: "c \<in> {CHR 0xA8, CHR 0xA9} \<Longrightarrow> utf8_len (separator c @ zs) = 3"
  by (auto simp: utf8_len.simps(2) cont_byte_def)

lemma separator_esc:
  assumes "(c, d) \<in> {(CHR 0xA8, CHR ''8''), (CHR 0xA9, CHR ''9'')}"
  shows "esc_go True 0 (separator c @ zs) = backslash # ''u202'' @ d # esc_go True 0 zs"
    "scan_string (backslash # ''u202'' @ d # ys) = map_option (\<lambda>(t, r). (backslash # ''u202'' @ d # t, r)) (scan_string ys)"
    "unq_go True 0 (backslash # ''u202'' @ d # ys) = separator c @ unq_go True 0 ys"
proof -
  have h: "hex4 (''202'' @ d # ys) = Some (if d = CHR ''8'' then 0x2028 else 0x2029)" for ys using assms by (auto simp: hex_val_def)
  show "esc_go True 0 (separator c @ zs) = backslash # ''u202'' @ d # esc_go True 0 zs"
    using assms separator_len [of c zs] by (auto simp: esc_go_drop2)
  show "scan_string (backslash # ''u202'' @ d # ys) = map_option (\<lambda>(t, r). (backslash # ''u202'' @ d # t, r)) (scan_string ys)"
    using assms h [of ys] by (auto simp: option.map_comp comp_def case_prod_unfold simp del: hex4.simps)
  have "char_of (226 :: nat) = CHR 0xE2" "char_of (128 :: nat) = CHR 0x80" "char_of (168 :: nat) = CHR 0xA8" "char_of (169 :: nat) = CHR 0xA9"
    by code_simp+
  then show "unq_go True 0 (backslash # ''u202'' @ d # ys) = separator c @ unq_go True 0 ys"
    using assms h [of ys] by (auto simp: unq_go_drop5 utf8_encode_def simp del: hex4.simps)
qed

definition string_ok :: "string \<Rightarrow> bool" where
  "string_ok s = (\<forall>r. scan_string (esc_go True 0 s @ quote # r) = Some (esc_go True 0 s, r) \<and> unq_go True 0 (esc_go True 0 s) = s)"

lemma string_ok_separator: "c \<in> {CHR 0xA8, CHR 0xA9} \<Longrightarrow> string_ok ys \<Longrightarrow> string_ok (separator c @ ys)"
proof -
  assume "c \<in> {CHR 0xA8, CHR 0xA9}" "string_ok ys"
  moreover from this obtain d where "(c, d) \<in> {(CHR 0xA8, CHR ''8''), (CHR 0xA9, CHR ''9'')}" by auto
  note separator_esc [OF this]
  ultimately show ?thesis unfolding string_ok_def by (simp only: append_Cons append_assoc append_Nil) simp
qed

lemma string_ok_raw:
  assumes "\<forall>x \<in> set (c # xs). 0x80 \<le> ord_of x" "\<forall>zs. utf8_len (c # xs @ zs) = Suc (length xs)" "string_ok ys"
    and "\<not> prefix (separator (CHR 0xA8)) (c # xs @ ys)" "\<not> prefix (separator (CHR 0xA9)) (c # xs @ ys)"
  shows "string_ok (c # xs @ ys)"
proof -
  have e: "esc_go True 0 (c # xs @ ys) = (c # xs) @ esc_go True 0 ys" using assms esc_go_copy [of xs ys] by auto
  have "c \<noteq> backslash" using assms(1) by auto
  then have "unq_go True 0 ((c # xs) @ esc_go True 0 ys) = c # xs @ unq_go True 0 (esc_go True 0 ys)"
    using assms(1,2) unq_go_copy [of xs "esc_go True 0 ys"] by simp
  with assms(3) e show ?thesis using scan_high [OF assms(1)] by (simp add: string_ok_def)
qed

lemma valid_string_ok: "valid_utf8 s \<Longrightarrow> string_ok s"
proof (induction s rule: length_induct)
  case (1 s)
  show ?case
  proof (cases s)
    case (Cons c cs)
    show ?thesis
    proof (cases "ord_of c < 0x80")
      case True
      with Cons 1 have "string_ok cs" by (simp add: valid_utf8_ascii)
      with Cons True show ?thesis by (simp add: string_ok_def esc_ascii_scan esc_ascii_unquote)
    next
      case False
      have v: "utf8_len (c # cs) \<noteq> 0" "valid_utf8 (drop (utf8_len (c # cs)) (c # cs))"
        using 1(2) Cons valid_utf8.simps [of "c # cs"] by (auto split: if_splits)
      obtain xs ys where xs: "cs = xs @ ys" "\<forall>x \<in> set (c # xs). 0x80 \<le> ord_of x" "\<forall>zs. utf8_len (c # xs @ zs) = Suc (length xs)"
        by (rule utf8_len_multi [OF v(1) False])
      then have ys: "drop (utf8_len s) s = ys" using Cons by simp
      then have "string_ok ys" using v(2) 1(1) xs(1) Cons by simp
      consider d zs where "d \<in> {CHR 0xA8, CHR 0xA9}" "s = separator d @ zs"
        | "\<not> prefix (separator (CHR 0xA8)) s" "\<not> prefix (separator (CHR 0xA9)) s" unfolding prefix_def by blast
      then show ?thesis
      proof cases
        case 1
        then have "zs = drop (utf8_len s) s" using separator_len [OF 1(1), of zs] by simp
        with 1 ys \<open>string_ok ys\<close> show ?thesis using string_ok_separator by simp
      next
        case 2
        with Cons xs \<open>string_ok ys\<close> show ?thesis using string_ok_raw [of c xs ys] by simp
      qed
    qed
  qed (simp add: string_ok_def)
qed

lemma parse_string:
  assumes "valid_utf8 s"
  obtains t where "scan_string (tl (enc_string s) @ r) = Some (t, r)" "unq_go True 0 t = s"
  using valid_string_ok [OF assms] by (simp add: string_ok_def enc_string_def)

section \<open>Values\<close>

fun print_tree :: "jtree \<Rightarrow> string" where
  "print_tree TNull = ''null''"
| "print_tree (TBool b) = (if b then ''true'' else ''false'')"
| "print_tree (TNum x) = enc_num x"
| "print_tree (TStr s) = enc_string s"
| "print_tree (TArr ts) = ''['' @ str_join '','' (map print_tree ts) @ '']''"
| "print_tree (TObj ms) = ''{'' @ str_join '','' (map (\<lambda>kt. enc_string (fst kt) @ '':'' @ print_tree (snd kt)) ms) @ ''}''"

text \<open>Texts that the round trip is about.\<close>

fun printable :: "jtree \<Rightarrow> bool" where
  "printable (TNum x) = False"
| "printable (TStr s) = valid_utf8 s"
| "printable (TArr ts) = list_all printable ts"
| "printable (TObj ms) = list_all (\<lambda>kt. valid_utf8 (fst kt) \<and> printable (snd kt)) ms"
| "printable _ = True"

abbreviation print_member :: "string \<times> jtree \<Rightarrow> string" where
  "print_member kt \<equiv> enc_string (fst kt) @ '':'' @ print_tree (snd kt)"

definition parses :: "jtree \<Rightarrow> bool" where
  "parses t = (\<forall>n r. length (print_tree t) \<le> n \<longrightarrow> p_value n (print_tree t @ r) = Some (t, r))"

lemma skip_ws_Cons: "\<not> is_json_space c \<Longrightarrow> skip_ws (c # s) = c # s"
  by (simp add: skip_ws_def)

lemma enc_string_Cons: "enc_string s = quote # tl (enc_string s)"
  by (simp add: enc_string_def)

lemma not_space [simp]:
  "\<not> is_json_space quote" "\<not> is_json_space (CHR ''['')" "\<not> is_json_space (CHR ''{'')" "\<not> is_json_space (CHR '','')"
  "\<not> is_json_space (CHR '']'')" "\<not> is_json_space (CHR ''}'')" "\<not> is_json_space (CHR '':'')" "\<not> is_json_space (CHR ''n'')"
  "\<not> is_json_space (CHR ''t'')" "\<not> is_json_space (CHR ''f'')"
  by (simp_all add: is_json_space_def)

lemma print_head: "printable t \<Longrightarrow> \<exists>c s. print_tree t = c # s \<and> \<not> is_json_space c \<and> c \<noteq> CHR '']''"
  by (cases t) (auto simp: enc_string_def)

lemma parses_string: "valid_utf8 s \<Longrightarrow> parses (TStr s)"
  unfolding parses_def
proof (intro allI impI)
  fix n r
  assume s: "valid_utf8 s" "length (print_tree (TStr s)) \<le> n"
  then obtain m where "n = Suc m" by (cases n) (simp_all add: enc_string_def)
  moreover obtain t where "scan_string (tl (enc_string s) @ r) = Some (t, r)" "unq_go True 0 t = s" using parse_string [OF s(1)] .
  ultimately show "p_value n (print_tree (TStr s) @ r) = Some (TStr s, r)"
    by (subst print_tree.simps, subst enc_string_Cons) (simp add: skip_ws_Cons)
qed

lemma p_elems_print:
  assumes "list_all parses ts" "ts \<noteq> []" "length (str_join '','' (map print_tree ts)) < n"
  shows "p_elems n (str_join '','' (map print_tree ts) @ CHR '']'' # r) = Some (ts, r)"
  using assms(2,1,3)
proof (induction ts arbitrary: n rule: list_nonempty_induct)
  case (single t)
  then obtain m where "n = Suc m" by (cases n) simp_all
  with single show ?case by (simp add: parses_def skip_ws_Cons)
next
  case (cons t ts)
  then obtain m u us where m: "n = Suc m" "ts = u # us" by (cases n; cases ts) simp_all
  with cons have "p_elems m (str_join '','' (map print_tree ts) @ CHR '']'' # r) = Some (ts, r)" by simp
  with m cons show ?case by (simp add: parses_def skip_ws_Cons)
qed

lemma p_member:
  assumes "valid_utf8 (fst kt)" "parses (snd kt)" "length (print_tree (snd kt)) \<le> m"
  shows "p_members (Suc m) (print_member kt @ x) = (case skip_ws x of
      d # ds \<Rightarrow> if d = CHR '','' then map_option (\<lambda>(ms, r). (kt # ms, r)) (p_members m ds)
        else if d = CHR ''}'' then Some ([kt], ds) else None
    | [] \<Rightarrow> None)"
proof -
  obtain t where "scan_string (tl (enc_string (fst kt)) @ '':'' @ print_tree (snd kt) @ x) = Some (t, '':'' @ print_tree (snd kt) @ x)"
    "unq_go True 0 t = fst kt" using parse_string [OF assms(1)] .
  moreover have "p_value m (print_tree (snd kt) @ x) = Some (snd kt, x)" using assms(2,3) by (simp add: parses_def)
  ultimately show ?thesis
    by (subst enc_string_Cons) (simp add: skip_ws_Cons Let_def split: list.split)
qed

lemma p_members_print:
  assumes "list_all (\<lambda>kt. valid_utf8 (fst kt) \<and> parses (snd kt)) ms" "ms \<noteq> []" "length (str_join '','' (map print_member ms)) < n"
  shows "p_members n (str_join '','' (map print_member ms) @ CHR ''}'' # r) = Some (ms, r)"
  using assms(2,1,3)
proof (induction ms arbitrary: n rule: list_nonempty_induct)
  case (single kt)
  then obtain m where "n = Suc m" by (cases n) simp_all
  with single show ?case using p_member [of kt m "CHR ''}'' # r"] by (simp add: skip_ws_Cons)
next
  case (cons kt ms)
  then obtain m u us where m: "n = Suc m" "ms = u # us" by (cases n; cases ms) simp_all
  let ?rest = "str_join '','' (map print_member ms) @ CHR ''}'' # r"
  have "p_members m ?rest = Some (ms, r)" using cons m by simp
  moreover have "str_join '','' (map print_member (kt # ms)) @ CHR ''}'' # r = print_member kt @ CHR '','' # ?rest" using m by simp
  ultimately show ?case using cons.prems m p_member [of kt m "CHR '','' # ?rest"] by (simp add: skip_ws_Cons)
qed

lemma parses_arr: "list_all parses ts \<Longrightarrow> list_all printable ts \<Longrightarrow> parses (TArr ts)"
  unfolding parses_def [of "TArr ts"]
proof (intro allI impI)
  fix n r
  assume ts: "list_all parses ts" "list_all printable ts" "length (print_tree (TArr ts)) \<le> n"
  then obtain m where m: "n = Suc m" by (cases n) simp_all
  show "p_value n (print_tree (TArr ts) @ r) = Some (TArr ts, r)"
  proof (cases ts)
    case (Cons t us)
    then obtain c s where "print_tree t = c # s" "\<not> is_json_space c" "c \<noteq> CHR '']''" using ts(2) print_head [of t] by auto
    then obtain s' where s': "str_join '','' (map print_tree ts) @ CHR '']'' # r = c # s'" "skip_ws (c # s') = c # s'"
      using Cons by (cases us) (auto simp: skip_ws_Cons)
    then have "p_elems m (c # s') = Some (ts, r)" using p_elems_print [of ts m r] ts m Cons by simp
    with s' m \<open>c \<noteq> CHR '']''\<close> show ?thesis by (simp add: skip_ws_Cons)
  qed (simp add: m skip_ws_Cons)
qed

lemma parses_obj: "list_all (\<lambda>kt. valid_utf8 (fst kt) \<and> parses (snd kt)) ms \<Longrightarrow> parses (TObj ms)"
  unfolding parses_def [of "TObj ms"]
proof (intro allI impI)
  fix n r
  assume ms: "list_all (\<lambda>kt. valid_utf8 (fst kt) \<and> parses (snd kt)) ms" "length (print_tree (TObj ms)) \<le> n"
  then obtain m where m: "n = Suc m" by (cases n) simp_all
  show "p_value n (print_tree (TObj ms) @ r) = Some (TObj ms, r)"
  proof (cases ms)
    case (Cons kt us)
    then obtain s' where s': "str_join '','' (map print_member ms) @ CHR ''}'' # r = quote # s'"
      by (cases us) (simp_all add: enc_string_def)
    then have "p_members m (quote # s') = Some (ms, r)" using p_members_print [of ms m r] ms m Cons by simp
    with s' m show ?thesis by (simp add: skip_ws_Cons)
  qed (simp add: m skip_ws_Cons)
qed

lemma parses_literals: "parses TNull" "parses (TBool b)"
proof -
  have "p_value n (''null'' @ r) = Some (TNull, r)" "p_value n (''true'' @ r) = Some (TBool True, r)"
    "p_value n (''false'' @ r) = Some (TBool False, r)" if "4 \<le> n" for n r
    using that by (cases n; simp add: p_literal_def skip_ws_Cons)+
  then show "parses TNull" "parses (TBool b)" by (auto simp: parses_def)
qed

lemma printable_parses: "printable t \<Longrightarrow> parses t"
proof (induction t)
  case (TObj ms)
  then show ?case by (intro parses_obj) (force simp: list_all_iff)
qed (auto intro: parses_string parses_arr parses_literals simp: list_all_iff)

lemma parse_print: "printable t \<Longrightarrow> parse_json (print_tree t) = Some t"
proof -
  assume "printable t"
  then have "p_value (2 * length (print_tree t) + 2) (print_tree t @ []) = Some (t, [])"
    using printable_parses [of t] by (simp add: parses_def del: p_value.simps append_Nil2)
  then show ?thesis by (simp add: parse_json_def skip_ws_def)
qed

end
