(* ===== verification/Graph_Handover.thy ===== *)
theory Graph_Handover
  imports Router_Main GMC_Controller Go_Json_Roundtrip
begin

text \<open>
  From the controller to the router: \<open>reconcileRouterService\<close> encodes the graph as JSON and puts it as an argument into the
  manifest of the router, whose \<open>main\<close> decodes it (\<open>Router_Main\<close>). The decoded graph is the encoded one, up to what JSON
  does not carry (\<open>canon_spec\<close>), and routes alike. The locale \<open>canonical_exec\<close> is what the pipelines need for
  the latter; the execution of a step interprets it.
\<close>

section \<open>What the controller writes\<close>

text \<open>The text of \<open>graph_json\<close> as a tree.\<close>

definition opt_tree :: "string \<Rightarrow> string \<Rightarrow> (string \<times> jtree) list" where
  "opt_tree k v = (if v = [] then [] else [(k, TStr v)])"

definition str_map_tree :: "(string, string) gomap \<Rightarrow> jtree" where
  "str_map_tree m = TObj (map (\<lambda>kv. (fst kv, TStr (snd kv))) (sort_key fst m))"

definition target_tree :: "GMCTarget \<Rightarrow> jtree" where
  "target_tree t = TObj
     (opt_tree ''serviceName'' (ServiceName t) @ opt_tree ''nameSpace'' (NameSpace t) @
      (case Config t of Some (kv # m) \<Rightarrow> [(''config'', str_map_tree (kv # m))] | _ \<Rightarrow> []) @
      (if IsDownstreamService t then [(''isDownstreamService'', TBool True)] else []))"

definition step_tree :: "Step \<Rightarrow> jtree" where
  "step_tree s = TObj
     (opt_tree ''name'' (StepName s) @ opt_tree ''nodeName'' (step_node s) @
      [(''internalService'', target_tree (step_target s))] @ opt_tree ''externalService'' (step_external s) @
      opt_tree ''data'' (Data s) @ opt_tree ''condition'' (Condition s) @ opt_tree ''dependency'' (Dependency s) @
      opt_tree ''serviceUrl'' (ServiceURL s))"

definition router_tree :: "Router \<Rightarrow> jtree" where
  "router_tree r = TObj
     ([(''routerType'', TStr (routerType r))] @
      (if Steps r = [] then [] else [(''steps'', TArr (map step_tree (Steps r)))]))"

definition router_config_tree :: "RouterConfig \<Rightarrow> jtree" where
  "router_config_tree rc = TObj
     [(''name'', TStr (rc_Name rc)), (''serviceName'', TStr (rc_ServiceName rc)), (''nameSpace'', TStr (rc_NameSpace rc)),
      (''config'', case rc_Config rc of None \<Rightarrow> TNull | Some m \<Rightarrow> str_map_tree m)]"

definition spec_tree :: "GMConnectorSpec \<Rightarrow> jtree" where
  "spec_tree sp = TObj
     [(''nodes'', TObj (map (\<lambda>nr. (fst nr, router_tree (snd nr))) (sort_key fst (Nodes sp)))),
      (''routerConfig'', router_config_tree (routerConfig sp))]"

definition null_time :: "string \<Rightarrow> jtree" where
  "null_time k = TObj [(k, TNull)]"

definition graph_tree :: "GMConnectorSpec \<Rightarrow> jtree" where
  "graph_tree sp = TObj
     [(''metadata'', null_time ''creationTimestamp''), (''spec'', spec_tree sp),
      (''status'', TObj [(''condition'', null_time ''lastUpdateTime'')])]"

lemma sort_key_map_snd: "sort_key fst (map (\<lambda>kv. (fst kv, f (snd kv))) m) = map (\<lambda>kv. (fst kv, f (snd kv))) (sort_key fst m)"
proof -
  have ins: "insort_key fst (fst kv, f (snd kv)) (map (\<lambda>kv. (fst kv, f (snd kv))) xs) =
      map (\<lambda>kv. (fst kv, f (snd kv))) (insort_key fst kv xs)" for kv xs
    by (induction xs) simp_all
  show ?thesis by (induction m) (simp_all add: ins)
qed

lemma enc_fields_print: "enc_fields (map (\<lambda>kt. (fst kt, print_tree (snd kt))) ms) = print_tree (TObj ms)"
  by (simp add: enc_fields_def comp_def)

lemma print_opt_tree: "map (\<lambda>kt. (fst kt, print_tree (snd kt))) (opt_tree k v) = opt_str k v"
  by (simp add: opt_tree_def opt_str_def)

lemma print_str_map: "print_tree (str_map_tree m) = enc_str_map m"
  by (simp add: str_map_tree_def enc_str_map_def sort_key_map_snd enc_fields_def comp_def)

lemma print_target: "print_tree (target_tree t) = enc_target t"
  unfolding target_tree_def enc_fields_print [symmetric] map_append print_opt_tree enc_target_def
  by (auto simp: print_str_map split: option.split list.split)

lemma print_step: "print_tree (step_tree s) = enc_step s"
  unfolding step_tree_def enc_fields_print [symmetric] map_append print_opt_tree enc_step_def by (simp add: print_target)

lemma print_router: "print_tree (router_tree r) = enc_router r"
  unfolding router_tree_def enc_fields_print [symmetric] map_append enc_router_def by (simp add: print_step comp_def)

lemma print_router_config: "print_tree (router_config_tree rc) = enc_router_config rc"
  unfolding router_config_tree_def enc_fields_print [symmetric] enc_router_config_def
  by (auto simp: print_str_map split: option.split)

lemma print_graph: "print_tree (graph_tree sp) = graph_json sp"
  by (simp add: graph_tree_def spec_tree_def null_time_def graph_json_def sort_key_map_snd comp_def
      print_router print_router_config enc_fields_print [symmetric] del: print_tree.simps(6))

section \<open>What the router reads\<close>

text \<open>A graph as JSON carries it: maps in the order of their keys, and no difference between an empty and a missing
  configuration of a service.\<close>

definition canon_target :: "GMCTarget \<Rightarrow> GMCTarget" where
  "canon_target t = t\<lparr>Config := (case Config t of Some (kv # m) \<Rightarrow> Some (sort_key fst (kv # m)) | _ \<Rightarrow> None)\<rparr>"

definition canon_step :: "Step \<Rightarrow> Step" where
  "canon_step s = s\<lparr>StepExecutor := (StepExecutor s)\<lparr>InternalService := canon_target (step_target s)\<rparr>\<rparr>"

definition canon_router :: "Router \<Rightarrow> Router" where
  "canon_router r = r\<lparr>Steps := map canon_step (Steps r)\<rparr>"

definition canon_router_config :: "RouterConfig \<Rightarrow> RouterConfig" where
  "canon_router_config rc = rc\<lparr>rc_Config := map_option (sort_key fst) (rc_Config rc)\<rparr>"

definition canon_spec :: "GMConnectorSpec \<Rightarrow> GMConnectorSpec" where
  "canon_spec sp = \<lparr>Nodes = map (\<lambda>nr. (fst nr, canon_router (snd nr))) (sort_key fst (Nodes sp)),
     routerConfig = canon_router_config (routerConfig sp)\<rparr>"

text \<open>What the round trip needs of a graph: Go maps have each key once, and strings are valid UTF-8, as the API server
  has decoded them from JSON.\<close>

definition str_map_ok :: "(string, string) gomap \<Rightarrow> bool" where
  "str_map_ok m = (gm_wf m \<and> list_all (\<lambda>kv. valid_utf8 (fst kv) \<and> valid_utf8 (snd kv)) m)"

definition target_ok :: "GMCTarget \<Rightarrow> bool" where
  "target_ok t = (valid_utf8 (ServiceName t) \<and> valid_utf8 (NameSpace t) \<and> (case Config t of None \<Rightarrow> True | Some m \<Rightarrow> str_map_ok m))"

definition step_ok :: "Step \<Rightarrow> bool" where
  "step_ok s = (target_ok (step_target s) \<and> list_all valid_utf8
     [StepName s, step_node s, step_external s, Data s, Condition s, Dependency s, ServiceURL s])"

definition router_ok :: "Router \<Rightarrow> bool" where
  "router_ok r = (valid_utf8 (routerType r) \<and> list_all step_ok (Steps r))"

definition router_config_ok :: "RouterConfig \<Rightarrow> bool" where
  "router_config_ok rc = (list_all valid_utf8 [rc_Name rc, rc_ServiceName rc, rc_NameSpace rc] \<and>
     (case rc_Config rc of None \<Rightarrow> True | Some m \<Rightarrow> str_map_ok m))"

definition spec_ok :: "GMConnectorSpec \<Rightarrow> bool" where
  "spec_ok sp = (gm_wf (Nodes sp) \<and> list_all (\<lambda>nr. valid_utf8 (fst nr) \<and> router_ok (snd nr)) (Nodes sp) \<and>
     router_config_ok (routerConfig sp))"

lemma printable_opt: "valid_utf8 v \<Longrightarrow> valid_utf8 k \<Longrightarrow> list_all (\<lambda>kt. valid_utf8 (fst kt) \<and> printable (snd kt)) (opt_tree k v)"
  by (simp add: opt_tree_def)

lemma valid_names: "list_all valid_utf8 [''serviceName'', ''nameSpace'', ''config'', ''isDownstreamService'', ''name'', ''nodeName'',
    ''internalService'', ''externalService'', ''data'', ''condition'', ''dependency'', ''serviceUrl'', ''routerType'', ''steps'',
    ''nodes'', ''routerConfig'', ''metadata'', ''spec'', ''status'', ''creationTimestamp'', ''lastUpdateTime'']"
  by (simp add: valid_utf8_ascii_list)

lemma printable_str_map: "str_map_ok m \<Longrightarrow> printable (str_map_tree m)"
  by (auto simp: str_map_tree_def str_map_ok_def list_all_iff)

lemma printable_target: "target_ok t \<Longrightarrow> printable (target_tree t)"
  using valid_names by (auto simp: target_ok_def target_tree_def printable_opt printable_str_map split: option.splits list.split)

lemma printable_step: "step_ok s \<Longrightarrow> printable (step_tree s)"
  using valid_names by (simp add: step_ok_def step_tree_def printable_opt printable_target)

lemma printable_router: "router_ok r \<Longrightarrow> printable (router_tree r)"
  using valid_names by (auto simp: router_ok_def router_tree_def list_all_iff printable_step)

lemma printable_router_config: "router_config_ok rc \<Longrightarrow> printable (router_config_tree rc)"
  using valid_names by (auto simp: router_config_ok_def router_config_tree_def printable_str_map split: option.split)

lemma printable_graph: "spec_ok sp \<Longrightarrow> printable (graph_tree sp)"
  using valid_names by (auto simp: spec_ok_def graph_tree_def spec_tree_def null_time_def list_all_iff printable_router printable_router_config)

lemma parse_graph_json: "spec_ok sp \<Longrightarrow> parse_json (graph_json sp) = Some (graph_tree sp)"
  using parse_print [OF printable_graph] by (simp add: print_graph)

text \<open>Decoding the members one after another.\<close>

lemma fold_opt_append: "fold_opt f (xs @ ys) v = Option.bind (fold_opt f xs v) (fold_opt f ys)"
proof (induction xs arbitrary: v)
  case (Cons x xs)
  then show ?case by (cases "f x v") simp_all
qed simp

lemma fold_opt_tree: "fold_opt (dec_member fs) (opt_tree k s) v = (if s = [] then Some v else dec_member fs (k, TStr s) v)"
  by (cases "dec_member fs (k, TStr s) v") (simp_all add: opt_tree_def)

lemma field_names:
  "fold_name ''serviceName'' = ''SERVICENAME''" "fold_name ''nameSpace'' = ''NAMESPACE''" "fold_name ''config'' = ''CONFIG''"
  "fold_name ''isDownstreamService'' = ''ISDOWNSTREAMSERVICE''" "fold_name ''name'' = ''NAME''" "fold_name ''nodeName'' = ''NODENAME''"
  "fold_name ''internalService'' = ''INTERNALSERVICE''" "fold_name ''externalService'' = ''EXTERNALSERVICE''"
  "fold_name ''data'' = ''DATA''" "fold_name ''condition'' = ''CONDITION''" "fold_name ''dependency'' = ''DEPENDENCY''"
  "fold_name ''serviceUrl'' = ''SERVICEURL''" "fold_name ''routerType'' = ''ROUTERTYPE''" "fold_name ''steps'' = ''STEPS''"
  "fold_name ''nodes'' = ''NODES''" "fold_name ''routerConfig'' = ''ROUTERCONFIG''" "fold_name ''metadata'' = ''METADATA''"
  "fold_name ''spec'' = ''SPEC''" "fold_name ''status'' = ''STATUS''" "fold_name ''lastUpdateTime'' = ''LASTUPDATETIME''"
  "fold_name ''kind'' = ''KIND''" "fold_name ''apiVersion'' = ''APIVERSION''" "fold_name ''type'' = ''TYPE''"
  "fold_name ''message'' = ''MESSAGE''" "fold_name ''reason'' = ''REASON''"
  by code_simp+

lemmas dec_simps = dec_struct_def dec_member_def field_names into_def into_executor_def dec_string_def dec_bool_def

text \<open>A map of which every entry is decoded gets the decoded entries, in the order of the text.\<close>

lemma dec_map_entries:
  assumes "distinct (map fst m)" "\<forall>(k, v) \<in> set m. d (f v) z = Some (g v)" "set (map fst m) \<inter> set (gm_keys acc) = {}"
  shows "fold_opt (\<lambda>kt m. map_option (\<lambda>x. gm_set (fst kt) x m) (d (snd kt) z)) (map (\<lambda>kv. (fst kv, f (snd kv))) m) acc =
    Some (acc @ map (\<lambda>kv. (fst kv, g (snd kv))) m)"
  using assms
proof (induction m arbitrary: acc)
  case (Cons kv m)
  then have "gm_set (fst kv) (g (snd kv)) acc = acc @ [(fst kv, g (snd kv))]" by (intro gm_set_fresh) auto
  moreover have "set (map fst m) \<inter> set (gm_keys (acc @ [(fst kv, g (snd kv))])) = {}" using Cons.prems by (auto simp: gm_keys_def)
  ultimately show ?case using Cons by (cases kv) (auto simp: gm_keys_def)
qed simp

lemma dec_map_null: "dec_map d z TNull m = Some None"
  by (simp add: dec_map_def)

lemma distinct_sort_key: "distinct (map fst (sort_key fst m)) = gm_wf m"
  by (metis gm_keys_def gm_wf_def mset_eq_imp_distinct_iff mset_map mset_sort)

lemma dec_str_map: "gm_wf m \<Longrightarrow> dec_map dec_string [] (str_map_tree m) None = Some (Some (sort_key fst m))"
  using dec_map_entries [of "sort_key fst m" dec_string TStr "[]" id "[]"]
  by (auto simp: dec_map_def str_map_tree_def dec_string_def distinct_sort_key)

lemma dec_target_tree: "target_ok t \<Longrightarrow> dec_target (target_tree t) zero_target = Some (canon_target t)"
  by (cases t) (auto simp: dec_target_def target_tree_def fold_opt_append fold_opt_tree dec_simps
      dec_str_map target_ok_def str_map_ok_def canon_target_def zero_target_def split: option.split list.split)

lemma step_members:
  "fold_opt (dec_member step_fields) (opt_tree ''name'' s) v = Some (v\<lparr>StepName := if s = [] then StepName v else s\<rparr>)"
  "fold_opt (dec_member step_fields) (opt_tree ''nodeName'' s) v =
    Some (v\<lparr>StepExecutor := (StepExecutor v)\<lparr>NodeName := if s = [] then step_node v else s\<rparr>\<rparr>)"
  "fold_opt (dec_member step_fields) (opt_tree ''externalService'' s) v =
    Some (v\<lparr>StepExecutor := (StepExecutor v)\<lparr>ExternalService := if s = [] then step_external v else s\<rparr>\<rparr>)"
  "fold_opt (dec_member step_fields) (opt_tree ''data'' s) v = Some (v\<lparr>Data := if s = [] then Data v else s\<rparr>)"
  "fold_opt (dec_member step_fields) (opt_tree ''condition'' s) v = Some (v\<lparr>Condition := if s = [] then Condition v else s\<rparr>)"
  "fold_opt (dec_member step_fields) (opt_tree ''dependency'' s) v = Some (v\<lparr>Dependency := if s = [] then Dependency v else s\<rparr>)"
  "fold_opt (dec_member step_fields) (opt_tree ''serviceUrl'' s) v = Some (v\<lparr>ServiceURL := if s = [] then ServiceURL v else s\<rparr>)"
  by (simp_all add: fold_opt_tree step_fields_def dec_simps)

lemma dec_step_tree: "step_ok s \<Longrightarrow> dec_step (step_tree s) zero_step = Some (canon_step s)"
proof -
  assume ok: "step_ok s"
  have "dec_member step_fields (''internalService'', target_tree t) v =
      map_option (\<lambda>x. v\<lparr>StepExecutor := (StepExecutor v)\<lparr>InternalService := x\<rparr>\<rparr>) (dec_target (target_tree t) (step_target v))" for t v
    by (simp add: step_fields_def dec_simps option.map_comp comp_def)
  then show ?thesis using ok dec_target_tree [of "step_target s"]
    by (simp add: dec_step_def dec_struct_def step_tree_def fold_opt_append step_members step_ok_def canon_step_def zero_step_def zero_executor_def)
qed

lemma dec_elems_map: "\<forall>v \<in> set vs. d (f v) z = Some (g v) \<Longrightarrow> dec_elems d z (map f vs) [] = Some (map g vs)"
  by (induction vs) simp_all

lemma dec_router_tree: "router_ok r \<Longrightarrow> dec_router (router_tree r) zero_router = Some (canon_router r)"
proof -
  assume ok: "router_ok r"
  then have "dec_elems dec_step zero_step (map step_tree (Steps r)) [] = Some (map canon_step (Steps r))"
    by (intro dec_elems_map) (simp add: router_ok_def list_all_iff dec_step_tree)
  then show ?thesis
    by (cases r) (auto simp: dec_router_def router_tree_def dec_simps dec_slice_def canon_router_def zero_router_def)
qed

lemma dec_router_config_tree:
  "router_config_ok rc \<Longrightarrow> dec_router_config (router_config_tree rc) zero_router_config = Some (canon_router_config rc)"
  by (cases rc) (auto simp: dec_router_config_def router_config_tree_def dec_simps dec_str_map router_config_ok_def str_map_ok_def
      canon_router_config_def zero_router_config_def dec_map_null split: option.split)

lemma dec_spec_tree: "spec_ok sp \<Longrightarrow> dec_spec (spec_tree sp) zero_spec = Some (canon_spec sp)"
proof -
  assume ok: "spec_ok sp"
  have "fold_opt (\<lambda>kt m. map_option (\<lambda>x. gm_set (fst kt) x m) (dec_router (snd kt) zero_router))
      (map (\<lambda>kv. (fst kv, router_tree (snd kv))) (sort_key fst (Nodes sp))) [] =
    Some ([] @ map (\<lambda>kv. (fst kv, canon_router (snd kv))) (sort_key fst (Nodes sp)))"
    using ok by (intro dec_map_entries) (auto simp: spec_ok_def distinct_sort_key list_all_iff dec_router_tree)
  then show ?thesis using ok dec_router_config_tree [of "routerConfig sp"]
    by (simp add: dec_spec_def spec_tree_def dec_simps dec_plain_map_def dec_map_def zero_spec_def spec_ok_def canon_spec_def)
qed

text \<open>What is assumed of Kubernetes' decoders: a time stamp that is \<open>null\<close> is the zero time.\<close>

definition null_times :: "meta_dec \<Rightarrow> bool" where
  "null_times M = (dec_ObjectMeta M (null_time ''creationTimestamp'') zero_meta = Some zero_meta \<and> dec_Time M TNull [] = Some [])"

lemma dec_null_status:
  assumes "null_times M"
  shows "dec_status M (TObj [(''condition'', null_time ''lastUpdateTime'')]) zero_status = Some zero_status"
proof -
  have "dec_condition M (null_time ''lastUpdateTime'') (gs_Condition zero_status) = Some (gs_Condition zero_status)"
    using assms by (simp add: dec_condition_def null_time_def dec_simps null_times_def zero_status_def)
  then show ?thesis by (simp add: dec_status_def dec_simps)
qed

lemma unmarshal_graph_json:
  assumes "spec_ok sp" "null_times M"
  shows "unmarshal_graph M (graph_json sp) = Some (graph_of_spec (canon_spec sp))"
  using assms dec_spec_tree [of sp] dec_null_status [of M]
  by (simp add: unmarshal_graph_def parse_graph_json graph_tree_def dec_graph_def dec_simps null_times_def graph_of_spec_def)

section \<open>Routing on what the router reads\<close>

text \<open>A step whose configuration, if there is one, has entries.\<close>

definition config_filled :: "Step \<Rightarrow> bool" where
  "config_filled s = (case Config (step_target s) of None \<Rightarrow> True | Some m \<Rightarrow> m \<noteq> [] \<and> gm_wf m)"

lemma canon_step_simps [simp]:
  "StepName (canon_step s) = StepName s" "step_node (canon_step s) = step_node s" "step_external (canon_step s) = step_external s"
  "Data (canon_step s) = Data s" "Condition (canon_step s) = Condition s" "Dependency (canon_step s) = Dependency s"
  "ServiceURL (canon_step s) = ServiceURL s" "step_downstream (canon_step s) = step_downstream s"
  by (simp_all add: canon_step_def canon_target_def)

lemma gm_get_sorted: "gm_wf m \<Longrightarrow> gm_get (sort_key fst m) = gm_get m"
  by (rule ext) (metis gm_get_perm mset_sort)

lemma callService_canon: "config_filled st \<Longrightarrow> callService E (canon_step st) u inp s = callService E st u inp s"
proof -
  assume filled: "config_filled st"
  have "gm_str (sort_key fst m) ''no_proxy'' = gm_str m ''no_proxy''" if "gm_wf m" for m :: "(string, string) gomap"
    using that by (simp add: gm_str_def gm_get_sorted)
  then have "(case Config (step_target (canon_step st)) of None \<Rightarrow> (None, s) | Some cfg \<Rightarrow> os_Setenv ''no_proxy'' (gm_str cfg ''no_proxy'') s) =
      (case Config (step_target st) of None \<Rightarrow> (None, s) | Some cfg \<Rightarrow> os_Setenv ''no_proxy'' (gm_str cfg ''no_proxy'') s)"
    using filled by (auto simp: config_filled_def canon_step_def canon_target_def simp del: sort_key_simps split: option.splits list.split)
  then show ?thesis unfolding callService_def by simp
qed

lemma executeStep_canon:
  "config_filled st \<Longrightarrow> executeStep route E g ii (canon_step st) inp s = executeStep route E g ii st inp s"
  by (simp add: executeStep_def callService_canon getServiceURLByStepTarget_def)

text \<open>The pipelines use of a step only fields that stay, and its execution.\<close>

locale canonical_exec =
  fixes exec :: "'w exec_fun" and ok :: "Step \<Rightarrow> bool"
  assumes exec_canon: "ok st \<Longrightarrow> exec (canon_step st) inp s = exec st inp s"
begin

lemma node_canon: "ok st \<Longrightarrow> handleSwitchNode exec (canon_step st) req s = handleSwitchNode exec st req s"
  by (simp add: handleSwitchNode_def exec_canon)

lemma prepare_canon:
  "switch_prepare inp d i (canon_step st) b bs = switch_prepare inp d i st b bs"
  "sequence_prepare E inp d i (canon_step st) b bs = sequence_prepare E inp d i st b bs"
  by (simp_all add: switch_prepare_def sequence_prepare_def step_request_def split: sum.split prod.split go.split)

lemma switch_loop_canon:
  "list_all ok steps \<Longrightarrow> switch_loop exec E ii inp d i (map canon_step steps) b bs c s = switch_loop exec E ii inp d i steps b bs c s"
  by (induction steps arbitrary: i b bs c s) (auto simp: node_canon prepare_canon split: sum.split prod.split go.split option.split)

lemma sequence_loop_canon:
  "list_all ok steps \<Longrightarrow> sequence_loop exec E inp d i (map canon_step steps) b bs c s = sequence_loop exec E inp d i steps b bs c s"
  by (induction steps arbitrary: i b bs c s) (auto simp: exec_canon prepare_canon split: sum.split prod.split go.split option.split)

lemma goroutine_canon: "ok st \<Longrightarrow> ensemble_goroutine exec E (canon_step st) inp s = ensemble_goroutine exec E st inp s"
  by (simp add: ensemble_goroutine_def exec_canon)

lemma spawn_canon:
  "list_all ok steps \<Longrightarrow> ensemble_spawn exec E (map canon_step steps) inp is outs s = ensemble_spawn exec E steps inp is outs s"
  by (induction "is" arbitrary: outs s) (auto simp: goroutine_canon list_all_length split: go.split prod.split)

lemma collect_canon: "ensemble_collect E outs i (map canon_step steps) m = ensemble_collect E outs i steps m"
  by (induction steps arbitrary: i m) (auto simp: step_key_def split: option.split ensemble_out.split)

lemma pipelines_canon:
  assumes "list_all ok (Steps r)"
  shows "handleSwitchPipeline exec E (canon_router r) ii inp s = handleSwitchPipeline exec E r ii inp s"
    "handleSequencePipeline exec E (canon_router r) ii inp s = handleSequencePipeline exec E r ii inp s"
    "handleEnsemblePipeline exec E (canon_router r) inp s = handleEnsemblePipeline exec E r inp s"
  using assms by (simp_all add: handleSwitchPipeline_def handleSequencePipeline_def handleEnsemblePipeline_def canon_router_def
      switch_loop_canon sequence_loop_canon spawn_canon collect_canon Let_def split: option.split prod.split go.split)

end

interpretation router_exec: canonical_exec "executeStep route E g ii" config_filled
  for route :: "string \<Rightarrow> bytes \<Rightarrow> bytes \<Rightarrow> 'w rs \<Rightarrow> route_res go \<times> 'w rs" and E :: "'w ext" and g :: GMConnector and ii :: bytes
  by unfold_locales (rule executeStep_canon)

lemma node_at_canon:
  assumes "gm_wf nodes"
  shows "node_at (map (\<lambda>nr. (fst nr, canon_router (snd nr))) (sort_key fst nodes)) n = canon_router (node_at nodes n)"
proof -
  have "gm_get (map (\<lambda>nr. (fst nr, canon_router (snd nr))) m) n = map_option canon_router (gm_get m n)" for m :: "(string, Router) gomap"
    by (induction m) (auto simp: gm_get_def)
  then show ?thesis using gm_get_sorted [OF assms] by (simp add: node_at_def canon_router_def zero_router_def split: option.split)
qed

lemma routeStep_canon:
  assumes "gm_wf (Nodes sp)" "\<forall>st \<in> set (all_steps (Nodes sp)). config_filled st"
  shows "routeStep depth E (graph_of_spec (canon_spec sp)) n ii inp s = routeStep depth E (graph_of_spec sp) n ii inp s"
proof (induction depth arbitrary: n ii inp s)
  case (Suc depth)
  let ?g = "graph_of_spec sp" and ?h = "graph_of_spec (canon_spec sp)"
  have "list_all config_filled (Steps (node_at (Nodes sp) n))" using assms(2) node_at_step(1) by (auto simp: list_all_iff)
  note pipes = router_exec.pipelines_canon [OF this]
  have "executeStep (routeStep depth E ?h) E ?h ii = executeStep (routeStep depth E ?g) E ?g ii"
    by (rule ext)+ (simp add: executeStep_def Suc.IH, simp add: graph_of_spec_def)
  moreover have "node_at (graph_nodes ?h) n = canon_router (node_at (graph_nodes ?g) n)"
    using node_at_canon [OF assms(1)] by (simp add: graph_of_spec_def canon_spec_def)
  moreover have "routerType (canon_router r) = routerType r" for r by (simp add: canon_router_def)
  moreover have "graph_nodes ?g = Nodes sp" by (simp add: graph_of_spec_def)
  ultimately show ?case by (simp add: Let_def pipes)
qed simp

section \<open>The argument of the router\<close>

text \<open>The argument is a single-quoted scalar of the manifest. What is assumed of the YAML reader \<open>Y\<close>, which gives the
  text of a scalar: between single quotes a line without a single quote stands for itself, and a single quote that is
  neither doubled nor followed by a blank or the end of the line does not end a scalar but breaks it.\<close>

abbreviation apostrophe :: char where "apostrophe \<equiv> CHR 0x27"

definition yaml_single_quoted :: "(string \<Rightarrow> string option) \<Rightarrow> bool" where
  "yaml_single_quoted Y =
     ((\<forall>x. apostrophe \<notin> set x \<and> (\<forall>c \<in> set x. 0x20 \<le> ord_of c) \<longrightarrow> Y ([apostrophe] @ x @ [apostrophe]) = Some x) \<and>
      (\<forall>x c y. apostrophe \<notin> set x \<and> c \<notin> {apostrophe, CHR '' '', CHR 0x09} \<longrightarrow> Y ([apostrophe] @ x @ apostrophe # c # y) = None))"

lemma replace_char: "str_replace_all s [c] new = concat (map (\<lambda>x. if x = c then new else [x]) s)"
  unfolding str_replace_all_def by (induction s) auto

lemma scan_no_control: "scan_string s = Some (t, r) \<Longrightarrow> \<forall>c \<in> set t. 0x20 \<le> ord_of c"
proof (induction s arbitrary: t r rule: scan_string.induct)
  case (2 c cs)
  then show ?case by (auto split: if_splits list.splits)
qed simp

lemma set_str_join: "set (str_join sep xs) \<subseteq> set sep \<union> \<Union> (set (map set xs))"
  by (induction sep xs rule: str_join.induct) auto

lemma enc_string_no_control: "valid_utf8 s \<Longrightarrow> c \<in> set (enc_string s) \<Longrightarrow> 0x20 \<le> ord_of c"
proof -
  assume "valid_utf8 s" "c \<in> set (enc_string s)"
  moreover from this have "\<forall>c \<in> set (esc_go True 0 s). 0x20 \<le> ord_of c"
    using valid_string_ok [of s] scan_no_control [of "esc_go True 0 s @ [quote]"] by (auto simp: string_ok_def)
  ultimately show ?thesis by (auto simp: enc_string_def)
qed

lemma print_no_control: "printable t \<Longrightarrow> c \<in> set (print_tree t) \<Longrightarrow> 0x20 \<le> ord_of c"
proof (induction t)
  case (TArr ts)
  then have "c \<in> set (str_join '','' (map print_tree ts)) \<or> c \<in> {CHR ''['', CHR '']''}" by auto
  with TArr set_str_join [of "'',''" "map print_tree ts"] show ?case by (fastforce simp: list_all_iff)
next
  case (TObj ms)
  let ?xs = "map (\<lambda>kt. enc_string (fst kt) @ '':'' @ print_tree (snd kt)) ms"
  have "c \<in> set (str_join '','' ?xs) \<or> c \<in> {CHR ''{'', CHR ''}''}" using TObj by auto
  then consider "c \<in> {CHR ''{'', CHR ''}'', CHR '','', CHR '':''}"
    | k v where "(k, v) \<in> set ms" "c \<in> set (enc_string k) \<or> c \<in> set (print_tree v)"
    using set_str_join [of "'',''" ?xs] by fastforce
  then show ?case
  proof cases
    case 2
    with TObj show ?thesis by (force simp: list_all_iff dest: enc_string_no_control)
  qed auto
qed (auto dest: enc_string_no_control split: if_splits)

section \<open>Properties\<close>

lemma nodes_argument: "gm_str (router_config_map g) ''nodes'' =
    [apostrophe] @ concat (map (\<lambda>x. if x = apostrophe then [backslash, apostrophe] else [x]) (graph_json (gm_Spec g))) @ [apostrophe]"
  by (simp add: router_config_map_def Let_def gm_str_def gm_get_def replace_char)

lemma concat_self: "c \<notin> set s \<Longrightarrow> concat (map (\<lambda>x. if x = c then new else [x]) s) = s"
  by (induction s) auto


text \<open>A reader of single-quoted scalars without escapes, and decoders that keep the zero metadata.\<close>

definition demo_yaml :: "string \<Rightarrow> string option" where
  "demo_yaml s = (if 2 \<le> length s \<and> hd s = apostrophe \<and> last s = apostrophe \<and> apostrophe \<notin> set (butlast (tl s))
     then Some (butlast (tl s)) else None)"

definition demo_meta :: meta_dec where
  "demo_meta = \<lparr>dec_ObjectMeta = \<lambda>t v. Some v, dec_Time = \<lambda>t v. Some v\<rparr>"

lemma demo_yaml_ok: "yaml_single_quoted demo_yaml"
  by (auto simp: yaml_single_quoted_def demo_yaml_def butlast_append)

lemma demo_meta_ok: "null_times demo_meta"
  by (simp add: null_times_def demo_meta_def)

lemma service_spec_ok:
  assumes "\<forall>c \<in> set (n @ u). ord_of c < 0x80"
  shows "spec_ok (gm_Spec (one_step_graph Sequence [service_step n u []]))"
proof -
  have "valid_utf8 ''root''" "valid_utf8 Sequence" "valid_utf8 n" "valid_utf8 u" using assms by (simp_all add: valid_utf8_ascii_list)
  then show ?thesis
    by (simp add: one_step_graph_def example_graph_def graph_of_spec_def spec_ok_def router_ok_def step_ok_def target_ok_def
        router_config_ok_def service_step_def gm_wf_def gm_keys_def zero_defs)
qed




end
