(* ===== verification/Deep_Copy.thy ===== *)
theory Deep_Copy
  imports GMC_Types
begin

text \<open>
  Deep copies (\<open>api/v1alpha3/zz_generated.deepcopy.go\<close>) on an explicit heap. The controller copies the spec of a graph before it
  encodes it for the router, and every read from the client cache is a copy: what matters is that a copy has
  the same contents and shares no memory with the original.

  A heap is a list of cells, a location the index of a cell. A map, and the array behind a slice, is a cell; a slice is
  modelled by its array, of which the slices of the API types are the whole. \<open>new\<close> and \<open>make\<close> append a cell.
  \<open>DeepCopyInto\<close> takes the struct that \<open>in\<close> points to and gives what it writes to \<open>*out\<close>.
  Values of Kubernetes' own structs have the type \<open>'k\<close>, which is also that of the cells they use; how they are copied
  is a parameter. The locale \<open>deep_copier\<close> is the contract of a copy.
\<close>

section \<open>Structs with references\<close>

type_synonym loc = nat

record TargetH =
  th_ServiceName :: string
  th_NameSpace :: string
  th_Config :: "loc option"
  th_IsDownstreamService :: bool

record ExecutorH =
  eh_NodeName :: string
  eh_InternalService :: TargetH
  eh_ExternalService :: string

record StepH =
  sh_StepName :: string
  sh_Executor :: ExecutorH
  sh_Data :: string
  sh_Condition :: string
  sh_Dependency :: StepDependencyType
  sh_ServiceURL :: string

record RouterH =
  rh_RouterType :: RouterType
  rh_Steps :: "loc option"

record RouterConfigH =
  ch_Name :: string
  ch_ServiceName :: string
  ch_NameSpace :: string
  ch_Config :: "loc option"

record SpecH =
  ph_Nodes :: "loc option"
  ph_RouterConfig :: RouterConfigH

record 'k ConditionH =
  nh_Type :: string
  nh_Message :: string
  nh_Reason :: string
  nh_LastUpdateTime :: 'k

record 'k StatusH =
  uh_Condition :: "'k ConditionH"
  uh_Status :: string
  uh_AccessURL :: string
  uh_Annotations :: "loc option"

record 'k ConnectorH =
  gh_TypeMeta :: TypeMeta
  gh_ObjectMeta :: 'k
  gh_Spec :: SpecH
  gh_Status :: "'k StatusH"

record 'k ListH =
  lh_TypeMeta :: TypeMeta
  lh_ListMeta :: 'k
  lh_Items :: "loc option"

datatype 'k cell =
    CStrings "(string, string) gomap" | CNodes "(string, RouterH) gomap" | CSteps "StepH list" | CItems "'k ConnectorH list"
  | CTarget TargetH | CExecutor ExecutorH | CStep StepH | CRouter RouterH | CRouterConfig RouterConfigH | CSpec SpecH
  | CCondition "'k ConditionH" | CStatus "'k StatusH" | CConnector "'k ConnectorH" | CList "'k ListH" | CKube 'k

type_synonym 'k heap = "'k cell list"

definition alloc :: "'k cell \<Rightarrow> 'k heap \<Rightarrow> loc \<times> 'k heap" where
  "alloc c h = (length h, h @ [c])"

definition cell_at :: "'k heap \<Rightarrow> loc \<Rightarrow> 'k cell option" where
  "cell_at h l = (if l < length h then Some (h ! l) else None)"

definition strings_at :: "'k heap \<Rightarrow> loc \<Rightarrow> (string, string) gomap" where
  "strings_at h l = (case cell_at h l of Some (CStrings m) \<Rightarrow> m | _ \<Rightarrow> [])"

definition nodes_at :: "'k heap \<Rightarrow> loc \<Rightarrow> (string, RouterH) gomap" where
  "nodes_at h l = (case cell_at h l of Some (CNodes m) \<Rightarrow> m | _ \<Rightarrow> [])"

definition steps_at :: "'k heap \<Rightarrow> loc \<Rightarrow> StepH list" where
  "steps_at h l = (case cell_at h l of Some (CSteps xs) \<Rightarrow> xs | _ \<Rightarrow> [])"

definition items_at :: "'k heap \<Rightarrow> loc \<Rightarrow> 'k ConnectorH list" where
  "items_at h l = (case cell_at h l of Some (CItems xs) \<Rightarrow> xs | _ \<Rightarrow> [])"

section \<open>Copying\<close>

type_synonym ('k, 'a) copy = "'a \<Rightarrow> 'k heap \<Rightarrow> 'a \<times> 'k heap"

text \<open>The loops over the entries of a map and the elements of a slice: each value is copied, then written with \<open>put\<close>
  under its key or index into the new cell \<open>a\<close>.\<close>

fun copy_entries :: "('k, 'a) copy \<Rightarrow> ('i \<Rightarrow> 'a \<Rightarrow> 'k cell \<Rightarrow> 'k cell) \<Rightarrow> loc \<Rightarrow> ('i \<times> 'a) list \<Rightarrow> 'k heap \<Rightarrow> 'k heap" where
  "copy_entries copy put a [] h = h"
| "copy_entries copy put a ((i, x) # es) h =
     (let (y, h1) = copy x h in copy_entries copy put a es (h1[a := put i y (h1 ! a)]))"

fun put_string :: "string \<Rightarrow> string \<Rightarrow> 'k cell \<Rightarrow> 'k cell" where
  "put_string k v (CStrings m) = CStrings (gm_set k v m)"
| "put_string k v c = c"

fun put_node :: "string \<Rightarrow> RouterH \<Rightarrow> 'k cell \<Rightarrow> 'k cell" where
  "put_node k r (CNodes m) = CNodes (gm_set k r m)"
| "put_node k r c = c"

fun put_step :: "nat \<Rightarrow> StepH \<Rightarrow> 'k cell \<Rightarrow> 'k cell" where
  "put_step i s (CSteps xs) = CSteps (xs[i := s])"
| "put_step i s c = c"

fun put_item :: "nat \<Rightarrow> 'k ConnectorH \<Rightarrow> 'k cell \<Rightarrow> 'k cell" where
  "put_item i s (CItems xs) = CItems (xs[i := s])"
| "put_item i s c = c"

text \<open>A new container, filled from the entries of another one.\<close>

definition copy_into_new :: "'k cell \<Rightarrow> ('k, 'a) copy \<Rightarrow> ('i \<Rightarrow> 'a \<Rightarrow> 'k cell \<Rightarrow> 'k cell) \<Rightarrow> ('i \<times> 'a) list \<Rightarrow> 'k heap \<Rightarrow>
    loc option \<times> 'k heap" where
  "copy_into_new c copy put es h = (let (a, h1) = alloc c h in (Some a, copy_entries copy put a es h1))"

text \<open>\<open>DeepCopy\<close>: a new struct \<open>con zero\<close> into which \<open>x\<close> is copied.\<close>

definition new_copy :: "('a \<Rightarrow> 'k cell) \<Rightarrow> 'a \<Rightarrow> ('k, 'a) copy \<Rightarrow> 'a \<Rightarrow> 'k heap \<Rightarrow> loc option \<times> 'k heap" where
  "new_copy con zero copy x h = (let (q, h1) = alloc (con zero) h; (y, h2) = copy x h1 in (Some q, h2[q := con y]))"

definition copy_strings :: "('k, loc option) copy" where
  "copy_strings p h = (case p of
     None \<Rightarrow> (None, h)
   | Some l \<Rightarrow> copy_into_new (CStrings []) (\<lambda>v h. (v, h)) put_string (strings_at h l) h)"

definition GMCTarget_DeepCopyInto :: "('k, TargetH) copy" where
  "GMCTarget_DeepCopyInto t h = (let (c, h) = copy_strings (th_Config t) h in (t\<lparr>th_Config := c\<rparr>, h))"

definition Executor_DeepCopyInto :: "('k, ExecutorH) copy" where
  "Executor_DeepCopyInto e h =
     (let (t, h) = GMCTarget_DeepCopyInto (eh_InternalService e) h in (e\<lparr>eh_InternalService := t\<rparr>, h))"

definition Step_DeepCopyInto :: "('k, StepH) copy" where
  "Step_DeepCopyInto s h = (let (e, h) = Executor_DeepCopyInto (sh_Executor s) h in (s\<lparr>sh_Executor := e\<rparr>, h))"

definition zero_targetH :: TargetH where
  "zero_targetH = \<lparr>th_ServiceName = [], th_NameSpace = [], th_Config = None, th_IsDownstreamService = False\<rparr>"

definition zero_executorH :: ExecutorH where
  "zero_executorH = \<lparr>eh_NodeName = [], eh_InternalService = zero_targetH, eh_ExternalService = []\<rparr>"

definition zero_stepH :: StepH where
  "zero_stepH = \<lparr>sh_StepName = [], sh_Executor = zero_executorH, sh_Data = [], sh_Condition = [], sh_Dependency = [],
     sh_ServiceURL = []\<rparr>"

definition zero_routerH :: RouterH where
  "zero_routerH = \<lparr>rh_RouterType = [], rh_Steps = None\<rparr>"

definition zero_router_configH :: RouterConfigH where
  "zero_router_configH = \<lparr>ch_Name = [], ch_ServiceName = [], ch_NameSpace = [], ch_Config = None\<rparr>"

definition zero_specH :: SpecH where
  "zero_specH = \<lparr>ph_Nodes = None, ph_RouterConfig = zero_router_configH\<rparr>"

definition copy_steps :: "('k, loc option) copy" where
  "copy_steps p h = (case p of
     None \<Rightarrow> (None, h)
   | Some l \<Rightarrow> (let xs = steps_at h l in
       copy_into_new (CSteps (replicate (length xs) zero_stepH)) Step_DeepCopyInto put_step (enumerate 0 xs) h))"

definition Router_DeepCopyInto :: "('k, RouterH) copy" where
  "Router_DeepCopyInto r h = (let (p, h) = copy_steps (rh_Steps r) h in (r\<lparr>rh_Steps := p\<rparr>, h))"

definition RouterConfig_DeepCopyInto :: "('k, RouterConfigH) copy" where
  "RouterConfig_DeepCopyInto rc h = (let (c, h) = copy_strings (ch_Config rc) h in (rc\<lparr>ch_Config := c\<rparr>, h))"

text \<open>\<open>*val.DeepCopy()\<close>: the new struct is read at once.\<close>

definition node_copy :: "('k, RouterH) copy" where
  "node_copy val h = (case new_copy CRouter zero_routerH Router_DeepCopyInto val h of
     (Some q, h) \<Rightarrow> (case cell_at h q of Some (CRouter r) \<Rightarrow> (r, h) | _ \<Rightarrow> (val, h)) | (None, h) \<Rightarrow> (val, h))"

definition copy_nodes :: "('k, loc option) copy" where
  "copy_nodes p h = (case p of
     None \<Rightarrow> (None, h)
   | Some l \<Rightarrow> copy_into_new (CNodes []) node_copy put_node (nodes_at h l) h)"

definition GMConnectorSpec_DeepCopyInto :: "('k, SpecH) copy" where
  "GMConnectorSpec_DeepCopyInto sp h =
     (let (n, h) = copy_nodes (ph_Nodes sp) h; (rc, h) = RouterConfig_DeepCopyInto (ph_RouterConfig sp) h
      in (sp\<lparr>ph_Nodes := n, ph_RouterConfig := rc\<rparr>, h))"

text \<open>Kubernetes' copies of \<open>Time\<close>, \<open>ObjectMeta\<close> and \<open>ListMeta\<close> are the first argument.\<close>

definition GMConnectorCondition_DeepCopyInto :: "('k, 'k) copy \<Rightarrow> ('k, 'k ConditionH) copy" where
  "GMConnectorCondition_DeepCopyInto copy_time c h =
     (let (x, h) = copy_time (nh_LastUpdateTime c) h in (c\<lparr>nh_LastUpdateTime := x\<rparr>, h))"

definition GMConnectorStatus_DeepCopyInto :: "('k, 'k) copy \<Rightarrow> ('k, 'k StatusH) copy" where
  "GMConnectorStatus_DeepCopyInto copy_time s h =
     (let (c, h) = GMConnectorCondition_DeepCopyInto copy_time (uh_Condition s) h; (a, h) = copy_strings (uh_Annotations s) h
      in (s\<lparr>uh_Condition := c, uh_Annotations := a\<rparr>, h))"

definition GMConnector_DeepCopyInto :: "('k, 'k) copy \<Rightarrow> ('k, 'k) copy \<Rightarrow> ('k, 'k ConnectorH) copy" where
  "GMConnector_DeepCopyInto copy_meta copy_time g h =
     (let (m, h) = copy_meta (gh_ObjectMeta g) h; (sp, h) = GMConnectorSpec_DeepCopyInto (gh_Spec g) h;
          (st, h) = GMConnectorStatus_DeepCopyInto copy_time (gh_Status g) h
      in (g\<lparr>gh_ObjectMeta := m, gh_Spec := sp, gh_Status := st\<rparr>, h))"

definition copy_items :: "('k, 'k) copy \<Rightarrow> ('k, 'k) copy \<Rightarrow> 'k ConnectorH \<Rightarrow> ('k, loc option) copy" where
  "copy_items copy_meta copy_time zero p h = (case p of
     None \<Rightarrow> (None, h)
   | Some l \<Rightarrow> (let xs = items_at h l in
       copy_into_new (CItems (replicate (length xs) zero)) (GMConnector_DeepCopyInto copy_meta copy_time) put_item (enumerate 0 xs) h))"

definition GMConnectorList_DeepCopyInto :: "('k, 'k) copy \<Rightarrow> ('k, 'k) copy \<Rightarrow> ('k, 'k) copy \<Rightarrow> 'k ConnectorH \<Rightarrow> ('k, 'k ListH) copy" where
  "GMConnectorList_DeepCopyInto copy_list_meta copy_meta copy_time zero g h =
     (let (m, h) = copy_list_meta (lh_ListMeta g) h; (p, h) = copy_items copy_meta copy_time zero (lh_Items g) h
      in (g\<lparr>lh_ListMeta := m, lh_Items := p\<rparr>, h))"

text \<open>\<open>DeepCopy\<close> of each type, on a pointer; a pointer to a cell of another type does not occur.\<close>

definition GMCTarget_DeepCopy :: "loc option \<Rightarrow> 'k heap \<Rightarrow> loc option \<times> 'k heap" where
  "GMCTarget_DeepCopy p h = (case Option.bind p (cell_at h) of
     Some (CTarget x) \<Rightarrow> new_copy CTarget zero_targetH GMCTarget_DeepCopyInto x h | _ \<Rightarrow> (None, h))"

definition Executor_DeepCopy :: "loc option \<Rightarrow> 'k heap \<Rightarrow> loc option \<times> 'k heap" where
  "Executor_DeepCopy p h = (case Option.bind p (cell_at h) of
     Some (CExecutor x) \<Rightarrow> new_copy CExecutor zero_executorH Executor_DeepCopyInto x h | _ \<Rightarrow> (None, h))"

definition Step_DeepCopy :: "loc option \<Rightarrow> 'k heap \<Rightarrow> loc option \<times> 'k heap" where
  "Step_DeepCopy p h = (case Option.bind p (cell_at h) of
     Some (CStep x) \<Rightarrow> new_copy CStep zero_stepH Step_DeepCopyInto x h | _ \<Rightarrow> (None, h))"

definition Router_DeepCopy :: "loc option \<Rightarrow> 'k heap \<Rightarrow> loc option \<times> 'k heap" where
  "Router_DeepCopy p h = (case Option.bind p (cell_at h) of
     Some (CRouter x) \<Rightarrow> new_copy CRouter zero_routerH Router_DeepCopyInto x h | _ \<Rightarrow> (None, h))"

definition RouterConfig_DeepCopy :: "loc option \<Rightarrow> 'k heap \<Rightarrow> loc option \<times> 'k heap" where
  "RouterConfig_DeepCopy p h = (case Option.bind p (cell_at h) of
     Some (CRouterConfig x) \<Rightarrow> new_copy CRouterConfig zero_router_configH RouterConfig_DeepCopyInto x h | _ \<Rightarrow> (None, h))"

definition GMConnectorSpec_DeepCopy :: "loc option \<Rightarrow> 'k heap \<Rightarrow> loc option \<times> 'k heap" where
  "GMConnectorSpec_DeepCopy p h = (case Option.bind p (cell_at h) of
     Some (CSpec x) \<Rightarrow> new_copy CSpec zero_specH GMConnectorSpec_DeepCopyInto x h | _ \<Rightarrow> (None, h))"

text \<open>For the types that hold structs of Kubernetes the zero value is an argument.\<close>

definition GMConnectorCondition_DeepCopy :: "('k, 'k) copy \<Rightarrow> 'k ConditionH \<Rightarrow> loc option \<Rightarrow> 'k heap \<Rightarrow> loc option \<times> 'k heap" where
  "GMConnectorCondition_DeepCopy copy_time zero p h = (case Option.bind p (cell_at h) of
     Some (CCondition x) \<Rightarrow> new_copy CCondition zero (GMConnectorCondition_DeepCopyInto copy_time) x h | _ \<Rightarrow> (None, h))"

definition GMConnectorStatus_DeepCopy :: "('k, 'k) copy \<Rightarrow> 'k StatusH \<Rightarrow> loc option \<Rightarrow> 'k heap \<Rightarrow> loc option \<times> 'k heap" where
  "GMConnectorStatus_DeepCopy copy_time zero p h = (case Option.bind p (cell_at h) of
     Some (CStatus x) \<Rightarrow> new_copy CStatus zero (GMConnectorStatus_DeepCopyInto copy_time) x h | _ \<Rightarrow> (None, h))"

definition GMConnector_DeepCopy :: "('k, 'k) copy \<Rightarrow> ('k, 'k) copy \<Rightarrow> 'k ConnectorH \<Rightarrow> loc option \<Rightarrow> 'k heap \<Rightarrow> loc option \<times> 'k heap" where
  "GMConnector_DeepCopy copy_meta copy_time zero p h = (case Option.bind p (cell_at h) of
     Some (CConnector x) \<Rightarrow> new_copy CConnector zero (GMConnector_DeepCopyInto copy_meta copy_time) x h | _ \<Rightarrow> (None, h))"

definition GMConnectorList_DeepCopy :: "('k, 'k) copy \<Rightarrow> ('k, 'k) copy \<Rightarrow> ('k, 'k) copy \<Rightarrow> 'k ConnectorH \<Rightarrow> 'k ListH \<Rightarrow>
    loc option \<Rightarrow> 'k heap \<Rightarrow> loc option \<times> 'k heap" where
  "GMConnectorList_DeepCopy copy_list_meta copy_meta copy_time zero_item zero p h = (case Option.bind p (cell_at h) of
     Some (CList x) \<Rightarrow> new_copy CList zero (GMConnectorList_DeepCopyInto copy_list_meta copy_meta copy_time zero_item) x h
   | _ \<Rightarrow> (None, h))"

text \<open>\<open>DeepCopyObject\<close>: the pointer as an interface value, which is nil for the nil pointer.\<close>

definition GMConnector_DeepCopyObject :: "('k, 'k) copy \<Rightarrow> ('k, 'k) copy \<Rightarrow> 'k ConnectorH \<Rightarrow> loc option \<Rightarrow> 'k heap \<Rightarrow> loc option \<times> 'k heap" where
  "GMConnector_DeepCopyObject copy_meta copy_time zero p h = (case GMConnector_DeepCopy copy_meta copy_time zero p h of
     (Some c, h) \<Rightarrow> (Some c, h) | (None, h) \<Rightarrow> (None, h))"

definition GMConnectorList_DeepCopyObject :: "('k, 'k) copy \<Rightarrow> ('k, 'k) copy \<Rightarrow> ('k, 'k) copy \<Rightarrow> 'k ConnectorH \<Rightarrow> 'k ListH \<Rightarrow>
    loc option \<Rightarrow> 'k heap \<Rightarrow> loc option \<times> 'k heap" where
  "GMConnectorList_DeepCopyObject copy_list_meta copy_meta copy_time zero_item zero p h =
     (case GMConnectorList_DeepCopy copy_list_meta copy_meta copy_time zero_item zero p h of
        (Some c, h) \<Rightarrow> (Some c, h) | (None, h) \<Rightarrow> (None, h))"

section \<open>The contract\<close>

text \<open>Maps have each key once.\<close>

fun cell_wf :: "'k cell \<Rightarrow> bool" where
  "cell_wf (CStrings m) = gm_wf m"
| "cell_wf (CNodes m) = gm_wf m"
| "cell_wf c = True"

definition heap_wf :: "'k heap \<Rightarrow> bool" where
  "heap_wf h = list_all cell_wf h"

text \<open>\<open>view h x\<close> is what \<open>x\<close> stands for in the heap \<open>h\<close>, \<open>refs h x\<close> the locations it rests on. A fresh copy stands for
  the same and rests on cells that are new, the heap is otherwise as it was.\<close>

definition fresh_copy :: "('k heap \<Rightarrow> 'a \<Rightarrow> 'v) \<Rightarrow> ('k heap \<Rightarrow> 'a \<Rightarrow> loc set) \<Rightarrow> 'a \<Rightarrow> 'k heap \<Rightarrow> 'a \<Rightarrow> 'k heap \<Rightarrow> bool" where
  "fresh_copy view refs x h y h' =
     (prefix h h' \<and> heap_wf h' \<and> view h' y = view h x \<and> refs h' y \<subseteq> {length h..<length h'})"

lemma fresh_copyI: "prefix h h' \<Longrightarrow> heap_wf h' \<Longrightarrow> view h' y = view h x \<Longrightarrow> refs h' y \<subseteq> {length h..<length h'} \<Longrightarrow> fresh_copy view refs x h y h'"
  by (simp add: fresh_copy_def)

lemma prefix_cell_at: "prefix h h' \<Longrightarrow> l < length h \<Longrightarrow> cell_at h' l = cell_at h l"
  by (auto simp: cell_at_def prefix_def nth_append)

locale deep_copier =
  fixes copy :: "('k, 'a) copy" and view :: "'k heap \<Rightarrow> 'a \<Rightarrow> 'v" and refs :: "'k heap \<Rightarrow> 'a \<Rightarrow> loc set"
  assumes copy_fresh: "heap_wf h \<Longrightarrow> refs h x \<subseteq> {..<length h} \<Longrightarrow> copy x h = (y, h') \<Longrightarrow> fresh_copy view refs x h y h'"
    and view_local: "\<forall>l \<in> refs h x. cell_at h' l = cell_at h l \<Longrightarrow> view h' x = view h x \<and> refs h' x = refs h x"
begin

text \<open>Whatever is written to cells of the original leaves the copy, and the other way round.\<close>

lemma fresh_independent:
  assumes "fresh_copy view refs x h y h'" "refs h x \<subseteq> {..<length h}"
  shows "\<forall>l. length h \<le> l \<longrightarrow> cell_at h2 l = cell_at h' l \<Longrightarrow> view h2 y = view h x"
    and "\<forall>l < length h. cell_at h2 l = cell_at h' l \<Longrightarrow> view h2 x = view h x"
proof -
  have c: "prefix h h'" "view h' y = view h x" "refs h' y \<subseteq> {length h..<length h'}"
    using assms(1) by (auto simp: fresh_copy_def)
  show "view h2 y = view h x" if "\<forall>l. length h \<le> l \<longrightarrow> cell_at h2 l = cell_at h' l"
    using view_local [of h' y h2] c that by fastforce
  show "view h2 x = view h x" if "\<forall>l < length h. cell_at h2 l = cell_at h' l"
    using that c(1) assms(2) by (intro conjunct1 [OF view_local]) (auto simp: cell_at_def prefix_def nth_append subset_iff)
qed

text \<open>The loop: every cell but the new container stays, and the container holds copies of the values.\<close>

lemma copy_entries_fresh:
  assumes "heap_wf h" "a < length h" "\<forall>(i, x) \<in> set es. refs h x \<subseteq> {..<length h} - {a}"
    and put: "\<And>i y c. cell_wf c \<Longrightarrow> cell_wf (put i y c)"
  shows "\<exists>ys. let h' = copy_entries copy put a es h in
    length h \<le> length h' \<and> heap_wf h' \<and> (\<forall>l < length h. l \<noteq> a \<longrightarrow> h' ! l = h ! l) \<and> length ys = length es \<and>
    h' ! a = fold (\<lambda>(i, y) c. put i y c) (zip (map fst es) ys) (h ! a) \<and>
    (\<forall>j < length es. view h' (ys ! j) = view h (snd (es ! j)) \<and> refs h' (ys ! j) \<subseteq> {length h..<length h'})"
  using assms(1-3)
proof (induction es arbitrary: h)
  case Nil
  then show ?case by simp
next
  case (Cons e es)
  obtain i x where e: "e = (i, x)" by fastforce
  obtain y h1 where run: "copy x h = (y, h1)" by fastforce
  let ?h2 = "h1[a := put i y (h1 ! a)]"
  have "refs h x \<subseteq> {..<length h}" using Cons.prems(3) e by auto
  with Cons.prems(1) run have c: "prefix h h1" "heap_wf h1" "view h1 y = view h x" "refs h1 y \<subseteq> {length h..<length h1}"
    using copy_fresh by (auto simp: fresh_copy_def)
  have len: "length h \<le> length h1" using c(1) by (simp add: prefix_length_le)
  have old: "h1 ! l = h ! l" if "l < length h" for l using c(1) that by (auto simp: prefix_def nth_append)
  have wf2: "heap_wf ?h2" using c(2) put Cons.prems(2) len by (auto simp: heap_wf_def list_all_length nth_list_update)
  have cells: "cell_at ?h2 l = cell_at h l" if "l < length h" "l \<noteq> a" for l using that len old by (simp add: cell_at_def)
  have stay: "refs ?h2 x' = refs h x'" "view ?h2 x' = view h x'" if "(j, x') \<in> set es" for j x'
  proof -
    have "\<forall>l \<in> refs h x'. cell_at ?h2 l = cell_at h l" using that Cons.prems(3) by (intro ballI cells) auto
    then show "refs ?h2 x' = refs h x'" "view ?h2 x' = view h x'" using view_local by blast+
  qed
  have "\<forall>(j, x') \<in> set es. refs ?h2 x' \<subseteq> {..<length ?h2} - {a}"
    using stay Cons.prems(3) len by fastforce
  moreover have "a < length ?h2" using Cons.prems(2) len by simp
  moreover define h' where "h' = copy_entries copy put a es ?h2"
  ultimately obtain ys where ys: "length ?h2 \<le> length h'" "heap_wf h'"
      "\<forall>l < length ?h2. l \<noteq> a \<longrightarrow> h' ! l = ?h2 ! l" "length ys = length es"
      "h' ! a = fold (\<lambda>(i, y) c. put i y c) (zip (map fst es) ys) (?h2 ! a)"
      "\<forall>j < length es. view h' (ys ! j) = view ?h2 (snd (es ! j)) \<and> refs h' (ys ! j) \<subseteq> {length ?h2..<length h'}"
    using Cons.IH [OF wf2] by (simp only: Let_def h'_def) blast
  have "\<forall>l \<in> refs h1 y. cell_at h' l = cell_at h1 l"
    using c(4) ys(1,3) Cons.prems(2) by (auto simp: cell_at_def)
  then have y: "view h' y = view h x" "refs h' y = refs h1 y" using view_local [of h1 y h'] c(3) by simp_all
  have "\<forall>l < length h. l \<noteq> a \<longrightarrow> h' ! l = h ! l" using ys(3) old len by simp
  moreover have "h' ! a = fold (\<lambda>(i, y) c. put i y c) (zip (map fst (e # es)) (y # ys)) (h ! a)"
    using ys(5) Cons.prems(2) len old e by simp
  moreover have "view h' ((y # ys) ! j) = view h (snd ((e # es) ! j)) \<and> refs h' ((y # ys) ! j) \<subseteq> {length h..<length h'}"
    if "j < length (e # es)" for j
  proof (cases j)
    case 0
    then show ?thesis using y c(4) e ys(1) by fastforce
  next
    case (Suc k)
    then have "es ! k \<in> set es" using that by simp
    then have "view ?h2 (snd (es ! k)) = view h (snd (es ! k))" using stay(2) [of "fst (es ! k)" "snd (es ! k)"] by simp
    with Suc that ys(6) len show ?thesis by fastforce
  qed
  ultimately show ?case using ys(1,2,4) e run len by (intro exI [of _ "y # ys"]) (simp add: Let_def h'_def)
qed

text \<open>The same for a container that is made for the loop.\<close>

lemma copy_into_new_fresh:
  assumes "heap_wf h" "cell_wf c" "\<forall>(i, x) \<in> set es. refs h x \<subseteq> {..<length h}" "\<forall>i y c. cell_wf c \<longrightarrow> cell_wf (put i y c)"
    and "copy_into_new c copy put es h = (p, h')"
  shows "\<exists>ys. p = Some (length h) \<and> prefix h h' \<and> length h < length h' \<and> heap_wf h' \<and> length ys = length es \<and>
    h' ! length h = fold (\<lambda>(i, y) c. put i y c) (zip (map fst es) ys) c \<and>
    (\<forall>j < length es. view h' (ys ! j) = view h (snd (es ! j))) \<and> (\<forall>j < length es. refs h' (ys ! j) \<subseteq> {length h..<length h'})"
proof -
  let ?h1 = "h @ [c]"
  have h': "h' = copy_entries copy put (length h) es ?h1" and p: "p = Some (length h)"
    using assms(5) by (simp_all add: copy_into_new_def alloc_def)
  have stay: "view ?h1 x = view h x \<and> refs ?h1 x = refs h x" if "(i, x) \<in> set es" for i x
    using that assms(3) by (intro view_local) (fastforce simp: cell_at_def nth_append)
  have "heap_wf ?h1" using assms(1,2) by (simp add: heap_wf_def)
  moreover have "\<forall>(i, x) \<in> set es. refs ?h1 x \<subseteq> {..<length ?h1} - {length h}" using stay assms(3) by fastforce
  ultimately obtain ys where ys: "length ?h1 \<le> length h'" "heap_wf h'" "\<forall>l < length ?h1. l \<noteq> length h \<longrightarrow> h' ! l = ?h1 ! l"
      "length ys = length es" "h' ! length h = fold (\<lambda>(i, y) c. put i y c) (zip (map fst es) ys) (?h1 ! length h)"
      "\<forall>j < length es. view h' (ys ! j) = view ?h1 (snd (es ! j)) \<and> refs h' (ys ! j) \<subseteq> {length ?h1..<length h'}"
    using copy_entries_fresh [of ?h1 "length h" es put] assms(4) unfolding h' by (auto simp: Let_def)
  have "take (length h) h' = h" using ys(1,3) by (intro nth_equalityI) (auto simp: nth_append)
  then have "prefix h h'" by (metis take_is_prefix)
  moreover have "view ?h1 (snd (es ! j)) = view h (snd (es ! j))" if "j < length es" for j
    using stay [of "fst (es ! j)" "snd (es ! j)"] that by simp
  ultimately show ?thesis using ys p by (intro exI [of _ ys]) (fastforce simp: subset_eq)
qed

text \<open>A reference to a container, given how to read its entries: nil is kept, anything else gets a new container.\<close>

lemma container_copier:
  assumes run: "\<And>p h. copyC p h = (case p of None \<Rightarrow> (None, h) | Some l \<Rightarrow> copy_into_new (c0 (entries h l)) copy put (entries h l) h)"
    and wf: "\<And>es. cell_wf (c0 es)" "\<And>i y c. cell_wf c \<Longrightarrow> cell_wf (put i y c)"
    and filled: "\<And>h h' l a ys. heap_wf h \<Longrightarrow> length ys = length (entries h l) \<Longrightarrow>
      cell_at h' a = Some (fold (\<lambda>(i, y) c. put i y c) (zip (map fst (entries h l)) ys) (c0 (entries h l))) \<Longrightarrow>
      entries h' a = zip (map fst (entries h l)) ys"
    and loc: "\<And>h h' l. cell_at h' l = cell_at h l \<Longrightarrow> entries h' l = entries h l"
    and viewC: "\<And>h p. viewC h p = W (map_option (\<lambda>l. map (\<lambda>e. (fst e, view h (snd e))) (entries h l)) p)"
    and refsC: "\<And>h p. refsC h p = (case p of None \<Rightarrow> {} | Some l \<Rightarrow> insert l (\<Union>e \<in> set (entries h l). refs h (snd e)))"
  shows "deep_copier copyC viewC refsC"
proof
  fix h h' p q
  assume h: "heap_wf h" "refsC h p \<subseteq> {..<length h}" "copyC p h = (q, h')"
  show "fresh_copy viewC refsC p h q h'"
  proof (cases p)
    case (Some l)
    let ?es = "entries h l"
    have put: "\<forall>i y c. cell_wf c \<longrightarrow> cell_wf (put i y c)" using wf(2) by blast
    have new: "copy_into_new (c0 ?es) copy put ?es h = (q, h')" using h(3) Some by (simp add: run)
    have r: "\<forall>(i, x) \<in> set ?es. refs h x \<subseteq> {..<length h}" using h(2) Some by (fastforce simp: refsC)
    obtain ys where ys: "q = Some (length h)" "prefix h h'" "length h < length h'" "heap_wf h'" "length ys = length ?es"
        "h' ! length h = fold (\<lambda>(i, y) c. put i y c) (zip (map fst ?es) ys) (c0 ?es)"
        "\<forall>j < length ?es. view h' (ys ! j) = view h (snd (?es ! j))" "\<forall>j < length ?es. refs h' (ys ! j) \<subseteq> {length h..<length h'}"
      using copy_into_new_fresh [OF h(1) wf(1) r put new] by (elim exE conjE) (rule that)
    have "cell_at h' (length h) = Some (fold (\<lambda>(i, y) c. put i y c) (zip (map fst ?es) ys) (c0 ?es))"
      unfolding cell_at_def if_P [OF ys(3)] ys(6) ..
    with h(1) ys(5) have at: "entries h' (length h) = zip (map fst ?es) ys" by (rule filled)
    have "map (\<lambda>e. (fst e, view h' (snd e))) (zip (map fst ?es) ys) = map (\<lambda>e. (fst e, view h (snd e))) ?es"
      using ys(5,7) by (intro nth_equalityI) auto
    moreover have "(\<Union>e \<in> set (zip (map fst ?es) ys). refs h' (snd e)) \<subseteq> {length h..<length h'}"
      using ys(5,8) by (fastforce simp: in_set_zip)
    ultimately show ?thesis using ys(1-4) Some at by (intro fresh_copyI) (auto simp: viewC refsC)
  qed (use h in \<open>simp add: run viewC refsC fresh_copy_def\<close>)
next
  fix h h' p
  assume l: "\<forall>l \<in> refsC h p. cell_at h' l = cell_at h l"
  show "viewC h' p = viewC h p \<and> refsC h' p = refsC h p"
  proof (cases p)
    case (Some a)
    then have "entries h' a = entries h a" using l by (intro loc) (simp add: refsC)
    moreover have "view h' (snd e) = view h (snd e) \<and> refs h' (snd e) = refs h (snd e)" if "e \<in> set (entries h a)" for e
      using l Some that by (intro view_local) (auto simp: refsC)
    ultimately show ?thesis using Some by (simp add: viewC refsC cong: map_cong)
  qed (simp add: viewC refsC)
qed

text \<open>A copy in a new struct: the struct is a further cell.\<close>

lemma new_copy_fresh:
  assumes "heap_wf h" "refs h x \<subseteq> {..<length h}" "\<And>y. cell_wf (con y)" "new_copy con zero copy x h = (p, h')"
  obtains y where "p = Some (length h)" "cell_at h' (length h) = Some (con y)" "fresh_copy view refs x h y h'"
proof -
  let ?h1 = "h @ [con zero]"
  obtain y h2 where run: "copy x ?h1 = (y, h2)" "p = Some (length h)" "h' = h2[length h := con y]"
    using assms(4) by (auto simp: new_copy_def alloc_def Let_def split: prod.splits)
  have "\<forall>l \<in> refs h x. cell_at ?h1 l = cell_at h l" using assms(2) by (auto simp: cell_at_def nth_append subset_iff)
  then have x: "view ?h1 x = view h x" "refs ?h1 x = refs h x" using view_local by blast+
  have "heap_wf ?h1" using assms(1,3) by (simp add: heap_wf_def)
  moreover have "refs ?h1 x \<subseteq> {..<length ?h1}" unfolding x(2) using assms(2) by fastforce
  ultimately have "fresh_copy view refs x ?h1 y h2" using run(1) by (rule copy_fresh)
  then have c: "prefix ?h1 h2" "heap_wf h2" "view h2 y = view h x" "refs h2 y \<subseteq> {length ?h1..<length h2}"
    by (simp_all add: fresh_copy_def x(1))
  have len: "length h < length h2" using prefix_length_le [OF c(1)] by simp
  have "view h' y = view h2 y \<and> refs h' y = refs h2 y" using c(4) run(3) by (intro view_local) (auto simp: cell_at_def)
  moreover have "prefix h h'" using c(1) run(3) by (auto simp: prefix_def)
  moreover have "heap_wf h'" using c(2) assms(3) run(3) len by (auto simp: heap_wf_def list_all_length nth_list_update)
  ultimately show thesis using c(3,4) len run(2,3) by (intro that [of y]) (auto simp: fresh_copy_def cell_at_def)
qed

end

section \<open>Views\<close>

definition abs_strings :: "'k heap \<Rightarrow> loc option \<Rightarrow> (string, string) gomap option" where
  "abs_strings h p = map_option (strings_at h) p"

definition refs_strings :: "'k heap \<Rightarrow> loc option \<Rightarrow> loc set" where
  "refs_strings h p = set_option p"

definition abs_target :: "'k heap \<Rightarrow> TargetH \<Rightarrow> GMCTarget" where
  "abs_target h t = \<lparr>ServiceName = th_ServiceName t, NameSpace = th_NameSpace t, Config = abs_strings h (th_Config t),
     IsDownstreamService = th_IsDownstreamService t\<rparr>"

definition abs_executor :: "'k heap \<Rightarrow> ExecutorH \<Rightarrow> Executor" where
  "abs_executor h e = \<lparr>NodeName = eh_NodeName e, InternalService = abs_target h (eh_InternalService e),
     ExternalService = eh_ExternalService e\<rparr>"

definition abs_step :: "'k heap \<Rightarrow> StepH \<Rightarrow> Step" where
  "abs_step h s = \<lparr>StepName = sh_StepName s, StepExecutor = abs_executor h (sh_Executor s), Data = sh_Data s,
     Condition = sh_Condition s, Dependency = sh_Dependency s, ServiceURL = sh_ServiceURL s\<rparr>"

definition refs_target :: "'k heap \<Rightarrow> TargetH \<Rightarrow> loc set" where
  "refs_target h t = refs_strings h (th_Config t)"

definition refs_executor :: "'k heap \<Rightarrow> ExecutorH \<Rightarrow> loc set" where
  "refs_executor h e = refs_target h (eh_InternalService e)"

definition refs_step :: "'k heap \<Rightarrow> StepH \<Rightarrow> loc set" where
  "refs_step h s = refs_executor h (sh_Executor s)"

definition abs_steps :: "'k heap \<Rightarrow> loc option \<Rightarrow> Step list" where
  "abs_steps h p = (case p of None \<Rightarrow> [] | Some l \<Rightarrow> map (abs_step h) (steps_at h l))"

definition refs_steps :: "'k heap \<Rightarrow> loc option \<Rightarrow> loc set" where
  "refs_steps h p = (case p of None \<Rightarrow> {} | Some l \<Rightarrow> insert l (\<Union>s \<in> set (steps_at h l). refs_step h s))"

definition abs_router :: "'k heap \<Rightarrow> RouterH \<Rightarrow> Router" where
  "abs_router h r = \<lparr>routerType = rh_RouterType r, Steps = abs_steps h (rh_Steps r)\<rparr>"

definition refs_router :: "'k heap \<Rightarrow> RouterH \<Rightarrow> loc set" where
  "refs_router h r = refs_steps h (rh_Steps r)"

definition abs_router_config :: "'k heap \<Rightarrow> RouterConfigH \<Rightarrow> RouterConfig" where
  "abs_router_config h c = \<lparr>rc_Name = ch_Name c, rc_ServiceName = ch_ServiceName c, rc_NameSpace = ch_NameSpace c,
     rc_Config = abs_strings h (ch_Config c)\<rparr>"

definition refs_router_config :: "'k heap \<Rightarrow> RouterConfigH \<Rightarrow> loc set" where
  "refs_router_config h c = refs_strings h (ch_Config c)"

definition abs_nodes :: "'k heap \<Rightarrow> loc option \<Rightarrow> (string, Router) gomap" where
  "abs_nodes h p = (case p of None \<Rightarrow> [] | Some l \<Rightarrow> map (\<lambda>nr. (fst nr, abs_router h (snd nr))) (nodes_at h l))"

definition refs_nodes :: "'k heap \<Rightarrow> loc option \<Rightarrow> loc set" where
  "refs_nodes h p = (case p of None \<Rightarrow> {} | Some l \<Rightarrow> insert l (\<Union>nr \<in> set (nodes_at h l). refs_router h (snd nr)))"

definition abs_spec :: "'k heap \<Rightarrow> SpecH \<Rightarrow> GMConnectorSpec" where
  "abs_spec h sp = \<lparr>Nodes = abs_nodes h (ph_Nodes sp), routerConfig = abs_router_config h (ph_RouterConfig sp)\<rparr>"

definition refs_spec :: "'k heap \<Rightarrow> SpecH \<Rightarrow> loc set" where
  "refs_spec h sp = refs_nodes h (ph_Nodes sp) \<union> refs_router_config h (ph_RouterConfig sp)"

text \<open>What Kubernetes' structs stand for and rest on is given by \<open>vm\<close>, \<open>vt\<close> and \<open>rm\<close>, \<open>rt\<close>.\<close>

type_synonym ('k, 'v) kview = "'k heap \<Rightarrow> 'k \<Rightarrow> 'v"

definition abs_condition :: "('k, string) kview \<Rightarrow> 'k heap \<Rightarrow> 'k ConditionH \<Rightarrow> GMConnectorCondition" where
  "abs_condition vt h c = \<lparr>gc_Type = nh_Type c, gc_Message = nh_Message c, gc_Reason = nh_Reason c,
     gc_LastUpdateTime = vt h (nh_LastUpdateTime c)\<rparr>"

definition abs_status :: "('k, string) kview \<Rightarrow> 'k heap \<Rightarrow> 'k StatusH \<Rightarrow> GMConnectorStatus" where
  "abs_status vt h s = \<lparr>gs_Condition = abs_condition vt h (uh_Condition s), gs_Status = uh_Status s, AccessURL = uh_AccessURL s,
     Annotations = (case abs_strings h (uh_Annotations s) of None \<Rightarrow> [] | Some m \<Rightarrow> m)\<rparr>"

definition refs_status :: "('k, loc set) kview \<Rightarrow> 'k heap \<Rightarrow> 'k StatusH \<Rightarrow> loc set" where
  "refs_status rt h s = rt h (nh_LastUpdateTime (uh_Condition s)) \<union> refs_strings h (uh_Annotations s)"

definition abs_connector :: "('k, ObjectMeta) kview \<Rightarrow> ('k, string) kview \<Rightarrow> 'k heap \<Rightarrow> 'k ConnectorH \<Rightarrow> GMConnector" where
  "abs_connector vm vt h g = \<lparr>gm_TypeMeta = gh_TypeMeta g, gm_ObjectMeta = vm h (gh_ObjectMeta g), gm_Spec = abs_spec h (gh_Spec g),
     gm_Status = abs_status vt h (gh_Status g)\<rparr>"

definition refs_connector :: "('k, loc set) kview \<Rightarrow> ('k, loc set) kview \<Rightarrow> 'k heap \<Rightarrow> 'k ConnectorH \<Rightarrow> loc set" where
  "refs_connector rm rt h g = rm h (gh_ObjectMeta g) \<union> (refs_spec h (gh_Spec g) \<union> refs_status rt h (gh_Status g))"

definition abs_items :: "('k, ObjectMeta) kview \<Rightarrow> ('k, string) kview \<Rightarrow> 'k heap \<Rightarrow> loc option \<Rightarrow> GMConnector list" where
  "abs_items vm vt h p = (case p of None \<Rightarrow> [] | Some l \<Rightarrow> map (abs_connector vm vt h) (items_at h l))"

definition refs_items :: "('k, loc set) kview \<Rightarrow> ('k, loc set) kview \<Rightarrow> 'k heap \<Rightarrow> loc option \<Rightarrow> loc set" where
  "refs_items rm rt h p = (case p of None \<Rightarrow> {} | Some l \<Rightarrow> insert l (\<Union>g \<in> set (items_at h l). refs_connector rm rt h g))"

section \<open>Composing copies\<close>

text \<open>A struct of which one part is copied.\<close>

lemma part_copier:
  assumes "deep_copier C v r" "\<And>s y. get (put y s) = y" "\<And>c s y. V c (put y s) = V c s"
    and "\<And>h s. view h s = V (v h (get s)) s" "\<And>h s. refs h s = r h (get s)" "\<And>s h. copy s h = (let (y, h') = C (get s) h in (put y s, h'))"
  shows "deep_copier copy view refs"
proof
  fix h h' s s'
  assume h: "heap_wf h" "refs h s \<subseteq> {..<length h}" "copy s h = (s', h')"
  obtain y where "C (get s) h = (y, h')" "s' = put y s" using h(3) assms(6) by (auto split: prod.splits)
  with deep_copier.copy_fresh [OF assms(1) h(1)] h(2) show "fresh_copy view refs s h s' h'"
    by (auto simp: fresh_copy_def assms(2-5))
next
  fix h h' s
  assume "\<forall>l \<in> refs h s. cell_at h' l = cell_at h l"
  with deep_copier.view_local [OF assms(1), of h "get s" h'] show "view h' s = view h s \<and> refs h' s = refs h s" by (simp add: assms(4,5))
qed

definition copy_pair :: "('k, 'a) copy \<Rightarrow> ('k, 'b) copy \<Rightarrow> ('k, 'a \<times> 'b) copy" where
  "copy_pair A B x h = (let (a, h1) = A (fst x) h; (b, h2) = B (snd x) h1 in ((a, b), h2))"

lemma pair_copier:
  assumes A: "deep_copier A va ra" and B: "deep_copier B vb rb"
  shows "deep_copier (copy_pair A B) (\<lambda>h x. (va h (fst x), vb h (snd x))) (\<lambda>h x. ra h (fst x) \<union> rb h (snd x))"
proof
  fix h h2 x y
  assume h: "heap_wf h" "ra h (fst x) \<union> rb h (snd x) \<subseteq> {..<length h}" "copy_pair A B x h = (y, h2)"
  obtain a h1 b where run: "A (fst x) h = (a, h1)" "B (snd x) h1 = (b, h2)" "y = (a, b)"
    using h(3) by (auto simp: copy_pair_def split: prod.splits)
  have a: "prefix h h1" "heap_wf h1" "va h1 a = va h (fst x)" "ra h1 a \<subseteq> {length h..<length h1}"
    using deep_copier.copy_fresh [OF A h(1) _ run(1)] h(2) by (auto simp: fresh_copy_def)
  have "\<forall>l \<in> rb h (snd x). cell_at h1 l = cell_at h l" using a(1) h(2) prefix_cell_at by blast
  then have x: "vb h1 (snd x) = vb h (snd x)" "rb h1 (snd x) = rb h (snd x)" using deep_copier.view_local [OF B] by blast+
  moreover have len: "length h \<le> length h1" using a(1) by (rule prefix_length_le)
  ultimately have "rb h1 (snd x) \<subseteq> {..<length h1}" using h(2) by fastforce
  then have b: "prefix h1 h2" "heap_wf h2" "vb h2 b = vb h1 (snd x)" "rb h2 b \<subseteq> {length h1..<length h2}"
    using deep_copier.copy_fresh [OF B a(2) _ run(2)] by (auto simp: fresh_copy_def)
  have "\<forall>l \<in> ra h1 a. cell_at h2 l = cell_at h1 l" using a(4) by (auto intro!: prefix_cell_at [OF b(1)])
  then have "va h2 a = va h1 a" "ra h2 a = ra h1 a" using deep_copier.view_local [OF A] by blast+
  with a b x len prefix_length_le [OF b(1)] run(3) prefix_order.trans [OF a(1) b(1)]
  show "fresh_copy (\<lambda>h x. (va h (fst x), vb h (snd x))) (\<lambda>h x. ra h (fst x) \<union> rb h (snd x)) x h y h2"
    by (intro fresh_copyI) auto
next
  fix h h' x
  assume "\<forall>l \<in> ra h (fst x) \<union> rb h (snd x). cell_at h' l = cell_at h l"
  then show "(va h' (fst x), vb h' (snd x)) = (va h (fst x), vb h (snd x)) \<and> ra h' (fst x) \<union> rb h' (snd x) = ra h (fst x) \<union> rb h (snd x)"
    using deep_copier.view_local [OF A, of h "fst x" h'] deep_copier.view_local [OF B, of h "snd x" h'] by auto
qed

section \<open>The copies of the API types\<close>

text \<open>What the loops leave in a new container.\<close>

lemma fold_put_key:
  assumes "\<And>k v m. put k v (con m) = con (gm_set k v m)"
  shows "length ys = length ks \<Longrightarrow> distinct ks \<Longrightarrow> set ks \<inter> set (gm_keys m) = {} \<Longrightarrow>
    fold (\<lambda>(i, y) c. put i y c) (zip ks ys) (con m) = con (m @ zip ks ys)"
  by (induction ys ks arbitrary: m rule: list_induct2) (auto simp: gm_set_fresh gm_keys_def assms)

lemma fold_put_index:
  assumes "\<And>i y xs. put i y (con xs) = con (xs[i := y])"
  shows "length zs = length ys \<Longrightarrow> fold (\<lambda>(i, y) c. put i y c) (zip [length xs..<length xs + length ys] ys) (con (xs @ zs)) = con (xs @ ys)"
proof (induction ys arbitrary: xs zs)
  case (Cons y ys)
  then obtain z zs' where "zs = z # zs'" "length zs' = length ys" by (cases zs) auto
  moreover have "[length xs..<length xs + length (y # ys)] = length xs # [length (xs @ [y])..<length (xs @ [y]) + length ys]"
    by (simp add: upt_conv_Cons del: upt_Suc)
  ultimately show ?case using Cons.IH [of zs' "xs @ [y]"] by (simp add: assms del: upt_Suc)
qed simp

lemma fold_put_all:
  assumes "\<And>i y xs. put i y (con xs) = con (xs[i := y])" "length ys = n"
  shows "fold (\<lambda>(i, y) c. put i y c) (zip [0..<n] ys) (con (replicate n z)) = con ys"
  using fold_put_index [of put con "replicate n z" ys "[]"] assms by simp

lemma put_wf: "cell_wf c \<Longrightarrow> cell_wf (put_string i y c)" "cell_wf c \<Longrightarrow> cell_wf (put_node i r c)" "cell_wf c \<Longrightarrow> cell_wf (put_step j s c)" "cell_wf c \<Longrightarrow> cell_wf (put_item j g c)"
  by (cases c; simp)+

lemma map_cells_wf: "heap_wf h \<Longrightarrow> gm_wf (strings_at h l)" "heap_wf h \<Longrightarrow> gm_wf (nodes_at h l)"
proof -
  assume "heap_wf h"
  then have "cell_wf c" if "cell_at h l = Some c" for c using that by (auto simp: heap_wf_def list_all_length cell_at_def split: if_splits)
  then show "gm_wf (strings_at h l)" "gm_wf (nodes_at h l)"
    by (force simp: strings_at_def nodes_at_def split: option.split cell.split)+
qed

interpretation text_value: deep_copier "\<lambda>v h. (v, h)" "\<lambda>h v. v" "\<lambda>h v. {}"
  by unfold_locales (auto simp: fresh_copy_def)

lemma gm_wf_keys: "gm_wf m \<Longrightarrow> distinct (map fst m)"
  by (simp add: gm_wf_def gm_keys_def)

lemma strings_filled:
  "heap_wf h \<Longrightarrow> length ys = length (strings_at h l) \<Longrightarrow>
    cell_at h' a = Some (fold (\<lambda>(i, y) c. put_string i y c) (zip (map fst (strings_at h l)) ys) (CStrings [])) \<Longrightarrow>
    strings_at h' a = zip (map fst (strings_at h l)) ys"
  using map_cells_wf(1) [of h l] by (simp add: strings_at_def [of h' a] fold_put_key [where con = CStrings] gm_wf_keys)

lemma nodes_filled:
  "heap_wf h \<Longrightarrow> length ys = length (nodes_at h l) \<Longrightarrow>
    cell_at h' a = Some (fold (\<lambda>(i, y) c. put_node i y c) (zip (map fst (nodes_at h l)) ys) (CNodes [])) \<Longrightarrow>
    nodes_at h' a = zip (map fst (nodes_at h l)) ys"
  using map_cells_wf(2) [of h l] by (simp add: nodes_at_def [of h' a] fold_put_key [where con = CNodes] gm_wf_keys)

lemma steps_filled:
  "length ys = length xs \<Longrightarrow>
    cell_at h' a = Some (fold (\<lambda>(i, y) c. put_step i y c) (zip [0..<length xs] ys) (CSteps (replicate (length xs) zero_stepH))) \<Longrightarrow>
    steps_at h' a = ys"
  by (simp add: steps_at_def [of h' a] fold_put_all [where con = CSteps])

lemma items_filled:
  "length ys = length xs \<Longrightarrow>
    cell_at h' a = Some (fold (\<lambda>(i, y) c. put_item i y c) (zip [0..<length xs] ys) (CItems (replicate (length xs) z))) \<Longrightarrow>
    items_at h' a = ys"
  by (simp add: items_at_def [of h' a] fold_put_all [where con = CItems])

lemma cells_local:
  "cell_at h' l = cell_at h l \<Longrightarrow> strings_at h' l = strings_at h l"
  "cell_at h' l = cell_at h l \<Longrightarrow> nodes_at h' l = nodes_at h l"
  "cell_at h' l = cell_at h l \<Longrightarrow> steps_at h' l = steps_at h l"
  "cell_at h' l = cell_at h l \<Longrightarrow> items_at h' l = items_at h l"
  by (simp_all add: strings_at_def nodes_at_def steps_at_def items_at_def)

interpretation strings: deep_copier copy_strings abs_strings refs_strings
proof (rule text_value.container_copier [where entries = strings_at and ?c0.0 = "\<lambda>_. CStrings []" and put = put_string and W = id])
  fix h h' :: "'k heap" and p l
  show "copy_strings p h = (case p of None \<Rightarrow> (None, h) | Some l \<Rightarrow> copy_into_new (CStrings []) (\<lambda>v h. (v, h)) put_string (strings_at h l) h)"
    by (simp add: copy_strings_def)
  show "abs_strings h p = id (map_option (\<lambda>l. map (\<lambda>e. (fst e, snd e)) (strings_at h l)) p)"
    by (simp add: abs_strings_def)
  show "refs_strings h p = (case p of None \<Rightarrow> {} | Some l \<Rightarrow> insert l (\<Union>e \<in> set (strings_at h l). {}))"
    by (simp add: refs_strings_def split: option.split)
qed (fact strings_filled cells_local(1) put_wf(1) | simp)+

interpretation target: deep_copier GMCTarget_DeepCopyInto abs_target refs_target
  by (rule part_copier [OF strings.deep_copier_axioms, where get = th_Config and put = "\<lambda>c t. t\<lparr>th_Config := c\<rparr>"
        and V = "\<lambda>c t. \<lparr>ServiceName = th_ServiceName t, NameSpace = th_NameSpace t, Config = c, IsDownstreamService = th_IsDownstreamService t\<rparr>"])
    (simp_all add: abs_target_def refs_target_def GMCTarget_DeepCopyInto_def)

interpretation executor: deep_copier Executor_DeepCopyInto abs_executor refs_executor
  by (rule part_copier [OF target.deep_copier_axioms, where get = eh_InternalService and put = "\<lambda>c t. t\<lparr>eh_InternalService := c\<rparr>"
        and V = "\<lambda>c e. \<lparr>NodeName = eh_NodeName e, InternalService = c, ExternalService = eh_ExternalService e\<rparr>"])
    (simp_all add: abs_executor_def refs_executor_def Executor_DeepCopyInto_def)

interpretation step: deep_copier Step_DeepCopyInto abs_step refs_step
  by (rule part_copier [OF executor.deep_copier_axioms, where get = sh_Executor and put = "\<lambda>c t. t\<lparr>sh_Executor := c\<rparr>"
        and V = "\<lambda>c s. \<lparr>StepName = sh_StepName s, StepExecutor = c, Data = sh_Data s, Condition = sh_Condition s,
          Dependency = sh_Dependency s, ServiceURL = sh_ServiceURL s\<rparr>"])
    (simp_all add: abs_step_def refs_step_def Step_DeepCopyInto_def)

interpretation router_config: deep_copier RouterConfig_DeepCopyInto abs_router_config refs_router_config
  by (rule part_copier [OF strings.deep_copier_axioms, where get = ch_Config and put = "\<lambda>c t. t\<lparr>ch_Config := c\<rparr>"
        and V = "\<lambda>c t. \<lparr>rc_Name = ch_Name t, rc_ServiceName = ch_ServiceName t, rc_NameSpace = ch_NameSpace t, rc_Config = c\<rparr>"])
    (simp_all add: abs_router_config_def refs_router_config_def RouterConfig_DeepCopyInto_def)

lemma set_enumerate_snd: "(\<Union>e \<in> set (enumerate 0 xs). f (snd e)) = (\<Union>x \<in> set xs. f x)"
  by (metis UN_simps(10) map_snd_enumerate set_map)

text \<open>The elements of a slice are its entries under their indices.\<close>

interpretation steps: deep_copier copy_steps abs_steps refs_steps
proof (rule step.container_copier [where entries = "\<lambda>h l. enumerate 0 (steps_at h l)" and put = put_step
      and ?c0.0 = "\<lambda>es. CSteps (replicate (length es) zero_stepH)" and W = "\<lambda>es. case es of None \<Rightarrow> [] | Some es \<Rightarrow> map snd es"])
  fix h h' :: "'k heap" and p l a ys
  show "copy_steps p h = (case p of None \<Rightarrow> (None, h) | Some l \<Rightarrow>
      copy_into_new (CSteps (replicate (length (enumerate 0 (steps_at h l))) zero_stepH)) Step_DeepCopyInto put_step (enumerate 0 (steps_at h l)) h)"
    by (simp add: copy_steps_def Let_def split: option.split)
  show "abs_steps h p = (case map_option (\<lambda>l. map (\<lambda>e. (fst e, abs_step h (snd e))) (enumerate 0 (steps_at h l))) p of
      None \<Rightarrow> [] | Some es \<Rightarrow> map snd es)"
    by (cases p) (auto simp: abs_steps_def enumerate_eq_zip intro!: nth_equalityI)
  show "refs_steps h p = (case p of None \<Rightarrow> {} | Some l \<Rightarrow> insert l (\<Union>e \<in> set (enumerate 0 (steps_at h l)). refs_step h (snd e)))"
    by (simp add: refs_steps_def set_enumerate_snd split: option.split)
  show "enumerate 0 (steps_at h' a) = zip (map fst (enumerate 0 (steps_at h l))) ys"
    if "length ys = length (enumerate 0 (steps_at h l))" "cell_at h' a = Some (fold (\<lambda>(i, y) c. put_step i y c)
      (zip (map fst (enumerate 0 (steps_at h l))) ys) (CSteps (replicate (length (enumerate 0 (steps_at h l))) zero_stepH)))"
    using that steps_filled [of ys "steps_at h l" h' a] by (simp add: enumerate_eq_zip)
  show "enumerate 0 (steps_at h' l) = enumerate 0 (steps_at h l)" if "cell_at h' l = cell_at h l"
    using cells_local(3) [OF that] by simp
qed (fact put_wf(3) | simp)+

interpretation router: deep_copier Router_DeepCopyInto abs_router refs_router
  by (rule part_copier [OF steps.deep_copier_axioms, where get = rh_Steps and put = "\<lambda>c t. t\<lparr>rh_Steps := c\<rparr>"
        and V = "\<lambda>c r. \<lparr>routerType = rh_RouterType r, Steps = c\<rparr>"])
    (simp_all add: abs_router_def refs_router_def Router_DeepCopyInto_def)

interpretation node: deep_copier node_copy abs_router refs_router
proof
  fix h h' :: "'k heap" and x y
  assume h: "heap_wf h" "refs_router h x \<subseteq> {..<length h}" "node_copy x h = (y, h')"
  obtain p h2 where run: "new_copy CRouter zero_routerH Router_DeepCopyInto x h = (p, h2)" by fastforce
  obtain z where z: "p = Some (length h)" "cell_at h2 (length h) = Some (CRouter z)" "fresh_copy abs_router refs_router x h z h2"
    by (rule router.new_copy_fresh [OF h(1,2) _ run]) simp
  with h(3) run show "fresh_copy abs_router refs_router x h y h'" by (simp add: node_copy_def)
qed (rule router.view_local)

interpretation nodes: deep_copier copy_nodes abs_nodes refs_nodes
proof (rule node.container_copier [where entries = nodes_at and ?c0.0 = "\<lambda>_. CNodes []" and put = put_node
      and W = "\<lambda>es. case es of None \<Rightarrow> [] | Some es \<Rightarrow> es"])
  fix h h' :: "'k heap" and p l
  show "copy_nodes p h = (case p of None \<Rightarrow> (None, h) | Some l \<Rightarrow> copy_into_new (CNodes []) node_copy put_node (nodes_at h l) h)"
    by (simp add: copy_nodes_def)
  show "abs_nodes h p = (case map_option (\<lambda>l. map (\<lambda>e. (fst e, abs_router h (snd e))) (nodes_at h l)) p of None \<Rightarrow> [] | Some es \<Rightarrow> es)"
    by (simp add: abs_nodes_def split: option.split)
  show "refs_nodes h p = (case p of None \<Rightarrow> {} | Some l \<Rightarrow> insert l (\<Union>e \<in> set (nodes_at h l). refs_router h (snd e)))"
    by (simp add: refs_nodes_def)
qed (fact nodes_filled cells_local(2) put_wf(2) | simp)+

interpretation spec: deep_copier GMConnectorSpec_DeepCopyInto abs_spec refs_spec
  by (rule part_copier [OF pair_copier [OF nodes.deep_copier_axioms router_config.deep_copier_axioms],
        where get = "\<lambda>sp. (ph_Nodes sp, ph_RouterConfig sp)" and put = "\<lambda>c sp. sp\<lparr>ph_Nodes := fst c, ph_RouterConfig := snd c\<rparr>"
        and V = "\<lambda>c sp. \<lparr>Nodes = fst c, routerConfig = snd c\<rparr>"])
    (simp_all add: abs_spec_def refs_spec_def GMConnectorSpec_DeepCopyInto_def copy_pair_def Let_def split_def)

text \<open>The types that hold structs of Kubernetes are copied afresh when those are: the copies of \<open>Time\<close>, \<open>ObjectMeta\<close>
  and \<open>ListMeta\<close> have the contract of the locale.\<close>

lemma condition_copier:
  assumes "deep_copier copy_time vt rt"
  shows "deep_copier (GMConnectorCondition_DeepCopyInto copy_time) (abs_condition vt) (\<lambda>h c. rt h (nh_LastUpdateTime c))"
  by (rule part_copier [OF assms, where get = nh_LastUpdateTime and put = "\<lambda>x c. c\<lparr>nh_LastUpdateTime := x\<rparr>"
        and V = "\<lambda>x c. \<lparr>gc_Type = nh_Type c, gc_Message = nh_Message c, gc_Reason = nh_Reason c, gc_LastUpdateTime = x\<rparr>"])
    (simp_all add: abs_condition_def GMConnectorCondition_DeepCopyInto_def)

lemma status_copier:
  assumes "deep_copier copy_time vt rt"
  shows "deep_copier (GMConnectorStatus_DeepCopyInto copy_time) (abs_status vt) (refs_status rt)"
  by (rule part_copier [OF pair_copier [OF condition_copier [OF assms] strings.deep_copier_axioms],
        where get = "\<lambda>s. (uh_Condition s, uh_Annotations s)" and put = "\<lambda>c s. s\<lparr>uh_Condition := fst c, uh_Annotations := snd c\<rparr>"
        and V = "\<lambda>c s. \<lparr>gs_Condition = fst c, gs_Status = uh_Status s, AccessURL = uh_AccessURL s,
          Annotations = (case snd c of None \<Rightarrow> [] | Some m \<Rightarrow> m)\<rparr>"])
    (simp_all add: abs_status_def refs_status_def GMConnectorStatus_DeepCopyInto_def copy_pair_def Let_def split_def)

lemma connector_copier:
  assumes "deep_copier copy_meta vm rm" "deep_copier copy_time vt rt"
  shows "deep_copier (GMConnector_DeepCopyInto copy_meta copy_time) (abs_connector vm vt) (refs_connector rm rt)"
  by (rule part_copier [OF pair_copier [OF assms(1) pair_copier [OF spec.deep_copier_axioms status_copier [OF assms(2)]]],
        where get = "\<lambda>g. (gh_ObjectMeta g, gh_Spec g, gh_Status g)"
        and put = "\<lambda>c g. g\<lparr>gh_ObjectMeta := fst c, gh_Spec := fst (snd c), gh_Status := snd (snd c)\<rparr>"
        and V = "\<lambda>c g. \<lparr>gm_TypeMeta = gh_TypeMeta g, gm_ObjectMeta = fst c, gm_Spec = fst (snd c), gm_Status = snd (snd c)\<rparr>"])
    (simp_all add: abs_connector_def refs_connector_def GMConnector_DeepCopyInto_def copy_pair_def Let_def split_def)

lemma items_copier:
  assumes "deep_copier copy_meta vm rm" "deep_copier copy_time vt rt"
  shows "deep_copier (copy_items copy_meta copy_time zero) (abs_items vm vt) (refs_items rm rt)"
proof (rule deep_copier.container_copier [OF connector_copier [OF assms], where entries = "\<lambda>h l. enumerate 0 (items_at h l)" and put = put_item
      and ?c0.0 = "\<lambda>es. CItems (replicate (length es) zero)" and W = "\<lambda>es. case es of None \<Rightarrow> [] | Some es \<Rightarrow> map snd es"])
  fix h h' :: "'a heap" and p l a ys
  show "copy_items copy_meta copy_time zero p h = (case p of None \<Rightarrow> (None, h) | Some l \<Rightarrow>
      copy_into_new (CItems (replicate (length (enumerate 0 (items_at h l))) zero)) (GMConnector_DeepCopyInto copy_meta copy_time)
        put_item (enumerate 0 (items_at h l)) h)"
    by (simp add: copy_items_def Let_def split: option.split)
  show "abs_items vm vt h p = (case map_option (\<lambda>l. map (\<lambda>e. (fst e, abs_connector vm vt h (snd e))) (enumerate 0 (items_at h l))) p of
      None \<Rightarrow> [] | Some es \<Rightarrow> map snd es)"
    by (cases p) (auto simp: abs_items_def enumerate_eq_zip intro!: nth_equalityI)
  show "refs_items rm rt h p = (case p of None \<Rightarrow> {} | Some l \<Rightarrow> insert l (\<Union>e \<in> set (enumerate 0 (items_at h l)). refs_connector rm rt h (snd e)))"
    by (simp add: refs_items_def set_enumerate_snd split: option.split)
  show "enumerate 0 (items_at h' a) = zip (map fst (enumerate 0 (items_at h l))) ys"
    if "length ys = length (enumerate 0 (items_at h l))" "cell_at h' a = Some (fold (\<lambda>(i, y) c. put_item i y c)
      (zip (map fst (enumerate 0 (items_at h l))) ys) (CItems (replicate (length (enumerate 0 (items_at h l))) zero)))"
    using that items_filled [of ys "items_at h l" h' a zero] by (simp add: enumerate_eq_zip)
  show "enumerate 0 (items_at h' l) = enumerate 0 (items_at h l)" if "cell_at h' l = cell_at h l"
    using cells_local(4) [OF that] by simp
qed (fact put_wf(4) | simp)+

lemma list_copier:
  assumes "deep_copier copy_list_meta vl rl" "deep_copier copy_meta vm rm" "deep_copier copy_time vt rt"
  shows "deep_copier (GMConnectorList_DeepCopyInto copy_list_meta copy_meta copy_time zero)
    (\<lambda>h g. (lh_TypeMeta g, vl h (lh_ListMeta g), abs_items vm vt h (lh_Items g))) (\<lambda>h g. rl h (lh_ListMeta g) \<union> refs_items rm rt h (lh_Items g))"
  by (rule part_copier [OF pair_copier [OF assms(1) items_copier [OF assms(2,3)]],
        where get = "\<lambda>g. (lh_ListMeta g, lh_Items g)" and put = "\<lambda>c g. g\<lparr>lh_ListMeta := fst c, lh_Items := snd c\<rparr>"
        and V = "\<lambda>c g. (lh_TypeMeta g, fst c, snd c)"])
    (simp_all add: GMConnectorList_DeepCopyInto_def copy_pair_def Let_def split_def)

section \<open>The copy of a graph\<close>

text \<open>C13: The copy of a graph (\<open>DeepCopyObject\<close>, which the client cache and the controller use) is a new object with the same contents,
  and the two are independent: whatever is written later to any memory the original may use leaves the copy as it is, and
  whatever is written to the memory that is new leaves the original as it is. Only new memory is written, and the nil pointer
  is copied to nil. The copies of Kubernetes' own structs are assumed to have the same contract.\<close>

theorem graph_copy_independent:
  assumes kube: "deep_copier copy_meta vm rm" "deep_copier copy_time vt rt"
    and h: "heap_wf h" "cell_at h l = Some (CConnector g)" "refs_connector rm rt h g \<subseteq> {..<length h}"
  shows "(\<exists>q g' h'. GMConnector_DeepCopyObject copy_meta copy_time zero (Some l) h = (Some q, h') \<and>
      length h \<le> q \<and> prefix h h' \<and> cell_at h' q = Some (CConnector g') \<and>
      abs_connector vm vt h' g' = abs_connector vm vt h g \<and>
      (\<forall>h2. (\<forall>k \<ge> length h. cell_at h2 k = cell_at h' k) \<longrightarrow> abs_connector vm vt h2 g' = abs_connector vm vt h g) \<and>
      (\<forall>h2. (\<forall>k < length h. cell_at h2 k = cell_at h' k) \<longrightarrow> abs_connector vm vt h2 g = abs_connector vm vt h g)) \<and>
    GMConnector_DeepCopyObject copy_meta copy_time zero None h = (None, h)" (is "?copied \<and> _")
proof -
  note connector = connector_copier [OF kube]
  obtain p h' where run: "new_copy CConnector zero (GMConnector_DeepCopyInto copy_meta copy_time) g h = (p, h')" by fastforce
  obtain g' where g': "p = Some (length h)" "cell_at h' (length h) = Some (CConnector g')"
      "fresh_copy (abs_connector vm vt) (refs_connector rm rt) g h g' h'"
    by (rule deep_copier.new_copy_fresh [OF connector h(1,3) _ run]) simp
  have "GMConnector_DeepCopyObject copy_meta copy_time zero (Some l) h = (Some (length h), h')"
    using run g'(1) h(2) by (simp add: GMConnector_DeepCopyObject_def GMConnector_DeepCopy_def)
  moreover have "prefix h h'" "abs_connector vm vt h' g' = abs_connector vm vt h g" using g'(3) by (simp_all add: fresh_copy_def)
  ultimately have ?copied
    using g'(2) deep_copier.fresh_independent [OF connector g'(3) h(3)] by (intro exI conjI) (assumption | blast | simp)+
  then show ?thesis by (simp add: GMConnector_DeepCopyObject_def GMConnector_DeepCopy_def)
qed

text \<open>A graph of one step with a configuration; Kubernetes' structs are plain text here.\<close>

definition sample_heap :: "string heap" where
  "sample_heap = [CStrings [(''MODEL'', ''tiny'')],
     CSteps [zero_stepH\<lparr>sh_StepName := ''Llm'', sh_Executor := zero_executorH\<lparr>eh_InternalService := zero_targetH\<lparr>th_Config := Some 0\<rparr>\<rparr>\<rparr>],
     CNodes [(''root'', \<lparr>rh_RouterType = ''Sequence'', rh_Steps = Some 1\<rparr>)],
     CConnector \<lparr>gh_TypeMeta = \<lparr>tm_Kind = [], tm_APIVersion = []\<rparr>, gh_ObjectMeta = ''chatqa'',
       gh_Spec = \<lparr>ph_Nodes = Some 2, ph_RouterConfig = zero_router_configH\<rparr>,
       gh_Status = \<lparr>uh_Condition = \<lparr>nh_Type = [], nh_Message = [], nh_Reason = [], nh_LastUpdateTime = []\<rparr>, uh_Status = [], uh_AccessURL = [],
         uh_Annotations = None\<rparr>\<rparr>]"

definition sample_graphH :: "string ConnectorH" where
  "sample_graphH = (case sample_heap ! 3 of CConnector g \<Rightarrow> g)"

definition named_meta :: "(string, ObjectMeta) kview" where
  "named_meta h s = \<lparr>om_Name = s, om_Namespace = [], om_Labels = None, om_DeletionTimestamp = None, om_ResourceVersion = [], om_OwnerReferences = []\<rparr>"

theorem graph_copy_independent_witness:
  "\<exists>q g' h'. GMConnector_DeepCopyObject (\<lambda>x h. (x, h)) (\<lambda>x h. (x, h)) sample_graphH (Some 3) sample_heap = (Some q, h') \<and>
     4 \<le> q \<and> cell_at h' q = Some (CConnector g') \<and>
     abs_connector named_meta (\<lambda>h x. x) h' g' = abs_connector named_meta (\<lambda>h x. x) sample_heap sample_graphH \<and>
     abs_connector named_meta (\<lambda>h x. x) (h'[0 := CStrings [(''MODEL'', ''huge'')]]) g' = abs_connector named_meta (\<lambda>h x. x) sample_heap sample_graphH"
proof -
  have k: "deep_copier (\<lambda>x h. (x, h)) named_meta (\<lambda>h x. {})" by unfold_locales (auto simp: fresh_copy_def named_meta_def)
  have g: "heap_wf sample_heap" "cell_at sample_heap 3 = Some (CConnector sample_graphH)" "length sample_heap = 4"
    by (simp_all add: heap_wf_def sample_heap_def sample_graphH_def cell_at_def gm_wf_def gm_keys_def)
  have "refs_connector (\<lambda>h x. {}) (\<lambda>h x. {}) sample_heap sample_graphH \<subseteq> {..<length sample_heap}"
    by (simp add: refs_connector_def refs_spec_def refs_status_def refs_strings_def refs_nodes_def refs_router_def refs_steps_def refs_step_def
        refs_executor_def refs_target_def refs_router_config_def sample_graphH_def sample_heap_def nodes_at_def steps_at_def cell_at_def
        zero_router_configH_def zero_stepH_def zero_executorH_def zero_targetH_def)
  from graph_copy_independent [OF k text_value.deep_copier_axioms g(1,2) this, of sample_graphH]
  obtain q g' h' where c: "GMConnector_DeepCopyObject (\<lambda>x h. (x, h)) (\<lambda>x h. (x, h)) sample_graphH (Some 3) sample_heap = (Some q, h')"
      "4 \<le> q" "cell_at h' q = Some (CConnector g')"
      "abs_connector named_meta (\<lambda>h x. x) h' g' = abs_connector named_meta (\<lambda>h x. x) sample_heap sample_graphH"
      "\<forall>h2. (\<forall>k \<ge> 4. cell_at h2 k = cell_at h' k) \<longrightarrow>
        abs_connector named_meta (\<lambda>h x. x) h2 g' = abs_connector named_meta (\<lambda>h x. x) sample_heap sample_graphH"
    unfolding g(3) by blast
  moreover have "\<forall>k \<ge> 4. cell_at (h'[0 := CStrings [(''MODEL'', ''huge'')]]) k = cell_at h' k" by (simp add: cell_at_def)
  ultimately show ?thesis by blast
qed

end
