(* ===== verification/Manager_Main.thy ===== *)
theory Manager_Main
  imports Webhook_Setup Router_Main Go_Json_Roundtrip Validating_Webhook "HOL-Library.Word"
begin

text \<open>
  The start of the controller manager (\<open>cmd/main.go\<close>): the handler that reads and sets the log level, and \<open>main\<close>, which makes
  the certificate of the webhook, writes the webhook configuration, and sets up and starts the manager. The stages run
  in order; the first one that fails is logged and ends the process with exit code 1.

  \<open>controller-runtime\<close>, the Kubernetes client and \<open>zap\<close> are parameters. The state is the list of what the process has
  set up and the cluster with the writes to the webhook configuration. Messages of level info are not modelled.
\<close>

section \<open>The log level\<close>

record 'lvl zap =
  zap_UnmarshalText :: "string \<Rightarrow> go_error + 'lvl"
  zap_String :: "'lvl \<Rightarrow> string"
  zap_InfoLevel :: 'lvl

text \<open>\<open>json.Decoder.Decode\<close>: the first value of the stream, whatever follows it. A value that is no object and no array ends
  with the byte after it or with the stream.\<close>

definition decode_first :: "stream \<Rightarrow> jtree option" where
  "decode_first b = (let (d, err, b) = readAll b in
     case p_value (2 * length d + 2) d of
       None \<Rightarrow> None
     | Some (t, r) \<Rightarrow>
         (case t of TObj _ \<Rightarrow> Some t | TArr _ \<Rightarrow> Some t | _ \<Rightarrow> if err \<noteq> None \<and> r = [] then None else Some t))"

text \<open>The struct of the body has the one field \<open>log_level\<close>.\<close>

definition dec_log_level :: "string dec" where
  "dec_log_level = dec_struct [(''log_level'', dec_string)]"

text \<open>The handler on the level of the logger; \<open>decode_error\<close> is the text of the error of the decoder.\<close>

definition logLevelHandler :: "'lvl zap \<Rightarrow> (stream \<Rightarrow> go_error) \<Rightarrow> srv_request \<Rightarrow> writer \<Rightarrow> 'lvl \<Rightarrow> writer \<times> 'lvl" where
  "logLevelHandler Z decode_error r w level =
     (if rq_method r = ''GET'' then
        (snd (w_write (''current log level: '' @ zap_String Z level @ nl) w), level)
      else if rq_method r = ''PUT'' then
        (case Option.bind (decode_first (rq_body r)) (\<lambda>t. dec_log_level t []) of
           None \<Rightarrow> (http_Error w (''invalid request body: '' @ decode_error (rq_body r) @ nl) 400, level)
         | Some LogLevel \<Rightarrow>
             if LogLevel = [] then (http_Error w (''log_level field is required'' @ nl) 400, level)
             else (case zap_UnmarshalText Z LogLevel of
                Inl err \<Rightarrow> (http_Error w (''invalid log level: '' @ err @ nl) 400, level)
              | Inr zapLevel \<Rightarrow>
                  (snd (w_write (''log level set to '' @ zap_String Z zapLevel @ nl) w), zapLevel)))
      else (http_Error w ''method not allowed'' 405, level))"

section \<open>Set-up of the servers\<close>

definition int32 :: "int \<Rightarrow> int" where
  "int32 i = sint (word_of_int i :: 32 word)"

record manager_flags =
  metricsAddr :: string
  probeAddr :: string
  enableLeaderElection :: bool
  secureMetrics :: bool
  enableHTTP2 :: bool

definition default_flags :: manager_flags where
  "default_flags = \<lparr>metricsAddr = '':8080'', probeAddr = '':8081'', enableLeaderElection = False, secureMetrics = False, enableHTTP2 = False\<rparr>"

record 'cert tls_config =
  NextProtos :: "string list"
  MinVersion :: string
  GetCertificate :: "'cert option"

type_synonym 'cert tls_opt = "'cert tls_config \<Rightarrow> 'cert tls_config"

record 'cert webhook_options =
  wo_Port :: int
  wo_TLSOpts :: "'cert tls_opt list"

record 'cert manager_options =
  mo_BindAddress :: string
  mo_SecureServing :: bool
  mo_MetricsTLSOpts :: "'cert tls_opt list"
  mo_WebhookServer :: "'cert webhook_options"
  mo_HealthProbeBindAddress :: string
  mo_LeaderElection :: bool
  mo_LeaderElectionID :: string

definition disableHTTP2 :: "'cert tls_opt" where
  "disableHTTP2 c = c\<lparr>NextProtos := [''http/1.1'']\<rparr>"

definition serve_pair :: "'cert \<Rightarrow> 'cert tls_opt" where
  "serve_pair pair cfg = cfg\<lparr>GetCertificate := Some pair, MinVersion := ''TLS12''\<rparr>"

definition manager_options_of :: "int \<Rightarrow> manager_flags \<Rightarrow> 'cert \<Rightarrow> 'cert manager_options" where
  "manager_options_of webhookPort fls pair =
     \<lparr>mo_BindAddress = metricsAddr fls, mo_SecureServing = secureMetrics fls,
      mo_MetricsTLSOpts = (if enableHTTP2 fls then [] else [disableHTTP2]),
      mo_WebhookServer = \<lparr>wo_Port = webhookPort, wo_TLSOpts = [serve_pair pair]\<rparr>,
      mo_HealthProbeBindAddress = probeAddr fls, mo_LeaderElection = enableLeaderElection fls,
      mo_LeaderElectionID = ''6aba56f0.opea.io''\<rparr>"

text \<open>A server applies the options to its own configuration, in order.\<close>

definition apply_tls :: "'cert tls_opt list \<Rightarrow> 'cert tls_config \<Rightarrow> 'cert tls_config" where
  "apply_tls opts base = fold (\<lambda>f. f) opts base"

text \<open>\<open>predicate.Funcs\<close>: a function that is not given is \<open>None\<close>.\<close>

record predicate_funcs =
  pf_Create :: "(watched \<Rightarrow> bool) option"
  pf_Update :: "(watched \<Rightarrow> watched \<Rightarrow> bool) option"
  pf_Delete :: "(watched \<Rightarrow> bool) option"
  pf_Generic :: "(watched \<Rightarrow> bool) option"

definition gmcfilter :: predicate_funcs where
  "gmcfilter = \<lparr>pf_Create = None, pf_Update = Some isGMCSpecOrMetadataChanged, pf_Delete = None, pf_Generic = None\<rparr>"

definition deploymentFilter :: predicate_funcs where
  "deploymentFilter = \<lparr>pf_Create = Some (\<lambda>e. False), pf_Update = Some isDeploymentStatusChanged, pf_Delete = Some (\<lambda>e. False), pf_Generic = None\<rparr>"

record controller_setup =
  ct_For :: "string \<times> predicate_funcs"
  ct_Watches :: "(string \<times> predicate_funcs) list"

record validator =
  vd_Create :: "GMConnector \<Rightarrow> api_error option"
  vd_Update :: "GMConnector \<Rightarrow> GMConnector \<Rightarrow> api_error option"
  vd_Delete :: "GMConnector \<Rightarrow> api_error option"

text \<open>\<open>controller-runtime\<close> and the client: \<open>get_config\<close> is \<open>ctrl.GetConfig\<close>, \<open>new_client\<close> is \<open>kubernetes.NewForConfig\<close>; the
  operations of a manager \<open>'m\<close> follow.\<close>

record ('w, 'm, 'cert) ctrl =
  DefaultPort :: int
  get_config :: "'w \<Rightarrow> go_error + string"
  new_client :: "string \<Rightarrow> go_error + 'w adm"
  new_manager :: "string \<Rightarrow> 'cert manager_options \<Rightarrow> 'w \<Rightarrow> (go_error + 'm) \<times> 'w"
  complete_webhook :: "'m \<Rightarrow> validator \<Rightarrow> 'w \<Rightarrow> go_error option \<times> 'w"
  complete_controller :: "'m \<Rightarrow> controller_setup \<Rightarrow> 'w \<Rightarrow> go_error option \<times> 'w"
  add_healthz :: "'m \<Rightarrow> string \<Rightarrow> 'w \<Rightarrow> go_error option \<times> 'w"
  add_readyz :: "'m \<Rightarrow> string \<Rightarrow> 'w \<Rightarrow> go_error option \<times> 'w"
  mgr_start :: "'m \<Rightarrow> 'w \<Rightarrow> go_error option \<times> 'w"

definition GetClient :: "('w, 'm, 'cert) ctrl \<Rightarrow> 'w \<Rightarrow> go_error + 'w adm" where
  "GetClient R w = (case get_config R w of
     Inl err \<Rightarrow> Inl err
   | Inr config \<Rightarrow> (case new_client R config of Inl err \<Rightarrow> Inl err | Inr clientset \<Rightarrow> Inr clientset))"

definition SetupWebhookWithManager :: "('w, 'm, 'cert) ctrl \<Rightarrow> 'm \<Rightarrow> 'w \<Rightarrow> go_error option \<times> 'w" where
  "SetupWebhookWithManager R mgr =
     complete_webhook R mgr \<lparr>vd_Create = ValidateCreate, vd_Update = (\<lambda>old new. ValidateUpdate new old), vd_Delete = ValidateDelete\<rparr>"

definition SetupWithManager :: "('w, 'm, 'cert) ctrl \<Rightarrow> 'm \<Rightarrow> 'w \<Rightarrow> go_error option \<times> 'w" where
  "SetupWithManager R mgr =
     complete_controller R mgr \<lparr>ct_For = (''GMConnector'', gmcfilter), ct_Watches = [(''Deployment'', deploymentFilter)]\<rparr>"

section \<open>The process\<close>

datatype 'cert mgr_event =
    LogLevelServer string string | ManagerMade "'cert manager_options" | WebhookSet | ControllerSet
  | HealthzSet string | ReadyzSet string | ManagerStopped | Failed go_error string | ConfigMissing

record ('w, 'cert) ms =
  ms_events :: "'cert mgr_event list"
  ms_ws :: "'w ws"

definition ms_log :: "'cert mgr_event \<Rightarrow> 'w \<Rightarrow> ('w, 'cert) ms \<Rightarrow> ('w, 'cert) ms" where
  "ms_log e w s = s\<lparr>ms_events := ms_events s @ [e], ms_ws := (ms_ws s)\<lparr>ws_world := w\<rparr>\<rparr>"

abbreviation ms_world :: "('w, 'cert) ms \<Rightarrow> 'w" where
  "ms_world s \<equiv> ws_world (ms_ws s)"

text \<open>A call whose error is logged with \<open>msg\<close> and ends the process; \<open>e\<close> records that it was done.\<close>

definition stage :: "('w \<Rightarrow> go_error option \<times> 'w) \<Rightarrow> string \<Rightarrow> 'cert mgr_event \<Rightarrow> (('w, 'cert) ms \<Rightarrow> int \<times> ('w, 'cert) ms) \<Rightarrow>
    ('w, 'cert) ms \<Rightarrow> int \<times> ('w, 'cert) ms" where
  "stage call msg e next s = (case call (ms_world s) of
     (Some err, w) \<Rightarrow> (1, ms_log (Failed err msg) w s)
   | (None, w) \<Rightarrow> next (ms_log e w s))"

text \<open>From the making of the webhook server on. \<open>GetConfigOrDie\<close> ends the process itself.\<close>

definition run_manager :: "('w, 'm, 'cert) ctrl \<Rightarrow> manager_flags \<Rightarrow> 'cert \<Rightarrow> ('w, 'cert) ms \<Rightarrow> int \<times> ('w, 'cert) ms" where
  "run_manager R fls pair s =
     (let opts = manager_options_of (DefaultPort R) fls pair in
      case get_config R (ms_world s) of
        Inl err \<Rightarrow> (1, ms_log ConfigMissing (ms_world s) s)
      | Inr config \<Rightarrow>
          (case new_manager R config opts (ms_world s) of
             (Inl err, w) \<Rightarrow> (1, ms_log (Failed err ''unable to start manager'') w s)
           | (Inr mgr, w) \<Rightarrow>
               (stage (SetupWebhookWithManager R mgr) ''unable to create validating webhook'' WebhookSet
               (stage (SetupWithManager R mgr) ''unable to create controller'' ControllerSet
               (stage (add_healthz R mgr ''healthz'') ''unable to set up health check'' (HealthzSet ''healthz'')
               (stage (add_readyz R mgr ''readyz'') ''unable to set up ready check'' (ReadyzSet ''readyz'')
               (stage (mgr_start R mgr) ''problem running manager'' ManagerStopped (\<lambda>s. (0, s)))))))
               (ms_log (ManagerMade opts) w s)))"

definition manager_main :: "('w, 'm, 'cert) ctrl \<Rightarrow> ('r, 'k) crypto \<Rightarrow> (bytes \<Rightarrow> bytes \<Rightarrow> go_error + 'cert) \<Rightarrow> manager_flags \<Rightarrow>
    (string, string) gomap \<Rightarrow> 'r \<Rightarrow> ('w, 'cert) ms \<Rightarrow> int \<times> ('w, 'cert) ms" where
  "manager_main R C keyPair fls env r s =
     (let s = ms_log (LogLevelServer '':8008'' ''/loglevel'') (ms_world s) s;
          webhookServiceName = GetEnvWithDefault env ''SERVICE_NAME'' ''gmc-validating-webhook-service'';
          webhookServiceNamespace = GetEnvWithDefault env ''NAMESPACE'' ''system'';
          fail = (\<lambda>err msg c. (1, (ms_log (Failed err msg) (ws_world c) s)\<lparr>ms_ws := c\<rparr>))
      in case GenerateX509Cert C keyPair webhookServiceName webhookServiceNamespace r of
           Inl err \<Rightarrow> fail err ''failed to generate x509 cert'' (ms_ws s)
         | Inr (pair, CABytes) \<Rightarrow>
             (case GetClient R (ms_world s) of
                Inl err \<Rightarrow> fail err ''unable to get client config'' (ms_ws s)
              | Inr client \<Rightarrow>
                  (case CreateOrUpdateValidatingWebhookConfiguration client CABytes (int32 (DefaultPort R)) webhookServiceName
                        webhookServiceNamespace (ms_ws s) of
                     (Some err, c) \<Rightarrow> fail err ''failed to create or update the validation webhook configuration'' c
                   | (None, c) \<Rightarrow> run_manager R fls pair (s\<lparr>ms_ws := c\<rparr>))))"

section \<open>Correctness\<close>

lemma int32_id: "0 \<le> i \<Longrightarrow> i < 2 ^ 31 \<Longrightarrow> int32 i = i"
  by (simp add: int32_def signed_of_int signed_take_bit_int_eq_self)

text \<open>A server whose defaults keep the CA bundle and the reference to the service, which are given in full.\<close>

definition keeps_reference :: "(webhook list \<Rightarrow> webhook list) \<Rightarrow> bool" where
  "keeps_reference dflt = (\<forall>h. \<exists>h'. dflt [h] = [h'] \<and> wh_caBundle h' = wh_caBundle h \<and> wh_service_ref h' = wh_service_ref h)"

text \<open>Whether the call wrote or left the configuration, the API server has the CA and the service in it.\<close>

lemma config_in_force:
  assumes "server_defaults dflt A" "keeps_reference dflt" "CreateOrUpdateValidatingWebhookConfiguration A ca p s n c = (None, c')"
  shows "\<exists>found h. wc_get A webhookConfigName (ws_world c') = (Inr found, ws_world c') \<and> wc_webhooks found = [h] \<and>
    wh_caBundle h = ca \<and> wh_service_ref h = Some \<lparr>ws_name = s, ws_namespace = n, ws_path = Some validatingPath, ws_port = Some p\<rparr>"
proof (cases "ws_ops c' = ws_ops c")
  case True
  obtain r w where get: "wc_get A webhookConfigName (ws_world c) = (r, w)" by fastforce
  then have "w = ws_world c" using assms(1) unfolding server_defaults_def by blast
  moreover obtain found where "r = Inr found" "config_unchanged found (desired_config ca p s n)" "ws_world c' = w"
    using assms(3) get True
    by (auto simp: CreateOrUpdateValidatingWebhookConfiguration_def Let_def split: sum.splits api_err.splits if_splits prod.splits)
  moreover obtain h where "wc_webhooks found = [h]" using calculation(3)
    by (cases "wc_webhooks found") (auto simp: config_unchanged_def desired_config_def)
  ultimately show ?thesis using get by (auto simp: config_unchanged_def desired_config_def Let_def)
next
  case False
  obtain found where found: "wc_get A webhookConfigName (ws_world c') = (Inr found, ws_world c')"
    "wc_webhooks found = dflt (wc_webhooks (desired_config ca p s n))"
    using config_stored [OF assms(1,3) False] by blast
  moreover obtain d where d: "wc_webhooks (desired_config ca p s n) = [d]" "wh_caBundle d = ca"
    "wh_service_ref d = Some \<lparr>ws_name = s, ws_namespace = n, ws_path = Some validatingPath, ws_port = Some p\<rparr>"
    by (simp add: desired_config_def)
  ultimately show ?thesis using assms(2) unfolding keeps_reference_def by metis
qed

text \<open>How the process ends that was to do \<open>es\<close>: either it did all of it and the exit code is 0, or it did a part of it in
  order, failed, and the exit code is 1.\<close>

definition is_failure :: "'cert mgr_event \<Rightarrow> bool" where
  "is_failure e = (case e of Failed err msg \<Rightarrow> True | ConfigMissing \<Rightarrow> True | _ \<Rightarrow> False)"

definition staged :: "'cert mgr_event list \<Rightarrow> ('w, 'cert) ms \<Rightarrow> int \<times> ('w, 'cert) ms \<Rightarrow> bool" where
  "staged es s r = (fst r = 0 \<and> ms_events (snd r) = ms_events s @ es \<or>
     fst r = 1 \<and> (\<exists>evs e. prefix evs es \<and> is_failure e \<and> ms_events (snd r) = ms_events s @ evs @ [e]))"

lemma is_failure_simps [simp]: "is_failure (Failed err msg)" "is_failure ConfigMissing"
  by (simp_all add: is_failure_def)

lemma staged_fail [simp]: "is_failure e \<Longrightarrow> staged es s (1, ms_log e w s)"
  unfolding staged_def by (intro disjI2 conjI exI [of _ "[]"] exI [of _ e]) (simp_all add: ms_log_def)

lemma staged_ws [simp]: "staged es s (n, s'\<lparr>ms_ws := c\<rparr>) = staged es s (n, s')" "staged es (s\<lparr>ms_ws := c\<rparr>) r = staged es s r"
  by (simp_all add: staged_def)

lemma staged_log:
  assumes "staged es (ms_log e w s) r"
  shows "staged (e # es) s r"
  using assms unfolding staged_def
proof (elim disjE conjE exE)
  fix evs e'
  assume "fst r = 1" "prefix evs es" "is_failure e'" "ms_events (snd r) = ms_events (ms_log e w s) @ evs @ [e']"
  then show "fst r = 0 \<and> ms_events (snd r) = ms_events s @ e # es \<or>
      fst r = 1 \<and> (\<exists>evs e'. prefix evs (e # es) \<and> is_failure e' \<and> ms_events (snd r) = ms_events s @ evs @ [e'])"
    by (intro disjI2 conjI exI [of _ "e # evs"] exI [of _ e']) (simp_all add: ms_log_def)
qed (simp add: ms_log_def)

lemma stage_staged:
  assumes "\<And>s. staged es s (next s)"
  shows "staged (e # es) s (stage call msg e next s)"
proof -
  have "staged (e # es) s (next (ms_log e w s))" for w using assms by (rule staged_log)
  then show ?thesis by (simp add: stage_def split: prod.split option.split)
qed

lemma staged_event:
  "staged es s r \<Longrightarrow> e \<in> set (ms_events (snd r)) \<Longrightarrow> \<not> is_failure e \<Longrightarrow> e \<in> set (ms_events s) \<union> set es"
  unfolding staged_def by (auto dest!: set_mono_prefix)

lemma staged_done: "staged [] s (0, s)"
  by (simp add: staged_def)

abbreviation manager_stages :: "'cert manager_options \<Rightarrow> 'cert mgr_event list" where
  "manager_stages opts \<equiv> [ManagerMade opts, WebhookSet, ControllerSet, HealthzSet ''healthz'', ReadyzSet ''readyz'', ManagerStopped]"

lemma run_manager_staged: "staged (manager_stages (manager_options_of (DefaultPort R) fls pair)) s (run_manager R fls pair s)"
proof -
  have "staged (manager_stages opts) s
      (stage (SetupWebhookWithManager R mgr) m1 WebhookSet (stage (SetupWithManager R mgr) m2 ControllerSet
        (stage (add_healthz R mgr c3) m3 (HealthzSet ''healthz'') (stage (add_readyz R mgr c4) m4 (ReadyzSet ''readyz'')
          (stage (mgr_start R mgr) m5 ManagerStopped (\<lambda>s. (0, s)))))) (ms_log (ManagerMade opts) w s))" for opts mgr m1 m2 m3 m4 m5 c3 c4 w
    by (rule staged_log, (rule stage_staged)+, rule staged_done)
  then show ?thesis by (simp add: run_manager_def Let_def split: sum.split prod.split)
qed

text \<open>The log level handler.\<close>

lemma decode_first_object:
  assumes "stream_fresh b" "concat (sr_packets b) = print_tree (TObj ms) @ rest" "printable (TObj ms)"
  shows "decode_first b = Some (TObj ms)"
proof -
  let ?d = "concat (sr_packets b)"
  have "p_value (2 * length ?d + 2) ?d = Some (TObj ms, rest)" unfolding assms(2)
    by (intro printable_parses [OF assms(3), unfolded parses_def, rule_format]) (simp del: print_tree.simps)
  then show ?thesis using readAll_fresh [OF assms(1)] by (simp add: decode_first_def del: p_value.simps)
qed

lemma http_Error_status: "body_allowed code \<Longrightarrow> final_status (http_Error new_writer msg code) = code"
  by (simp add: http_Error_def new_writer_def w_del_header_def w_set_header_def w_write_def final_status_def Let_def)

lemma new_writer_write: "final_status (snd (w_write d new_writer)) = 200" "w_body (snd (w_write d new_writer)) = d"
  by (simp_all add: w_write_def new_writer_def final_status_def body_allowed_def)

lemma log_level_kept:
  assumes "logLevelHandler Z err r new_writer level = (w', lvl')"
  shows "lvl' = level \<and> final_status w' = (if rq_method r = ''GET'' then 200 else if rq_method r = ''PUT'' then 400 else 405) \<or>
    rq_method r = ''PUT'' \<and> final_status w' = 200 \<and>
    (\<exists>s. s \<noteq> [] \<and> Option.bind (decode_first (rq_body r)) (\<lambda>t. dec_log_level t []) = Some s \<and> zap_UnmarshalText Z s = Inr lvl')"
proof -
  have status: "final_status (http_Error new_writer msg 400) = 400" "final_status (http_Error new_writer msg 405) = 405" for msg
    by (simp_all add: http_Error_status body_allowed_def)
  define body where "body = Option.bind (decode_first (rq_body r)) (\<lambda>t. dec_log_level t [])"
  show ?thesis using assms
    by (auto simp: logLevelHandler_def body_def [symmetric] status new_writer_write split: option.splits sum.splits if_splits)
qed

section \<open>Properties\<close>


text \<open>C11: Once the manager is made, the API server has a webhook configuration whose CA has signed the certificate that the webhook server serves,
  for exactly the service name, namespace and port under which the configuration reaches it. The API server is
  assumed to keep a CA bundle and a complete service reference as they were written, and to read back what was
  written.\<close>

theorem webhook_trusted_once_manager_made:
  assumes server: "\<forall>cfg A. new_client R cfg = Inr A \<longrightarrow> server_defaults dflt A" "keeps_reference dflt"
    and port: "0 \<le> DefaultPort R" "DefaultPort R < 2 ^ 31"
    and run: "manager_main R C keyPair fls env r s = (code, s')" "ManagerMade opts \<in> set (ms_events s')" "ms_events s = []"
  shows "\<exists>A found h ref s1 pair. GetClient R (ms_world s) = Inr A \<and>
    wc_get A webhookConfigName (ms_world s1) = (Inr found, ms_world s1) \<and> wc_webhooks found = [h] \<and> wh_service_ref h = Some ref \<and>
    ws_name ref = GetEnvWithDefault env ''SERVICE_NAME'' ''gmc-validating-webhook-service'' \<and>
    ws_namespace ref = GetEnvWithDefault env ''NAMESPACE'' ''system'' \<and>
    certified_for C keyPair (ws_name ref @ ''.'' @ ws_namespace ref @ ''.svc'') pair (wh_caBundle h) \<and>
    ws_port ref = Some (wo_Port (mo_WebhookServer opts)) \<and>
    GetCertificate (apply_tls (wo_TLSOpts (mo_WebhookServer opts)) base) = Some pair \<and>
    MinVersion (apply_tls (wo_TLSOpts (mo_WebhookServer opts)) base) = ''TLS12'' \<and>
    run_manager R fls pair s1 = (code, s')"
proof -
  let ?svc = "GetEnvWithDefault env ''SERVICE_NAME'' ''gmc-validating-webhook-service''"
  let ?ns = "GetEnvWithDefault env ''NAMESPACE'' ''system''"
  let ?s = "ms_log (LogLevelServer '':8008'' ''/loglevel'') (ms_world s) s"
  have ws: "ms_ws ?s = ms_ws s" "ms_events ?s = [LogLevelServer '':8008'' ''/loglevel'']" using run(3) by (simp_all add: ms_log_def)
  obtain pair ca A c where go: "GenerateX509Cert C keyPair ?svc ?ns r = Inr (pair, ca)" "GetClient R (ms_world s) = Inr A"
      "CreateOrUpdateValidatingWebhookConfiguration A ca (int32 (DefaultPort R)) ?svc ?ns (ms_ws s) = (None, c)"
      "run_manager R fls pair (?s\<lparr>ms_ws := c\<rparr>) = (code, s')"
    using run(1,2) ws by (auto simp: manager_main_def Let_def ms_log_def [of "Failed e m" for e m] split: sum.splits prod.splits option.splits)
  obtain cfg where "new_client R cfg = Inr A" using go(2) by (auto simp: GetClient_def split: sum.splits)
  with server have "server_defaults dflt A" by blast
  from config_in_force [OF this server(2) go(3)] int32_id [OF port] obtain found h where
    found: "wc_get A webhookConfigName (ws_world c) = (Inr found, ws_world c)" "wc_webhooks found = [h]" "wh_caBundle h = ca"
      "wh_service_ref h = Some \<lparr>ws_name = ?svc, ws_namespace = ?ns, ws_path = Some validatingPath, ws_port = Some (DefaultPort R)\<rparr>"
    by auto
  have "opts = manager_options_of (DefaultPort R) fls pair"
    using staged_event [OF run_manager_staged [of R fls pair "?s\<lparr>ms_ws := c\<rparr>"], of "ManagerMade opts"] run(2) ws(2)
    by (simp add: go(4) is_failure_def)
  then have "ws_port (the (wh_service_ref h)) = Some (wo_Port (mo_WebhookServer opts))"
    "GetCertificate (apply_tls (wo_TLSOpts (mo_WebhookServer opts)) base) = Some pair"
    "MinVersion (apply_tls (wo_TLSOpts (mo_WebhookServer opts)) base) = ''TLS12''"
    using found(4) by (simp_all add: manager_options_of_def apply_tls_def serve_pair_def)
  with go(2,4) found generated_certified [OF go(1)] show ?thesis
    by (intro exI [of _ A] exI [of _ found] exI [of _ h] exI [of _ "the (wh_service_ref h)"] exI [of _ "?s\<lparr>ms_ws := c\<rparr>"] exI [of _ pair]) simp
qed

text \<open>Toy primitives: a serial number and a key are the state, an encoding is the name of its kind.\<close>

definition demo_crypto :: "(nat, nat) crypto" where
  "demo_crypto = \<lparr>rand_int = \<lambda>m r. (Inr (r mod m), Suc r), generate_key = \<lambda>b r. (Inr r, Suc r),
     create_cert = \<lambda>x p k k' r. (Inr (xc_commonName x), r), pem_encode = \<lambda>k b. Inr (k @ '':'' @ b), marshal_key = string_of_nat,
     time_now = 0, add_year = \<lambda>d. d + 365\<rparr>"

definition demo_ctrl :: "(webhook_config option, unit, bytes \<times> bytes) ctrl" where
  "demo_ctrl = \<lparr>DefaultPort = 9443, get_config = \<lambda>w. Inr ''in-cluster'', new_client = \<lambda>c. Inr scope_adm, new_manager = \<lambda>c opts w. (Inr (), w),
     complete_webhook = \<lambda>m v w. (None, w), complete_controller = \<lambda>m t w. (None, w), add_healthz = \<lambda>m n w. (None, w), add_readyz = \<lambda>m n w. (None, w),
     mgr_start = \<lambda>m w. (None, w)\<rparr>"

abbreviation fresh_ms :: "(webhook_config option, bytes \<times> bytes) ms" where
  "fresh_ms \<equiv> \<lparr>ms_events = [], ms_ws = \<lparr>ws_ops = [], ws_world = None\<rparr>\<rparr>"

theorem webhook_trusted_once_manager_made_witness:
  "\<exists>A found h ref s1 pair. GetClient demo_ctrl None = Inr A \<and> wc_get A webhookConfigName (ms_world s1) = (Inr found, ms_world s1) \<and>
     wc_webhooks found = [h] \<and> wh_service_ref h = Some ref \<and> ws_name ref = ''gmc-validating-webhook-service'' \<and> ws_namespace ref = ''chatqa'' \<and>
     certified_for demo_crypto (\<lambda>c k. Inr (c, k)) (ws_name ref @ ''.'' @ ws_namespace ref @ ''.svc'') pair (wh_caBundle h) \<and>
     ws_port ref = Some 9443 \<and>
     run_manager demo_ctrl default_flags pair s1 = manager_main demo_ctrl demo_crypto (\<lambda>c k. Inr (c, k)) default_flags [(''NAMESPACE'', ''chatqa'')] 0 fresh_ms"
proof -
  let ?main = "manager_main demo_ctrl demo_crypto (\<lambda>c k. Inr (c, k)) default_flags [(''NAMESPACE'', ''chatqa'')] 0 fresh_ms"
  obtain code s' where run: "?main = (code, s')" by fastforce
  obtain pair where pair: "GenerateX509Cert demo_crypto (\<lambda>c k. Inr (c, k)) ''gmc-validating-webhook-service'' ''chatqa'' 0 = Inr (pair, ''CERTIFICATE:'')"
    by (simp add: GenerateX509Cert_def generateCert_def composeDNSNames_def demo_crypto_def new_serial_def ca_template_def cert_template_def)
  have env: "GetEnvWithDefault [(''NAMESPACE'', ''chatqa'')] ''SERVICE_NAME'' ''gmc-validating-webhook-service'' = ''gmc-validating-webhook-service''"
    "GetEnvWithDefault [(''NAMESPACE'', ''chatqa'')] ''NAMESPACE'' ''system'' = ''chatqa''"
    by (simp_all add: GetEnvWithDefault_def gm_str_def gm_get_def)
  have made: "ManagerMade (manager_options_of 9443 default_flags pair) \<in> set (ms_events s')"
    using run pair by (auto simp: manager_main_def env demo_ctrl_def GetClient_def CreateOrUpdateValidatingWebhookConfiguration_def scope_adm_def
        run_manager_def stage_def SetupWebhookWithManager_def SetupWithManager_def ms_log_def Let_def)
  have server: "\<forall>cfg A. new_client demo_ctrl cfg = Inr A \<longrightarrow> server_defaults scope_default A"
    by (auto simp: demo_ctrl_def server_defaults_def scope_adm_def Let_def)
  have keep: "keeps_reference scope_default" by (simp add: keeps_reference_def scope_default_def)
  have port: "0 \<le> DefaultPort demo_ctrl" "DefaultPort demo_ctrl < 2 ^ 31" by (simp_all add: demo_ctrl_def)
  have opts: "wo_Port (mo_WebhookServer (manager_options_of 9443 default_flags pair)) = 9443" by (simp add: manager_options_of_def)
  have fresh: "ms_events fresh_ms = []" "ms_world fresh_ms = None" by simp_all
  from webhook_trusted_once_manager_made [where base = "\<lparr>NextProtos = [''h2''], MinVersion = [], GetCertificate = None\<rparr>",
      OF server keep port run made fresh(1), unfolded env opts fresh] show ?thesis
    unfolding run by (elim exE conjE) (intro exI conjI, assumption+)
qed

text \<open>Without \<open>--enable-http2\<close> only the metrics server loses HTTP/2: whatever protocols the webhook server offers by default it still
  offers, although the flag is said to be for the metrics and webhook servers.\<close>

theorem webhook_keeps_http2:
  "NextProtos (apply_tls (wo_TLSOpts (mo_WebhookServer (manager_options_of port fls pair))) base) = NextProtos base \<and>
   NextProtos (apply_tls (mo_MetricsTLSOpts (manager_options_of port fls pair)) base) = (if enableHTTP2 fls then NextProtos base else [''http/1.1''])"
  by (simp add: manager_options_of_def apply_tls_def serve_pair_def disableHTTP2_def)

text \<open>C40: A log level that is put is set and read back: a body that starts with an object with the member \<open>log_level\<close>, a text that \<open>zap\<close> takes
  for a level, sets the level, whatever follows the object, and the next \<open>GET\<close> shows it. Every other request leaves
  the level: a \<open>PUT\<close> is answered with status 400, a method other than \<open>GET\<close> with status 405.\<close>

theorem log_level_put_then_get:
  assumes "valid_utf8 txt" "txt \<noteq> []" "zap_UnmarshalText Z txt = Inr lvl"
    and "rq_method p = ''PUT''" "stream_fresh (rq_body p)"
    and "concat (sr_packets (rq_body p)) = print_tree (TObj [(''log_level'', TStr txt)]) @ rest" "rq_method g = ''GET''"
  shows "(\<exists>w. logLevelHandler Z err p new_writer level = (w, lvl) \<and> final_status w = 200 \<and> w_body w = ''log level set to '' @ zap_String Z lvl @ nl) \<and>
    w_body (fst (logLevelHandler Z err g new_writer lvl)) = ''current log level: '' @ zap_String Z lvl @ nl \<and>
    (\<forall>r w' lvl'. logLevelHandler Z err r new_writer level = (w', lvl') \<longrightarrow>
       lvl' = level \<and> final_status w' = (if rq_method r = ''GET'' then 200 else if rq_method r = ''PUT'' then 400 else 405) \<or>
       rq_method r = ''PUT'' \<and> final_status w' = 200 \<and>
       (\<exists>s. s \<noteq> [] \<and> Option.bind (decode_first (rq_body r)) (\<lambda>t. dec_log_level t []) = Some s \<and> zap_UnmarshalText Z s = Inr lvl'))"
proof -
  let ?t = "TObj [(''log_level'', TStr txt)]"
  have "printable ?t" using assms(1) by (simp add: valid_utf8_ascii_list)
  with assms(5,6) have "decode_first (rq_body p) = Some ?t" by (rule decode_first_object)
  moreover have "dec_log_level ?t [] = Some txt" by (simp add: dec_log_level_def dec_struct_def dec_member_def dec_string_def)
  ultimately have "logLevelHandler Z err p new_writer level = (snd (w_write (''log level set to '' @ zap_String Z lvl @ nl) new_writer), lvl)"
    using assms(2-4) by (simp add: logLevelHandler_def)
  moreover have "w_body (fst (logLevelHandler Z err g new_writer lvl)) = ''current log level: '' @ zap_String Z lvl @ nl"
    using assms(7) by (simp add: logLevelHandler_def new_writer_write)
  ultimately show ?thesis using log_level_kept [of Z err _ level] by (intro conjI) (simp_all add: new_writer_write)
qed

theorem log_level_put_then_get_witness:
  "\<exists>w. logLevelHandler \<lparr>zap_UnmarshalText = Inr, zap_String = id, zap_InfoLevel = ''info''\<rparr> (\<lambda>b. [])
      \<lparr>rq_method = ''PUT'', rq_url = [], rq_path = [], rq_header = [], rq_body = http_body [print_tree (TObj [(''log_level'', TStr ''debug'')])],
        rq_form = Inl []\<rparr> new_writer ''info'' = (w, ''debug'') \<and> final_status w = 200"
proof -
  let ?Z = "\<lparr>zap_UnmarshalText = Inr, zap_String = id, zap_InfoLevel = ''info''\<rparr>"
  let ?p = "\<lparr>rq_method = ''PUT'', rq_url = [], rq_path = [], rq_header = [],
    rq_body = http_body [print_tree (TObj [(''log_level'', TStr ''debug'')])], rq_form = Inl []\<rparr>"
  have "valid_utf8 ''debug''" by (simp add: valid_utf8_ascii_list)
  from log_level_put_then_get [where Z = ?Z and p = ?p and g = "?p\<lparr>rq_method := ''GET''\<rparr>" and rest = "[]" and err = "\<lambda>b. []"
      and level = "''info''", OF this]
  show ?thesis by auto
qed

end
