(* ===== verification/Go_Float.thy ===== *)
theory Go_Float
  imports Go_Prelude Complex_Main "HOL-Library.Log_Nat"
begin

text \<open>
  Go's \<open>float64\<close>: IEEE 754 binary64 with rounding to nearest, ties to even. A finite value is the rational
  number it stands for; the two zeros are one value. \<open>rnd\<close> rounds a rational to 53 significant bits, and to the
  fixed quantum \<open>2 powi -1074\<close> below the normal range. The conversions from integers, \<open>+\<close> and \<open>/\<close> round the
  exact result. The lemmas bound the relative error of a rounding by \<open>2 powi -53\<close>.
\<close>

section \<open>Values and operations\<close>

datatype f64 = Fin rat | PInf | NInf | NaN

definition round_half_even :: "rat \<Rightarrow> int" where
  "round_half_even y = (let f = \<lfloor>y\<rfloor>; r = y - of_int f in
     if r < 1/2 then f else if 1/2 < r then f + 1 else if even f then f else f + 1)"

text \<open>The exponent \<open>e\<close> with \<open>2 powi e \<le> \<bar>x\<bar> < 2 powi (e + 1)\<close>, from the lengths of numerator and
  denominator.\<close>

definition bin_exp :: "rat \<Rightarrow> int" where
  "bin_exp x = (let (a, b) = quotient_of \<bar>x\<bar>; e = bitlen a - bitlen b in
     if 2 powi e \<le> \<bar>x\<bar> then e else e - 1)"

definition quantum_exp :: "rat \<Rightarrow> int" where
  "quantum_exp x = max (bin_exp x - 52) (- 1074)"

definition rnd :: "rat \<Rightarrow> rat" where
  "rnd x = (if x = 0 then 0
     else of_int (round_half_even (x / 2 powi quantum_exp x)) * 2 powi quantum_exp x)"

definition fl :: "rat \<Rightarrow> f64" where
  "fl x = (let r = rnd x in if 2 ^ 1024 \<le> r then PInf else if r \<le> - (2 ^ 1024) then NInf else Fin r)"

fun fl_add :: "f64 \<Rightarrow> f64 \<Rightarrow> f64" where
  "fl_add NaN y = NaN"
| "fl_add x NaN = NaN"
| "fl_add PInf NInf = NaN"
| "fl_add NInf PInf = NaN"
| "fl_add PInf y = PInf"
| "fl_add NInf y = NInf"
| "fl_add x PInf = PInf"
| "fl_add x NInf = NInf"
| "fl_add (Fin a) (Fin b) = fl (a + b)"

text \<open>A zero divisor counts as \<open>+0\<close>: the divisors of the program come from integers, which convert to \<open>+0\<close>.\<close>

fun fl_div :: "f64 \<Rightarrow> f64 \<Rightarrow> f64" where
  "fl_div NaN y = NaN"
| "fl_div x NaN = NaN"
| "fl_div (Fin a) (Fin b) =
     (if b = 0 then if a = 0 then NaN else if 0 < a then PInf else NInf else fl (a / b))"
| "fl_div (Fin a) PInf = Fin 0"
| "fl_div (Fin a) NInf = Fin 0"
| "fl_div PInf (Fin b) = (if 0 \<le> b then PInf else NInf)"
| "fl_div NInf (Fin b) = (if 0 \<le> b then NInf else PInf)"
| "fl_div PInf y = NaN"
| "fl_div NInf y = NaN"

definition fl_of_int :: "int \<Rightarrow> f64" where
  "fl_of_int i = fl (of_int i)"

section \<open>Rounding errors\<close>

lemma round_half_even_error: "\<bar>of_int (round_half_even y) - y\<bar> \<le> 1/2"
proof -
  have "of_int \<lfloor>y\<rfloor> \<le> y" "y < of_int \<lfloor>y\<rfloor> + 1" by linarith+
  then show ?thesis unfolding round_half_even_def Let_def by (auto simp: abs_le_iff)
qed

lemma powi_less_exp: "(2 :: rat) powi m < 2 powi n \<Longrightarrow> m < n"
  by (meson not_le power_int_increasing one_le_numeral)

lemma round_half_even_int [simp]: "round_half_even (of_int i) = i"
  by (simp add: round_half_even_def)

lemma bitlen_between:
  assumes "0 < a"
  shows "2 powi (bitlen a - 1) \<le> (of_int a :: rat)" "(of_int a :: rat) < 2 powi bitlen a"
proof -
  have b: "2 ^ nat (bitlen a - 1) \<le> a" "a < 2 ^ nat (bitlen a)" using bitlen_bounds [OF assms] by auto
  have pos: "0 \<le> bitlen a - 1" using bitlen_ge_iff_power [of 1 a] assms by simp
  have "(of_int (2 ^ nat (bitlen a - 1)) :: rat) \<le> of_int a" using b(1) by (simp only: of_int_le_iff)
  with pos show "2 powi (bitlen a - 1) \<le> (of_int a :: rat)" by (simp add: power_int_def)
  have "(of_int a :: rat) < of_int (2 ^ nat (bitlen a))" using b(2) by (simp only: of_int_less_iff)
  with pos show "(of_int a :: rat) < 2 powi bitlen a" by (simp add: power_int_def)
qed

lemma quotient_of_abs:
  assumes "x \<noteq> (0 :: rat)" "quotient_of \<bar>x\<bar> = (a, b)"
  shows "0 < a" "0 < b" "\<bar>x\<bar> = of_int a / of_int b"
proof -
  show b: "0 < b" using quotient_of_denom_pos [OF assms(2)] .
  show x: "\<bar>x\<bar> = of_int a / of_int b" using quotient_of_div [OF assms(2)] .
  have "0 < (of_int a / of_int b :: rat)" using assms(1) x by (metis zero_less_abs_iff)
  with b show "0 < a" by (simp add: zero_less_divide_iff)
qed

lemma bin_exp_between:
  assumes "x \<noteq> 0"
  shows "2 powi bin_exp x \<le> \<bar>x\<bar>" "\<bar>x\<bar> < 2 powi (bin_exp x + 1)"
proof -
  obtain a b where q: "quotient_of \<bar>x\<bar> = (a, b)" by fastforce
  note ab = quotient_of_abs [OF assms q]
  let ?e = "bitlen a - bitlen b"
  have a: "2 powi (bitlen a - 1) \<le> (of_int a :: rat)" "(of_int a :: rat) < 2 powi bitlen a"
    and b: "2 powi (bitlen b - 1) \<le> (of_int b :: rat)" "(of_int b :: rat) < 2 powi bitlen b"
    using bitlen_between ab(1,2) by auto
  have bpos: "0 < (of_int b :: rat)" using ab(2) by simp
  have "(2 powi (?e - 1) :: rat) * of_int b \<le> 2 powi (?e - 1) * 2 powi bitlen b"
    using b(2) by (simp add: mult_left_mono)
  also have "\<dots> = 2 powi (bitlen a - 1)" by (simp add: power_int_add [symmetric])
  also have "\<dots> \<le> of_int a" by (rule a(1))
  finally have lo: "2 powi (?e - 1) \<le> \<bar>x\<bar>" using bpos ab(3) by (simp add: pos_le_divide_eq)
  have "(of_int a :: rat) < 2 powi bitlen a" by (rule a(2))
  also have "\<dots> = 2 powi (?e + 1) * 2 powi (bitlen b - 1)" by (simp add: power_int_add [symmetric])
  also have "\<dots> \<le> 2 powi (?e + 1) * of_int b" using b(1) by (simp add: mult_left_mono)
  finally have hi: "\<bar>x\<bar> < 2 powi (?e + 1)" using bpos ab(3) by (simp add: pos_divide_less_eq)
  show "2 powi bin_exp x \<le> \<bar>x\<bar>" "\<bar>x\<bar> < 2 powi (bin_exp x + 1)"
    using lo hi q by (auto simp: bin_exp_def Let_def)
qed

lemma rnd_abs_error: "\<bar>rnd x - x\<bar> \<le> 2 powi quantum_exp x / 2"
proof (cases "x = 0")
  case False
  let ?q = "2 powi quantum_exp x :: rat" and ?m = "of_int (round_half_even (x / 2 powi quantum_exp x)) :: rat"
  have "0 < ?q" by simp
  have "rnd x - x = (?m - x / ?q) * ?q" using False by (simp add: rnd_def algebra_simps)
  then have "\<bar>rnd x - x\<bar> = \<bar>?m - x / ?q\<bar> * ?q" by (simp add: abs_mult)
  also have "\<dots> \<le> 1/2 * ?q" using round_half_even_error [of "x / ?q"] \<open>0 < ?q\<close>
    by (intro mult_right_mono) auto
  finally show ?thesis by simp
qed (simp add: rnd_def)

definition ulp :: rat where
  "ulp = 1 / 2 ^ 53"

text \<open>In the normal range a rounding changes a value by at most one part in \<open>2 ^ 53\<close>.\<close>

lemma rnd_rel_error:
  assumes "2 powi (- 1022) \<le> \<bar>x\<bar>"
  shows "\<bar>rnd x - x\<bar> \<le> ulp * \<bar>x\<bar>"
proof -
  have x: "x \<noteq> 0" using assms by (auto simp: power_int_def)
  have "(2 :: rat) powi (- 1022) < 2 powi (bin_exp x + 1)"
    using assms bin_exp_between(2) [OF x] by linarith
  then have "- 1022 < bin_exp x + 1" by (rule powi_less_exp)
  then have "quantum_exp x = bin_exp x - 52" by (simp add: quantum_exp_def)
  then have "(2 :: rat) powi quantum_exp x = 2 powi bin_exp x / 2 powi 52"
    by (simp only: power_int_diff [of "2 :: rat", simplified])
  then have "2 powi quantum_exp x / 2 = ulp * 2 powi bin_exp x" by (simp add: ulp_def)
  also have "ulp * 2 powi bin_exp x \<le> ulp * \<bar>x\<bar>" using bin_exp_between(1) [OF x] by (intro mult_left_mono) (auto simp: ulp_def)
  finally show ?thesis using rnd_abs_error [of x] by linarith
qed

text \<open>Integers below \<open>2 ^ 53\<close> are represented exactly.\<close>

lemma rnd_small_int:
  assumes "\<bar>i\<bar> < 2 ^ 53"
  shows "rnd (of_int i) = of_int i"
proof (cases "i = 0")
  case False
  let ?x = "of_int i :: rat" and ?q = "quantum_exp (of_int i :: rat)"
  have "(1 :: int) \<le> \<bar>i\<bar>" using False by linarith
  then have one: "(1 :: rat) \<le> \<bar>?x\<bar>" by (metis of_int_1_le_iff of_int_abs)
  have "\<bar>?x\<bar> < 2 ^ 53" using assms by (metis of_int_abs of_int_less_numeral_power_cancel_iff)
  then have "(2 :: rat) powi bin_exp ?x < 2 powi 53" using bin_exp_between(1) [of ?x] False by (simp add: power_int_def split: if_splits)
  then have "bin_exp ?x < 53" by (rule powi_less_exp)
  then have q: "?q \<le> 0" by (simp add: quantum_exp_def)
  have "?x / 2 powi ?q = ?x * 2 ^ nat (- ?q)" using q by (auto simp: power_int_def field_simps)
  also have "\<dots> = of_int (i * 2 ^ nat (- ?q))" by simp
  finally have "of_int (round_half_even (?x / 2 powi ?q)) = ?x / 2 powi ?q" by (metis round_half_even_int)
  then show ?thesis using False by (simp add: rnd_def)
qed (simp add: rnd_def)

lemma rnd_zero [simp]: "rnd 0 = 0"
  by (simp add: rnd_def)

lemma ulp_bounds: "0 < ulp" "ulp < 1/100"
  by (simp_all add: ulp_def)

text \<open>The result of a rounding is finite and within the error bound when the exact value is in the normal range
  and below \<open>2 ^ 1000\<close>.\<close>

definition moderate :: "rat \<Rightarrow> bool" where
  "moderate x = (x = 0 \<or> 2 powi (- 1000) \<le> \<bar>x\<bar> \<and> \<bar>x\<bar> \<le> 2 ^ 1000)"

lemma rnd_moderate: "moderate x \<Longrightarrow> \<bar>rnd x - x\<bar> \<le> ulp * \<bar>x\<bar>"
proof (cases "x = 0")
  case False
  assume "moderate x"
  moreover have "(2 :: rat) powi (- 1022) \<le> 2 powi (- 1000)" by (rule power_int_increasing) auto
  ultimately show ?thesis using False by (intro rnd_rel_error) (auto simp: moderate_def)
qed simp

lemma fl_moderate:
  assumes "moderate x"
  obtains r where "fl x = Fin r" "\<bar>r - x\<bar> \<le> ulp * \<bar>x\<bar>"
proof
  have big: "2 * 2 ^ 1000 < (2 ^ 1024 :: rat)" by simp
  have "\<bar>x\<bar> \<le> 2 ^ 1000" using assms by (auto simp: moderate_def)
  moreover have "ulp * \<bar>x\<bar> \<le> 1/100 * \<bar>x\<bar>" using ulp_bounds by (intro mult_right_mono) auto
  ultimately have "\<bar>rnd x\<bar> < 2 ^ 1024" using rnd_moderate [OF assms] big by linarith
  then show "fl x = Fin (rnd x)" by (auto simp: fl_def Let_def)
  show "\<bar>rnd x - x\<bar> \<le> ulp * \<bar>x\<bar>" by (rule rnd_moderate [OF assms])
qed

lemma fl_small_int: "\<bar>i\<bar> < 2 ^ 53 \<Longrightarrow> fl_of_int i = Fin (of_int i)"
proof -
  assume i: "\<bar>i\<bar> < 2 ^ 53"
  then have "\<bar>of_int i :: rat\<bar> < 2 ^ 53" by (metis of_int_abs of_int_less_numeral_power_cancel_iff)
  moreover have "(2 ^ 53 :: rat) < 2 ^ 1024" by simp
  ultimately have "of_int i < (2 ^ 1024 :: rat)" "- (2 ^ 1024) < (of_int i :: rat)" by linarith+
  with rnd_small_int [OF i] show ?thesis by (simp add: fl_of_int_def fl_def Let_def)
qed

end
