(* ===== verification/Go_Time.thy ===== *)
theory Go_Time
  imports Go_Float "HOL-Library.Monad_Syntax"
begin

text \<open>
  What the exporter uses of Go's package \<open>time\<close>: the layout \<open>2006-01-02 15:04:05\<close>, in which a wall clock reading
  is printed and parsed, and durations. A wall clock reading is the number of seconds since the start of year 0 of
  the Gregorian calendar in the local zone; \<open>time.Parse\<close> reads a text without zone as UTC, so a parsed instant
  is the wall clock reading of the text, in nanoseconds. The main lemma is the round trip
  \<open>time_parse (time_format t) = Some (t * 10 ^ 9)\<close> for the years 0 to 9999.
\<close>

section \<open>The calendar\<close>

definition leap_year :: "nat \<Rightarrow> bool" where
  "leap_year y = (4 dvd y \<and> (\<not> 100 dvd y \<or> 400 dvd y))"

definition year_len :: "nat \<Rightarrow> nat" where
  "year_len y = (if leap_year y then 366 else 365)"

text \<open>\<open>daysIn(month, year)\<close>.\<close>

definition month_len :: "nat \<Rightarrow> nat \<Rightarrow> nat" where
  "month_len y m = (if m = 2 then if leap_year y then 29 else 28 else if m \<in> {4, 6, 9, 11} then 30 else 31)"

definition days_before_year :: "nat \<Rightarrow> nat" where
  "days_before_year y = 365 * y + (y + 3) div 4 + (y + 399) div 400 - (y + 99) div 100"

fun days_before_month :: "nat \<Rightarrow> nat \<Rightarrow> nat" where
  "days_before_month y 0 = 0"
| "days_before_month y (Suc m) = (if m = 0 then 0 else days_before_month y m + month_len y m)"

lemma div_round_up_Suc:
  "0 < k \<Longrightarrow> (Suc y + (k - 1)) div k = (y + (k - 1)) div k + (if k dvd y then 1 else 0)" for k :: nat
proof -
  assume k: "0 < k"
  have "Suc (y + (k - 1)) = y + k" using k by simp
  then show ?thesis using k div_Suc [of "y + (k - 1)" k] by (auto simp: dvd_eq_mod_eq_0)
qed

lemma days_before_year_sum: "days_before_year y + (y + 99) div 100 = 365 * y + (y + 3) div 4 + (y + 399) div 400"
proof -
  have "(y + 99) div 100 \<le> y" by (cases y) (auto intro: div_le_dividend)
  then have "(y + 99) div 100 \<le> 365 * y + (y + 3) div 4 + (y + 399) div 400" by linarith
  then show ?thesis unfolding days_before_year_def by (rule le_add_diff_inverse2)
qed

lemma year_shift: "P + B = 365 * y + A + C \<Longrightarrow> Q + (B + v) = 365 * Suc y + (A + u) + (C + w) \<Longrightarrow> Q + v = P + 365 + u + w" for P :: nat
  by simp

lemma days_before_year_Suc: "days_before_year (Suc y) = days_before_year y + year_len y"
proof -
  have a: "(Suc y + 3) div 4 = (y + 3) div 4 + (if 4 dvd y then 1 else 0)"
    and b: "(Suc y + 99) div 100 = (y + 99) div 100 + (if 100 dvd y then 1 else 0)"
    and c: "(Suc y + 399) div 400 = (y + 399) div 400 + (if 400 dvd y then 1 else 0)"
    using div_round_up_Suc [of 4 y] div_round_up_Suc [of 100 y] div_round_up_Suc [of 400 y] by simp_all
  have d: "100 dvd y \<Longrightarrow> 4 dvd y" "400 dvd y \<Longrightarrow> 100 dvd y" by presburger+
  have "days_before_year (Suc y) + (if 100 dvd y then 1 else 0) =
      days_before_year y + 365 + (if 4 dvd y then 1 else 0) + (if 400 dvd y then 1 else 0)"
    using days_before_year_sum [of "Suc y"] unfolding a b c by (rule year_shift [OF days_before_year_sum])
  with d show ?thesis
    by (cases "100 dvd y"; cases "400 dvd y"; cases "4 dvd y") (auto simp: year_len_def leap_year_def)
qed

lemma days_before_year_mono: "y \<le> z \<Longrightarrow> days_before_year y \<le> days_before_year z"
  by (induction rule: dec_induct) (auto simp: days_before_year_Suc)

lemma days_before_year_less: "y < z \<Longrightarrow> days_before_year y < days_before_year z"
  using days_before_year_mono [of "Suc y" z] by (simp add: days_before_year_Suc year_len_def split: if_splits)

text \<open>The year of a day, searched upwards from a lower bound.\<close>

function year_from :: "nat \<Rightarrow> nat \<Rightarrow> nat" where
  "year_from y d = (if d < days_before_year (Suc y) then y else year_from (Suc y) d)"
  by pat_completeness auto
termination
  by (relation "measure (\<lambda>(y, d). Suc d - days_before_year y)")
    (auto simp: days_before_year_Suc year_len_def split: if_splits)

declare year_from.simps [simp del]

lemma year_from_bounds:
  "days_before_year y \<le> d \<Longrightarrow> days_before_year (year_from y d) \<le> d \<and> d < days_before_year (Suc (year_from y d))"
proof (induction y d rule: year_from.induct)
  case (1 y d)
  then show ?case by (subst (1 2) year_from.simps) auto
qed

lemma days_before_year_guess: "days_before_year (d div 366) \<le> d"
proof -
  have "days_before_year y \<le> 366 * y" for y
    by (induction y) (auto simp: days_before_year_Suc year_len_def days_before_year_def)
  then show ?thesis using order_trans times_div_less_eq_dividend by blast
qed

fun month_from :: "nat \<Rightarrow> nat \<Rightarrow> nat \<Rightarrow> nat \<Rightarrow> nat \<times> nat" where
  "month_from 0 y m d = (m, d)"
| "month_from (Suc k) y m d = (if d < month_len y m then (m, d) else month_from k y (Suc m) (d - month_len y m))"

record civil =
  c_year :: nat
  c_month :: nat
  c_day :: nat
  c_hour :: nat
  c_min :: nat
  c_sec :: nat

definition civil_of :: "nat \<Rightarrow> civil" where
  "civil_of t = (let d = t div 86400; s = t mod 86400; y = year_from (d div 366) d;
                     (m, r) = month_from 11 y 1 (d - days_before_year y) in
     \<lparr>c_year = y, c_month = m, c_day = Suc r, c_hour = s div 3600, c_min = s div 60 mod 60, c_sec = s mod 60\<rparr>)"

definition of_civil :: "civil \<Rightarrow> nat" where
  "of_civil c = (days_before_year (c_year c) + days_before_month (c_year c) (c_month c) + (c_day c - 1)) * 86400
     + c_hour c * 3600 + c_min c * 60 + c_sec c"

definition civil_valid :: "civil \<Rightarrow> bool" where
  "civil_valid c = (1 \<le> c_month c \<and> c_month c \<le> 12 \<and> 1 \<le> c_day c \<and> c_day c \<le> month_len (c_year c) (c_month c) \<and>
     c_hour c < 24 \<and> c_min c < 60 \<and> c_sec c < 60)"

lemma month_from_inv:
  assumes "month_from k y m d = (m', r)" "1 \<le> m" "m + k = 12"
    and "days_before_month y m + d < year_len y"
  shows "1 \<le> m' \<and> m' \<le> 12 \<and> r < month_len y m' \<and> days_before_month y m' + r = days_before_month y m + d"
  using assms
proof (induction k y m d rule: month_from.induct)
  case (1 y m d)
  have "days_before_month y 12 + month_len y 12 = year_len y"
    by (simp add: numeral_eq_Suc month_len_def year_len_def)
  with 1 show ?case by auto
next
  case (2 k y m d)
  show ?case
  proof (cases "d < month_len y m")
    case False
    have s: "days_before_month y (Suc m) = days_before_month y m + month_len y m" using "2.prems" by simp
    have "month_from k y (Suc m) (d - month_len y m) = (m', r)" using 2 False by simp
    then show ?thesis using "2.IH" [OF False] "2.prems" False s by (auto simp del: days_before_month.simps)
  qed (use 2 in auto)
qed

lemma clock_split: "s div 3600 * 3600 + s div 60 mod 60 * 60 + s mod 60 = s" for s :: nat
proof -
  have "s div 3600 = s div 60 div 60" by (simp add: div_mult2_eq [symmetric])
  moreover have "s div 60 div 60 * 60 + s div 60 mod 60 = s div 60" by (rule div_mult_mod_eq)
  moreover have "s div 60 * 60 + s mod 60 = s" by (rule div_mult_mod_eq)
  ultimately show ?thesis by linarith
qed

lemma civil_of_facts: "civil_valid (civil_of t)" "of_civil (civil_of t) = t"
  "days_before_year (c_year (civil_of t)) \<le> t div 86400"
proof -
  let ?d = "t div 86400" and ?s = "t mod 86400"
  let ?y = "year_from (?d div 366) ?d"
  obtain m r where mr: "month_from 11 ?y 1 (?d - days_before_year ?y) = (m, r)" by fastforce
  have y: "days_before_year ?y \<le> ?d" "?d < days_before_year ?y + year_len ?y"
    using year_from_bounds [OF days_before_year_guess, of ?d] by (auto simp: days_before_year_Suc)
  have "?d - days_before_year ?y < year_len ?y" using y by linarith
  with month_from_inv [OF mr] have m: "1 \<le> m" "m \<le> 12" "r < month_len ?y m"
    "days_before_month ?y m + r = ?d - days_before_year ?y" by auto
  have c: "civil_of t = \<lparr>c_year = ?y, c_month = m, c_day = Suc r, c_hour = ?s div 3600, c_min = ?s div 60 mod 60, c_sec = ?s mod 60\<rparr>"
    unfolding civil_of_def Let_def mr by simp
  have "?s div 3600 < 24" by (simp add: less_mult_imp_div_less)
  with m show "civil_valid (civil_of t)" unfolding c by (simp add: civil_valid_def)
  have "?s div 3600 * 3600 + ?s div 60 mod 60 * 60 + ?s mod 60 = ?s" by (rule clock_split)
  moreover have "days_before_year ?y + days_before_month ?y m + r = ?d" using m y by linarith
  ultimately show "of_civil (civil_of t) = t" unfolding c of_civil_def civil.simps
    using div_mult_mod_eq [of t 86400] by (simp only: diff_Suc_1)
  show "days_before_year (c_year (civil_of t)) \<le> t div 86400" using y c by simp
qed

section \<open>The layout 2006-01-02 15:04:05\<close>

definition pad :: "nat \<Rightarrow> nat \<Rightarrow> string" where
  "pad k n = (let s = string_of_nat n in replicate (k - length s) (CHR ''0'') @ s)"

definition time_format :: "nat \<Rightarrow> string" where
  "time_format t = (let c = civil_of t in
     pad 4 (c_year c) @ ''-'' @ pad 2 (c_month c) @ ''-'' @ pad 2 (c_day c) @ '' '' @
     pad 2 (c_hour c) @ '':'' @ pad 2 (c_min c) @ '':'' @ pad 2 (c_sec c))"

definition is_decimal :: "char \<Rightarrow> bool" where
  "is_decimal c = (digit_val c \<noteq> None)"

text \<open>\<open>getnum(s, fixed)\<close>: one or two digits, two if \<open>fixed\<close>.\<close>

fun getnum :: "bool \<Rightarrow> string \<Rightarrow> (nat \<times> string) option" where
  "getnum fixed (a # b # s) = (case (digit_val a, digit_val b) of
     (Some x, Some y) \<Rightarrow> Some (10 * x + y, s)
   | (Some x, None) \<Rightarrow> if fixed then None else Some (x, b # s)
   | _ \<Rightarrow> None)"
| "getnum fixed [a] = (case digit_val a of Some x \<Rightarrow> if fixed then None else Some (x, []) | None \<Rightarrow> None)"
| "getnum fixed [] = None"

definition get_year :: "string \<Rightarrow> (nat \<times> string) option" where
  "get_year s = (if length s < 4 then None else map_option (\<lambda>y. (y, drop 4 s)) (parse_nat (take 4 s)))"

text \<open>Skipping a literal character of the layout; a space of the layout takes any number of spaces, none only at
  the end of the text.\<close>

fun skip_char :: "char \<Rightarrow> string \<Rightarrow> string option" where
  "skip_char c [] = None"
| "skip_char c (x # s) = (if x = c then Some s else None)"

definition skip_spaces :: "string \<Rightarrow> string option" where
  "skip_spaces s = (if s \<noteq> [] \<and> hd s \<noteq> CHR '' '' then None else Some (dropWhile (\<lambda>c. c = CHR '' '') s))"

text \<open>After the seconds a fraction is accepted though the layout has none; digits past the ninth are dropped.\<close>

definition get_fraction :: "string \<Rightarrow> nat \<times> string" where
  "get_fraction s = (case s of
     p # d # s' \<Rightarrow> if (p = CHR ''.'' \<or> p = CHR '','') \<and> is_decimal d
       then let ds = takeWhile is_decimal (d # s'); k = min 9 (length ds) in
         ((case parse_nat (take 9 ds) of Some n \<Rightarrow> n | None \<Rightarrow> 0) * 10 ^ (9 - k), dropWhile is_decimal (d # s'))
       else (0, s)
   | _ \<Rightarrow> (0, s))"

definition in_range :: "nat \<Rightarrow> (nat \<times> string) option \<Rightarrow> (nat \<times> string) option" where
  "in_range b r = (case r of Some (n, s) \<Rightarrow> if n < b then r else None | None \<Rightarrow> None)"

text \<open>\<open>time.Parse(fmtTime, s)\<close>: the instant in nanoseconds, \<open>None\<close> for every error.\<close>

definition time_parse :: "string \<Rightarrow> nat option" where
  "time_parse s = do {
     (y, s) \<leftarrow> get_year s;
     s \<leftarrow> skip_char (CHR ''-'') s;
     (mo, s) \<leftarrow> getnum True s;
     s \<leftarrow> (if 1 \<le> mo \<and> mo \<le> 12 then skip_char (CHR ''-'') s else None);
     (d, s) \<leftarrow> getnum True s;
     s \<leftarrow> skip_spaces s;
     (h, s) \<leftarrow> in_range 24 (getnum False s);
     s \<leftarrow> skip_char (CHR '':'') s;
     (mi, s) \<leftarrow> in_range 60 (getnum True s);
     s \<leftarrow> skip_char (CHR '':'') s;
     (sec, s) \<leftarrow> in_range 60 (getnum True s);
     let (ns, s) = get_fraction s;
     if s = [] \<and> 1 \<le> d \<and> d \<le> month_len y mo
     then Some (of_civil \<lparr>c_year = y, c_month = mo, c_day = d, c_hour = h, c_min = mi, c_sec = sec\<rparr> * 10 ^ 9 + ns)
     else None }"

section \<open>Reading back what was printed\<close>

lemma string_of_nat_digit: "n < 10 \<Longrightarrow> string_of_nat n = [digit_char n]"
  by (subst string_of_nat.simps) simp

lemma length_string_of_nat: "n < 10 ^ Suc k \<Longrightarrow> length (string_of_nat n) \<le> Suc k"
proof (induction k arbitrary: n)
  case (Suc k)
  have "n div 10 < 10 ^ Suc k" using Suc.prems by (simp add: less_mult_imp_div_less mult.commute)
  then have "length (string_of_nat (n div 10)) \<le> Suc k" by (rule Suc.IH)
  then show ?case by (subst string_of_nat.simps) simp
qed (simp add: string_of_nat_digit)

lemma length_pad: "n < 10 ^ Suc k \<Longrightarrow> length (pad (Suc k) n) = Suc k"
  using length_string_of_nat [of n k] by (simp add: pad_def Let_def)

lemma parse_digits_zeros: "parse_digits 0 (replicate j (CHR ''0'') @ s) = parse_digits 0 s"
  by (induction j) (simp_all add: digit_val_def)

lemma parse_digits_pad: "parse_digits 0 (pad k n) = Some n"
  by (simp add: pad_def Let_def parse_digits_zeros parse_digits_string_of_nat)

lemma digit_char_0: "CHR ''0'' = digit_char 0"
  by code_simp

lemma pad_2: "n < 100 \<Longrightarrow> pad 2 n = [digit_char (n div 10), digit_char (n mod 10)]"
proof (cases "n < 10")
  case False
  assume "n < 100"
  then have "n div 10 < 10" by (simp add: less_mult_imp_div_less)
  with False have "string_of_nat n = [digit_char (n div 10), digit_char (n mod 10)]"
    by (subst string_of_nat.simps) (simp add: string_of_nat_digit)
  then show ?thesis by (simp add: pad_def)
qed (simp add: pad_def string_of_nat_digit digit_char_0)

lemma getnum_pad [simp]: "n < 100 \<Longrightarrow> getnum fixed (pad 2 n @ s) = Some (n, s)"
  by (simp add: pad_2 less_mult_imp_div_less)

lemma get_year_pad: "n < 10000 \<Longrightarrow> get_year (pad 4 n @ s) = Some (n, s)"
proof -
  assume "n < 10000"
  then have "n < 10 ^ Suc 3" by simp
  from length_pad [OF this] have len: "length (pad 4 n) = 4" by simp
  then have "pad 4 n \<noteq> []" by auto
  then have "parse_nat (pad 4 n) = Some n" by (simp add: parse_nat_def parse_digits_pad)
  with len show ?thesis by (simp add: get_year_def)
qed

lemma pad_2_digit: "n < 100 \<Longrightarrow> \<exists>d s. pad 2 n = d # s \<and> d \<noteq> CHR '' ''"
proof -
  assume n: "n < 100"
  have "digit_val (CHR '' '') = None" by (simp add: digit_val_def)
  moreover have "digit_val (digit_char (n div 10)) = Some (n div 10)" using n by (simp add: less_mult_imp_div_less)
  ultimately have "digit_char (n div 10) \<noteq> CHR '' ''" by (metis option.distinct(1))
  with n show ?thesis by (simp add: pad_2)
qed

lemma skip_spaces_pad: "n < 100 \<Longrightarrow> skip_spaces (CHR '' '' # pad 2 n @ s) = Some (pad 2 n @ s)"
  using pad_2_digit [of n] by (auto simp: skip_spaces_def)

lemma month_len_le: "month_len y m \<le> 31"
  by (simp add: month_len_def)

lemma last_year:
  assumes "t < days_before_year 10000 * 86400"
  shows "c_year (civil_of t) < 10000"
proof (rule ccontr)
  assume "\<not> c_year (civil_of t) < 10000"
  then have "days_before_year 10000 \<le> days_before_year (c_year (civil_of t))" by (intro days_before_year_mono) simp
  also have "\<dots> \<le> t div 86400" by (rule civil_of_facts(3))
  also have "\<dots> < days_before_year 10000" using assms by (rule less_mult_imp_div_less)
  finally show False by simp
qed

text \<open>The exporter reads back the instants it wrote, for every clock reading before the year 10000.\<close>

lemma time_parse_format:
  assumes "t < days_before_year 10000 * 86400"
  shows "time_parse (time_format t) = Some (t * 10 ^ 9)"
proof -
  let ?c = "civil_of t"
  have y: "c_year ?c < 10000" by (rule last_year [OF assms])
  have v: "civil_valid ?c" by (rule civil_of_facts(1))
  then have "c_day ?c < 100" using month_len_le [of "c_year ?c" "c_month ?c"] unfolding civil_valid_def by linarith
  with y v have "time_parse (time_format t) = Some (of_civil \<lparr>c_year = c_year ?c, c_month = c_month ?c, c_day = c_day ?c,
      c_hour = c_hour ?c, c_min = c_min ?c, c_sec = c_sec ?c\<rparr> * 10 ^ 9)"
    using getnum_pad [of "c_sec ?c" True "[]"] unfolding time_format_def time_parse_def Let_def civil_valid_def
    by (simp add: get_year_pad skip_spaces_pad in_range_def get_fraction_def)
  also have "\<lparr>c_year = c_year ?c, c_month = c_month ?c, c_day = c_day ?c,
      c_hour = c_hour ?c, c_min = c_min ?c, c_sec = c_sec ?c\<rparr> = ?c" by simp
  finally show ?thesis by (simp add: civil_of_facts(2))
qed

section \<open>Durations\<close>

text \<open>\<open>t.Sub(u)\<close> in nanoseconds, kept to the range of an \<open>int64\<close>.\<close>

definition time_sub :: "nat \<Rightarrow> nat \<Rightarrow> int" where
  "time_sub t u = max (- (2 ^ 63)) (min (2 ^ 63 - 1) (int t - int u))"

text \<open>Go's integer division rounds towards zero.\<close>

definition go_quot :: "int \<Rightarrow> int \<Rightarrow> int" where
  "go_quot a b = sgn a * sgn b * (\<bar>a\<bar> div \<bar>b\<bar>)"

definition go_rem :: "int \<Rightarrow> int \<Rightarrow> int" where
  "go_rem a b = a - go_quot a b * b"

definition dur_seconds :: "int \<Rightarrow> f64" where
  "dur_seconds d = fl_add (fl_of_int (go_quot d (10 ^ 9))) (fl_div (fl_of_int (go_rem d (10 ^ 9))) (fl_of_int (10 ^ 9)))"

definition dur_microseconds :: "int \<Rightarrow> int" where
  "dur_microseconds d = go_quot d 1000"

lemma go_quot_mult: "0 < b \<Longrightarrow> go_quot (a * b) b = a"
  by (simp add: go_quot_def abs_mult sgn_mult mult_sgn_abs)

lemma go_rem_mult: "0 < b \<Longrightarrow> go_rem (a * b) b = 0"
  by (simp add: go_rem_def go_quot_mult)

text \<open>A duration of whole seconds, below 292 years, is exact.\<close>

lemma time_sub_seconds:
  assumes "\<bar>int t - int u\<bar> < 9 * 10 ^ 9"
  shows "time_sub (t * 10 ^ 9) (u * 10 ^ 9) = (int t - int u) * 10 ^ 9"
proof -
  have "int (t * 10 ^ 9) - int (u * 10 ^ 9) = (int t - int u) * 10 ^ 9" by (simp add: algebra_simps)
  moreover have "\<bar>(int t - int u) * 10 ^ 9\<bar> < 2 ^ 63 - 1" using assms by (simp add: abs_mult)
  ultimately show ?thesis unfolding time_sub_def by linarith
qed

lemma dur_seconds_whole:
  assumes "\<bar>s\<bar> < 9 * 10 ^ 9"
  shows "dur_seconds (s * 10 ^ 9) = Fin (of_int s)"
proof -
  have "fl_of_int s = Fin (of_int s)" "fl_of_int 0 = Fin 0" "fl_of_int (10 ^ 9) = Fin (10 ^ 9)"
    using assms fl_small_int [of s] fl_small_int [of 0] fl_small_int [of "10 ^ 9"] by simp_all
  moreover have "fl 0 = Fin 0" by (simp add: fl_def)
  moreover have "fl (of_int s) = Fin (of_int s)" using \<open>fl_of_int s = _\<close> by (simp add: fl_of_int_def)
  ultimately show ?thesis unfolding dur_seconds_def go_quot_mult go_rem_mult by (simp add: go_quot_mult go_rem_mult)
qed

lemma dur_microseconds_whole: "dur_microseconds (s * 10 ^ 9) = s * 10 ^ 6"
proof -
  have "s * 10 ^ 9 = (s * 10 ^ 6) * 1000" by simp
  then show ?thesis unfolding dur_microseconds_def by (simp only: go_quot_mult [of 1000]) 
qed

end
