(* ===== verification/Mbx_Stats.thy ===== *)
theory Mbx_Stats
  imports Go_Time "HOL-Library.Word" "HOL-Library.State_Monad"
begin

text \<open>
  The measurements of the memory bandwidth exporter (\<open>collector/common.go\<close> and \<open>collector/info.go\<close> of
  \<open>kubernetes-addons/memory-bandwidth-exporter/\<close>): the counters it reads from the resctrl and cgroup file systems,
  how two samples become rates, and how the threads of a container enter its monitoring group.

  The operating system is the record \<open>'w os\<close> of calls on an unknown world \<open>'w\<close>; code that calls it is a value of
  the state monad over \<open>'w\<close>. A call fails with a \<open>fault\<close>: a Go error, or a panic. The values that Go returns next to
  an error are dropped, as every caller drops them.
\<close>

section \<open>Errors and the operating system\<close>

datatype mbx_error =
    OsError go_error
  | NoMonGroup string            \<comment> \<open>mon_groups path does not exist\<close>
  | NoMonData string             \<comment> \<open>there is no mon_data stats directories\<close>
  | UnavailableValue string      \<comment> \<open>"Unavailable" value from file\<close>
  | NotUint bytes string         \<comment> \<open>unable to parse as a uint from file\<close>
  | NotInt string                \<comment> \<open>error of strconv.ParseInt\<close>
  | MissingSocket string         \<comment> \<open>missing socket in oldStats\<close>
  | BadTime string               \<comment> \<open>error of time.Parse\<close>
  | MkdirFailed go_error
  | CheckFailed string go_error
  | NotDirectory string
  | BadTaskLine string
  | ReadThreadsFailed string mbx_error
  | WriteTasksFailed string go_error
  | MonitorGroupFailed mbx_error
  | ChanFull                     \<comment> \<open>ContainerInfoChan is full\<close>
  | HookFailed go_error          \<comment> \<open>hook generation failed\<close>
  | MissingCollector string
  | DisabledCollector string

datatype fault = Err mbx_error | Crash

datatype stat_result = Exists bool | NotExist go_error | StatFailed go_error

type_synonym ('w, 'a) io = "('w, fault + 'a) state"

text \<open>The calls of package \<open>os\<close> and \<open>path/filepath\<close> that reach the system. \<open>os_open\<close> gives the bytes that can be
  read from an opened file; \<open>os_now\<close> is the local wall clock.\<close>

record 'w os =
  os_stat :: "string \<Rightarrow> ('w, stat_result) state"
  os_read_file :: "string \<Rightarrow> ('w, go_error + bytes) state"
  os_open :: "string \<Rightarrow> ('w, go_error + bytes) state"
  os_read_dir :: "string \<Rightarrow> ('w, go_error + (string \<times> bool) list) state"
  os_glob :: "string \<Rightarrow> ('w, go_error + string list) state"
  os_mkdir :: "string \<Rightarrow> ('w, go_error option) state"
  os_create :: "string \<Rightarrow> ('w, go_error option) state"
  os_write :: "string \<Rightarrow> bytes \<Rightarrow> ('w, go_error option) state"
  os_now :: "('w, nat) state"

definition ret_io :: "'a \<Rightarrow> ('w, 'a) io" where
  "ret_io x = State_Monad.return (Inr x)"

definition fail_io :: "mbx_error \<Rightarrow> ('w, 'a) io" where
  "fail_io e = State_Monad.return (Inl (Err e))"

text \<open>\<open>x, err := m; if err != nil { return err }\<close>\<close>

definition try_io :: "('w, 'a) io \<Rightarrow> ('a \<Rightarrow> ('w, 'b) io) \<Rightarrow> ('w, 'b) io" where
  "try_io m f = do { r \<leftarrow> m; case r of Inl e \<Rightarrow> State_Monad.return (Inl e) | Inr x \<Rightarrow> f x }"

definition os_io :: "('w, go_error + 'a) state \<Rightarrow> ('w, 'a) io" where
  "os_io m = do { r \<leftarrow> m; case r of Inl e \<Rightarrow> fail_io (OsError e) | Inr x \<Rightarrow> ret_io x }"

lemma run_ret_io [simp]: "run_state (ret_io x) w = (Inr x, w)"
  by (simp add: ret_io_def)

lemma run_fail_io [simp]: "run_state (fail_io e) w = (Inl (Err e), w)"
  by (simp add: fail_io_def)

lemma run_bind: "run_state (State_Monad.bind m f) w = (case run_state m w of (x, w') \<Rightarrow> run_state (f x) w')"
  by (simp add: State_Monad.bind_def)

lemma run_try_io: "run_state (try_io m f) w =
    (case run_state m w of (Inl e, w') \<Rightarrow> (Inl e, w') | (Inr x, w') \<Rightarrow> run_state (f x) w')"
  by (simp add: try_io_def run_bind split: prod.split sum.split)

lemma run_os_io: "run_state (os_io m) w =
    (case run_state m w of (Inl e, w') \<Rightarrow> (Inl (Err (OsError e)), w') | (Inr x, w') \<Rightarrow> (Inr x, w'))"
  by (simp add: os_io_def run_bind split: prod.split sum.split)

lemmas io_simps = run_bind run_try_io run_os_io

section \<open>Paths\<close>

text \<open>\<open>filepath.Clean\<close>; the path so far is kept as a stack of its elements.\<close>

fun clean_push :: "bool \<Rightarrow> string list \<Rightarrow> string \<Rightarrow> string list" where
  "clean_push rooted st e =
     (if e = [] \<or> e = ''.'' then st
      else if e = ''..'' then
        (case st of [] \<Rightarrow> if rooted then [] else [e] | t # st' \<Rightarrow> if t = ''..'' then e # st else st')
      else e # st)"

definition path_clean :: "string \<Rightarrow> string" where
  "path_clean p = (let rooted = (p \<noteq> [] \<and> hd p = CHR ''/'');
                       body = str_join ''/'' (rev (foldl (clean_push rooted) [] (str_split p ''/''))) in
     if rooted then CHR ''/'' # body else if body = [] then ''.'' else body)"

fun path_join :: "string list \<Rightarrow> string" where
  "path_join [] = []"
| "path_join (e # es) = (if e = [] then path_join es else path_clean (str_join ''/'' (e # es)))"

declare path_join.simps [simp del]

section \<open>Data\<close>

record RawMemoryBandwidthStats =
  TotalBytes :: "64 word"
  TotalBytesTimeStamp :: string
  LocalBytes :: "64 word"
  LocalBytesTimeStamp :: string

record RawCacheStats =
  RawLLCOccupancy :: "64 word"

record RawCPUStats =
  CPU :: "64 word"
  CPUTimeStamp :: string

text \<open>A nil map, and a nil pointer, is \<open>None\<close>. The \<open>int64\<close> fields are words read with \<open>sint\<close>.\<close>

record RawStats =
  SocketNum :: nat
  RawMemoryBandwidth :: "(string, RawMemoryBandwidthStats) gomap option"
  RawCache :: "(string, RawCacheStats) gomap option"
  RawCPUUtilization :: "RawCPUStats option"
  RawMemory :: "64 word"

record ProcessedMemoryBandwidthStats =
  TotalMBps :: f64
  LocalMBps :: f64

record ProcessedCacheStats =
  LLCOccupancy :: f64

record ProcessedStats =
  socketNum :: nat
  SumMemoryBandwidth :: ProcessedMemoryBandwidthStats
  SumCache :: ProcessedCacheStats
  MemoryBandwidth :: "(string, ProcessedMemoryBandwidthStats) gomap option"
  Cache :: "(string, ProcessedCacheStats) gomap option"
  CPUUtilization :: f64
  Memory :: f64

record stats =
  oldStats :: RawStats
  processedStats :: ProcessedStats

text \<open>\<open>RawStats{}\<close> and \<open>ProcessedStats{}\<close>.\<close>

definition zero_raw :: RawStats where
  "zero_raw = \<lparr>SocketNum = 0, RawMemoryBandwidth = None, RawCache = None, RawCPUUtilization = None, RawMemory = 0\<rparr>"

definition zero_processed :: ProcessedStats where
  "zero_processed = \<lparr>socketNum = 0, SumMemoryBandwidth = \<lparr>TotalMBps = Fin 0, LocalMBps = Fin 0\<rparr>,
     SumCache = \<lparr>LLCOccupancy = Fin 0\<rparr>, MemoryBandwidth = None, Cache = None,
     CPUUtilization = Fin 0, Memory = Fin 0\<rparr>"

type_synonym metrics = "string list"

definition monDataDirName :: string where "monDataDirName = ''mon_data''"
definition llcOccupancyFileName :: string where "llcOccupancyFileName = ''llc_occupancy''"
definition mbmLocalBytesFileName :: string where "mbmLocalBytesFileName = ''mbm_local_bytes''"
definition mbmTotalBytesFileName :: string where "mbmTotalBytesFileName = ''mbm_total_bytes''"
definition unavailable :: string where "unavailable = ''Unavailable''"
definition rootResctrlPath :: string where "rootResctrlPath = ''/sys/fs/resctrl''"
definition cgroupControllerPath :: string where "cgroupControllerPath = ''/sys/fs/cgroup/cgroup.controllers''"
definition allMetrics :: string where "allMetrics = ''all''"
definition noMetrics :: string where "noMetrics = ''none''"
definition allClassMetrics :: "string list" where "allClassMetrics = [''mb'', ''llc'']"
definition allNodeMetrics :: "string list" where "allNodeMetrics = [''mb'', ''llc'']"
definition allContainerMetrics :: "string list" where "allContainerMetrics = [''mb'', ''llc'', ''cpu'', ''memory'']"

section \<open>Which metrics are wanted\<close>

text \<open>A set of metrics, \<open>map[string]struct{}\<close>, is the list of its keys.\<close>

definition isNeedCollectMbLLc :: "metrics \<Rightarrow> bool" where
  "isNeedCollectMbLLc m = (''mb'' \<in> set m \<or> ''llc'' \<in> set m)"

definition isNeedCollectCpu :: "metrics \<Rightarrow> bool" where
  "isNeedCollectCpu m = (''cpu'' \<in> set m)"

definition isNeedCollectMemory :: "metrics \<Rightarrow> bool" where
  "isNeedCollectMemory m = (''memory'' \<in> set m)"

definition getMetricsKeys :: "metrics \<Rightarrow> string" where
  "getMetricsKeys m = str_join '','' m"

section \<open>Reading the counters\<close>

definition readStatFrom :: "'w os \<Rightarrow> string \<Rightarrow> ('w, 64 word \<times> string) io" where
  "readStatFrom S path = do {
     r \<leftarrow> os_read_file S path;
     t \<leftarrow> os_now S;
     case r of
       Inl e \<Rightarrow> fail_io (OsError e)
     | Inr context \<Rightarrow>
         (let contextString = trim_space context in
          if contextString = unavailable then fail_io (UnavailableValue path)
          else case parse_uint 64 contextString of
                 None \<Rightarrow> fail_io (NotUint context path)
               | Some n \<Rightarrow> ret_io (of_nat n, time_format t)) }"

fun rdt_loop :: "'w os \<Rightarrow> string list \<Rightarrow> (string, RawMemoryBandwidthStats) gomap \<Rightarrow> (string, RawCacheStats) gomap \<Rightarrow>
    ('w, (string, RawMemoryBandwidthStats) gomap \<times> (string, RawCacheStats) gomap) io" where
  "rdt_loop S [] mbm cmt = ret_io (mbm, cmt)"
| "rdt_loop S (dir # dirs) mbm cmt = (let nid = last (str_split dir ''_'') in
     try_io (readStatFrom S (path_join [dir, llcOccupancyFileName])) (\<lambda>(llc, _).
     try_io (readStatFrom S (path_join [dir, mbmTotalBytesFileName])) (\<lambda>(totalB, tBtime).
     try_io (readStatFrom S (path_join [dir, mbmLocalBytesFileName])) (\<lambda>(localB, lBtime).
       rdt_loop S dirs
         (gm_set nid \<lparr>TotalBytes = totalB, TotalBytesTimeStamp = tBtime, LocalBytes = localB, LocalBytesTimeStamp = lBtime\<rparr> mbm)
         (gm_set nid \<lparr>RawLLCOccupancy = llc\<rparr> cmt)))))"

definition getIntelRDTStatsFrom :: "'w os \<Rightarrow> string \<Rightarrow>
    ('w, nat \<times> (string, RawMemoryBandwidthStats) gomap \<times> (string, RawCacheStats) gomap) io" where
  "getIntelRDTStatsFrom S path = do {
     st \<leftarrow> os_stat S path;
     case st of
       NotExist _ \<Rightarrow> fail_io (NoMonGroup path)
     | _ \<Rightarrow>
         try_io (os_io (os_glob S (path_join [path, monDataDirName, ''*'']))) (\<lambda>statsDirectories.
           if statsDirectories = [] then fail_io (NoMonData path)
           else try_io (rdt_loop S statsDirectories [] []) (\<lambda>(mbm, cmt).
             ret_io (length statsDirectories, mbm, cmt))) }"

definition parse_int64 :: "string \<Rightarrow> ('w, 64 word) io" where
  "parse_int64 s = (case parse_int 64 s of None \<Rightarrow> fail_io (NotInt s) | Some i \<Rightarrow> ret_io (of_int i))"

text \<open>\<open>os.Stat\<close> with every error returned.\<close>

definition stat_io :: "'w os \<Rightarrow> string \<Rightarrow> ('w, bool) io" where
  "stat_io S p = do { r \<leftarrow> os_stat S p;
     case r of Exists d \<Rightarrow> ret_io d | NotExist e \<Rightarrow> fail_io (OsError e) | StatFailed e \<Rightarrow> fail_io (OsError e) }"

definition getCgroupVersion :: "'w os \<Rightarrow> ('w, string) state" where
  "getCgroupVersion S = do { r \<leftarrow> os_stat S cgroupControllerPath;
     State_Monad.return (case r of Exists _ \<Rightarrow> ''v2'' | _ \<Rightarrow> ''v1'') }"

definition getCgroupV1CpuTime :: "'w os \<Rightarrow> string \<Rightarrow> ('w, 64 word) io" where
  "getCgroupV1CpuTime S cgroupPath = (let filePath = path_join [cgroupPath, ''cpuacct.usage''] in
     try_io (stat_io S filePath) (\<lambda>_.
     try_io (os_io (os_read_file S filePath)) (\<lambda>content. parse_int64 (trim_space content))))"

text \<open>\<open>bufio.Scanner\<close>: lines without their end, up to the first one that does not fit its buffer of 64 KiB.\<close>

definition drop_cr :: "string \<Rightarrow> string" where
  "drop_cr s = (if s \<noteq> [] \<and> last s = CHR 0x0D then butlast s else s)"

definition scan_lines :: "bytes \<Rightarrow> string list" where
  "scan_lines b = (let ls = str_split b [CHR 0x0A]; ls' = (if last ls = [] then butlast ls else ls) in
     map drop_cr (takeWhile (\<lambda>l. length l < 65536) ls'))"

fun usage_loop :: "string list \<Rightarrow> ('w, 64 word) io" where
  "usage_loop [] = ret_io 0"
| "usage_loop (line # lines) = (let columns = str_split line '' '' in
     if hd columns = ''usage_usec'' then
       if length columns < 2 then State_Monad.return (Inl Crash) else parse_int64 (trim_space (columns ! 1))
     else usage_loop lines)"

definition getCgroupV2CpuTime :: "'w os \<Rightarrow> string \<Rightarrow> ('w, 64 word) io" where
  "getCgroupV2CpuTime S cgroupPath = (let filePath = path_join [cgroupPath, ''cpu.stat''] in
     try_io (stat_io S filePath) (\<lambda>_.
     try_io (os_io (os_open S filePath)) (\<lambda>content. usage_loop (scan_lines content))))"

definition getCPUUtilizationFrom :: "'w os \<Rightarrow> string \<Rightarrow> ('w, RawCPUStats) io" where
  "getCPUUtilizationFrom S path = do {
     v \<leftarrow> getCgroupVersion S;
     t \<leftarrow> os_now S;
     try_io (if v = ''v1'' then getCgroupV1CpuTime S path else getCgroupV2CpuTime S path)
       (\<lambda>c. ret_io \<lparr>CPU = c, CPUTimeStamp = time_format t\<rparr>) }"

definition getMemorySizeFrom :: "'w os \<Rightarrow> string \<Rightarrow> ('w, 64 word) io" where
  "getMemorySizeFrom S path = do {
     v \<leftarrow> getCgroupVersion S;
     (let filePath = path_join [path, if v = ''v1'' then ''memory.usage_in_bytes'' else ''memory.current''] in
      try_io (stat_io S filePath) (\<lambda>_.
      try_io (os_io (os_read_file S filePath)) (\<lambda>content. parse_int64 (trim_space content)))) }"

section \<open>From samples to rates\<close>

definition fl_of_u64 :: "64 word \<Rightarrow> f64" where
  "fl_of_u64 w = fl_of_int (uint w)"

definition fl_of_i64 :: "64 word \<Rightarrow> f64" where
  "fl_of_i64 w = fl_of_int (sint w)"

definition bytesToMiB :: "64 word \<Rightarrow> f64" where
  "bytesToMiB b = fl_div (fl_of_u64 b) (Fin (1024 * 1024))"

definition bytesToMB :: "64 word \<Rightarrow> f64" where
  "bytesToMB b = fl_div (fl_of_u64 b) (Fin (1000 * 1000))"

fun cache_loop :: "(string \<times> RawCacheStats) list \<Rightarrow> f64 \<Rightarrow> (string, ProcessedCacheStats) gomap \<Rightarrow>
    f64 \<times> (string, ProcessedCacheStats) gomap" where
  "cache_loop [] sumC m = (sumC, m)"
| "cache_loop ((nid, llc) # cs) sumC m = (let cmt = bytesToMiB (RawLLCOccupancy llc) in
     cache_loop cs (fl_add sumC cmt) (gm_set nid \<lparr>LLCOccupancy = cmt\<rparr> m))"

text \<open>The rate of a counter between two stamped readings: the elapsed time and the difference, which wraps.\<close>

definition elapsed :: "string \<Rightarrow> string \<Rightarrow> mbx_error + int" where
  "elapsed old new = (case time_parse old of None \<Rightarrow> Inl (BadTime old) | Some o' \<Rightarrow>
     (case time_parse new of None \<Rightarrow> Inl (BadTime new) | Some n' \<Rightarrow> Inr (time_sub n' o')))"

fun mbm_loop :: "(string, RawMemoryBandwidthStats) gomap \<Rightarrow> (string \<times> RawMemoryBandwidthStats) list \<Rightarrow> f64 \<Rightarrow> f64 \<Rightarrow>
    (string, ProcessedMemoryBandwidthStats) gomap \<Rightarrow>
    mbx_error + f64 \<times> f64 \<times> (string, ProcessedMemoryBandwidthStats) gomap" where
  "mbm_loop old [] sumT sumL m = Inr (sumT, sumL, m)"
| "mbm_loop old ((nid, newStat) # ns) sumT sumL m = (case gm_get old nid of
     None \<Rightarrow> Inl (MissingSocket nid)
   | Some oldStat \<Rightarrow>
       (case elapsed (TotalBytesTimeStamp oldStat) (TotalBytesTimeStamp newStat) of
         Inl e \<Rightarrow> Inl e
       | Inr dt \<Rightarrow>
           (case elapsed (LocalBytesTimeStamp oldStat) (LocalBytesTimeStamp newStat) of
             Inl e \<Rightarrow> Inl e
           | Inr dl \<Rightarrow>
               (let tmbm = fl_div (bytesToMB (TotalBytes newStat - TotalBytes oldStat)) (dur_seconds dt);
                    lmbm = fl_div (bytesToMB (LocalBytes newStat - LocalBytes oldStat)) (dur_seconds dl) in
                mbm_loop old ns (fl_add sumT tmbm) (fl_add sumL lmbm)
                  (gm_set nid \<lparr>TotalMBps = tmbm, LocalMBps = lmbm\<rparr> m)))))"

text \<open>The parts of \<open>processStats\<close>, in its order: caches, memory bandwidth, CPU, memory.\<close>

definition process_cache :: "RawStats \<Rightarrow> ProcessedStats \<Rightarrow> ProcessedStats" where
  "process_cache newS p = (case RawCache newS of
     None \<Rightarrow> p
   | Some cs \<Rightarrow> (case cache_loop cs (Fin 0) [] of (sumC, m) \<Rightarrow>
       p\<lparr>Cache := Some m, SumCache := \<lparr>LLCOccupancy = sumC\<rparr>\<rparr>))"

definition process_mbm :: "RawStats \<Rightarrow> RawStats \<Rightarrow> ProcessedStats \<Rightarrow> mbx_error + ProcessedStats" where
  "process_mbm oldS newS p = (case (RawMemoryBandwidth newS, RawMemoryBandwidth oldS) of
     (Some ns, Some os) \<Rightarrow>
       (case mbm_loop os ns (Fin 0) (Fin 0) [] of
         Inl e \<Rightarrow> Inl e
       | Inr (sumT, sumL, m) \<Rightarrow>
           Inr (p\<lparr>MemoryBandwidth := Some m, SumMemoryBandwidth := \<lparr>TotalMBps = sumT, LocalMBps = sumL\<rparr>\<rparr>))
   | _ \<Rightarrow> Inr p)"

definition process_cpu :: "RawStats \<Rightarrow> RawStats \<Rightarrow> ProcessedStats \<Rightarrow> mbx_error + ProcessedStats" where
  "process_cpu oldS newS p = (case (RawCPUUtilization oldS, RawCPUUtilization newS) of
     (Some oc, Some nc) \<Rightarrow>
       (case elapsed (CPUTimeStamp oc) (CPUTimeStamp nc) of
         Inl e \<Rightarrow> Inl e
       | Inr d \<Rightarrow> Inr (p\<lparr>CPUUtilization := fl_div (fl_of_i64 (CPU nc - CPU oc)) (fl_of_int (dur_microseconds d))\<rparr>))
   | _ \<Rightarrow> Inr p)"

definition process_memory :: "RawStats \<Rightarrow> ProcessedStats \<Rightarrow> ProcessedStats" where
  "process_memory newS p =
     (if RawMemory newS \<noteq> 0
      then p\<lparr>Memory := fl_div (fl_div (fl_of_i64 (RawMemory newS)) (Fin 1024)) (Fin 1024)\<rparr> else p)"

definition processStats :: "RawStats \<Rightarrow> RawStats \<Rightarrow> mbx_error + ProcessedStats" where
  "processStats oldS newS =
     (case process_mbm oldS newS (process_cache newS (zero_processed\<lparr>socketNum := SocketNum newS\<rparr>)) of
       Inl e \<Rightarrow> Inl e
     | Inr p \<Rightarrow> map_sum id (process_memory newS) (process_cpu oldS newS p))"

section \<open>Monitoring groups and their threads\<close>

definition makeMonitorGroup :: "'w os \<Rightarrow> string \<Rightarrow> ('w, unit) io" where
  "makeMonitorGroup S monPath = do {
     st \<leftarrow> os_stat S monPath;
     case st of
       NotExist _ \<Rightarrow> do { r \<leftarrow> os_mkdir S monPath;
         case r of None \<Rightarrow> ret_io () | Some e \<Rightarrow> fail_io (MkdirFailed e) }
     | StatFailed e \<Rightarrow> fail_io (CheckFailed monPath e)
     | Exists isDir \<Rightarrow> if isDir then ret_io () else fail_io (NotDirectory monPath) }"

definition trim_newlines :: "string \<Rightarrow> string" where
  "trim_newlines s = (let nl = (\<lambda>c. c = CHR 0x0A) in rev (dropWhile nl (rev (dropWhile nl s))))"

text \<open>An \<open>int32\<close> is a \<open>32 word\<close>.\<close>

fun parse_tasks :: "string list \<Rightarrow> 32 word list \<Rightarrow> mbx_error + 32 word list" where
  "parse_tasks [] values = Inr values"
| "parse_tasks (line # lines) values = (let line' = trim_space line in
     if length line' \<le> 0 then parse_tasks lines values
     else case parse_int 32 line' of
            None \<Rightarrow> Inl (BadTaskLine line')
          | Some v \<Rightarrow> parse_tasks lines (values @ [of_int v]))"

definition readCPUTasks :: "'w os \<Rightarrow> string \<Rightarrow> ('w, 32 word list) io" where
  "readCPUTasks S path =
     (if path = [] then ret_io []
      else try_io (os_io (os_read_file S path)) (\<lambda>data.
        case parse_tasks (str_split (trim_newlines data) [CHR 0x0A]) [] of
          Inl e \<Rightarrow> fail_io e | Inr vs \<Rightarrow> ret_io vs))"

fun write_loop :: "'w os \<Rightarrow> string \<Rightarrow> 32 word list \<Rightarrow> ('w, go_error option) state" where
  "write_loop S filename [] = State_Monad.return None"
| "write_loop S filename (pid # pids) = do {
     r \<leftarrow> os_write S filename (string_of_int (sint pid) @ [CHR 0x0A]);
     case r of Some e \<Rightarrow> State_Monad.return (Some e) | None \<Rightarrow> write_loop S filename pids }"

definition writeTaskIDsToFile :: "'w os \<Rightarrow> 32 word list \<Rightarrow> string \<Rightarrow> ('w, go_error option) state" where
  "writeTaskIDsToFile S pids filename = do {
     r \<leftarrow> os_create S filename;
     case r of Some e \<Rightarrow> State_Monad.return (Some e) | None \<Rightarrow> write_loop S filename pids }"

definition writePidsToTasks :: "'w os \<Rightarrow> string \<Rightarrow> string \<Rightarrow> ('w, unit) io" where
  "writePidsToTasks S monPath cgroupPath = do {
     r \<leftarrow> readCPUTasks S (cgroupPath @ ''/cgroup.threads'');
     case r of
       Inl (Err e) \<Rightarrow> fail_io (ReadThreadsFailed cgroupPath e)
     | Inl Crash \<Rightarrow> State_Monad.return (Inl Crash)
     | Inr pids \<Rightarrow> do {
         w \<leftarrow> writeTaskIDsToFile S pids (monPath @ ''/tasks'');
         case w of Some e \<Rightarrow> fail_io (WriteTasksFailed monPath e) | None \<Rightarrow> ret_io () } }"

definition stringInSlice :: "string \<Rightarrow> string list \<Rightarrow> bool" where
  "stringInSlice str list = (str \<in> set list)"

end
