(* ===== verification/Mbx_Rates.thy ===== *)
theory Mbx_Rates
  imports Mbx_Stats
begin

text \<open>
  What the measurements of \<open>Mbx_Stats\<close> mean: the published rates against the exact quotient of bytes and seconds,
  the CPU figure under both cgroup versions, samples taken within one second, and the way of a container's threads
  into its monitoring group.
\<close>

section \<open>Accuracy of a rate\<close>

lemma compose_error:
  fixes W a b k e u :: rat
  assumes "0 \<le> W" "0 < k" "0 \<le> e" "0 \<le> u" "\<bar>a - W\<bar> \<le> e * W" "\<bar>b - a / k\<bar> \<le> u * \<bar>a / k\<bar>"
  shows "\<bar>b - W / k\<bar> \<le> (e + u + e * u) * (W / k)"
proof -
  have 1: "\<bar>a / k - W / k\<bar> \<le> e * (W / k)"
    using assms(2,5) by (simp add: diff_divide_distrib [symmetric] divide_right_mono)
  have 0: "0 \<le> W / k" using assms(1,2) by simp
  have "\<bar>a / k\<bar> \<le> W / k + e * (W / k)" using 0 1 by linarith
  then have "u * \<bar>a / k\<bar> \<le> u * (W / k + e * (W / k))" using assms(4) by (rule mult_left_mono)
  then have "\<bar>b - W / k\<bar> \<le> u * (W / k + e * (W / k)) + e * (W / k)" using 1 assms(6) by linarith
  then show ?thesis by (simp add: algebra_simps)
qed

lemma moderate_between: "1 / 10 ^ 20 \<le> x \<Longrightarrow> x \<le> 10 ^ 20 \<Longrightarrow> moderate x"
proof -
  assume x: "1 / 10 ^ 20 \<le> x" "x \<le> 10 ^ 20"
  have "2 powi (- 1000) \<le> (1 / 10 ^ 20 :: rat)" "(10 ^ 20 :: rat) \<le> 2 ^ 1000"
    by (simp_all add: power_int_minus)
  moreover have "(0 :: rat) < 1 / 10 ^ 20" by simp
  ultimately show ?thesis using x unfolding moderate_def by linarith
qed

lemma nearby_range: "9/10 * q \<le> x \<Longrightarrow> x \<le> 11/10 * q \<Longrightarrow> 1 / 10 ^ 19 \<le> q \<Longrightarrow> q \<le> 10 ^ 19 \<Longrightarrow>
    1 / 10 ^ 20 \<le> x \<and> x \<le> 10 ^ 20" for x q :: rat
  by simp

text \<open>A division by a positive number of a value that is already off by a factor \<open>e\<close>.\<close>

lemma fl_quotient:
  fixes W k a e :: rat
  assumes "0 < k" "1 / 10 ^ 19 \<le> W / k" "W / k \<le> 10 ^ 19" "0 \<le> e" "e \<le> 1/10" "\<bar>a - W\<bar> \<le> e * W"
  obtains b where "fl_div (Fin a) (Fin k) = Fin b" "\<bar>b - W / k\<bar> \<le> (e + ulp + e * ulp) * (W / k)"
proof -
  have 0: "0 < W / k" using assms(2) by (rule less_le_trans [rotated]) simp
  then have W: "0 \<le> W" using assms(1) by (simp add: zero_less_divide_iff)
  have "\<bar>a / k - W / k\<bar> \<le> e * (W / k)"
    using assms(1,6) by (simp add: diff_divide_distrib [symmetric] divide_right_mono)
  also have "\<dots> \<le> 1/10 * (W / k)" using assms(5) 0 by (intro mult_right_mono) auto
  finally have "9/10 * (W / k) \<le> a / k" "a / k \<le> 11/10 * (W / k)" by linarith+
  then have "1 / 10 ^ 20 \<le> a / k" "a / k \<le> 10 ^ 20" using nearby_range assms(2,3) by blast+
  then obtain b where b: "fl (a / k) = Fin b" "\<bar>b - a / k\<bar> \<le> ulp * \<bar>a / k\<bar>"
    using fl_moderate [OF moderate_between] by metis
  have "\<bar>b - W / k\<bar> \<le> (e + ulp + e * ulp) * (W / k)"
    using compose_error [OF W assms(1,4) _ assms(6) b(2)] ulp_bounds by simp
  with b(1) assms(1) show ?thesis using that by simp
qed

lemma fl_zero [simp]: "fl 0 = Fin 0" "fl_of_int 0 = Fin 0"
  by (simp_all add: fl_def fl_of_int_def)

lemma u64_range: "unat w \<noteq> 0 \<Longrightarrow> (1 :: rat) \<le> of_nat (unat w) \<and> (of_nat (unat w) :: rat) \<le> 2 ^ 64" for w :: "64 word"
proof -
  assume "unat w \<noteq> 0"
  then have "1 \<le> unat w" by simp
  moreover have "unat w \<le> 2 ^ 64" using unsigned_less [of w, where 'a = nat] by simp
  ultimately show ?thesis by (metis of_nat_1 of_nat_le_iff of_nat_numeral of_nat_power)
qed

lemma fl_of_u64_accurate:
  fixes w :: "64 word"
  obtains a where "fl_of_u64 w = Fin a" "\<bar>a - of_nat (unat w)\<bar> \<le> ulp * of_nat (unat w)"
proof (cases "unat w = 0")
  case False
  then have "moderate (of_nat (unat w))" using u64_range [OF False] by (intro moderate_between) auto
  then obtain a where "fl (of_nat (unat w)) = Fin a" "\<bar>a - of_nat (unat w)\<bar> \<le> ulp * \<bar>of_nat (unat w)\<bar>"
    by (rule fl_moderate)
  moreover have "fl_of_u64 w = fl (of_nat (unat w))"
    unfolding fl_of_u64_def fl_of_int_def by (metis of_int_of_nat_eq uint_nat)
  ultimately show ?thesis using that by (metis abs_of_nat)
next
  case True
  then have "w = 0" by (simp only: unat_eq_0)
  then show ?thesis using that [of 0] by (simp add: fl_of_u64_def)
qed

lemma bytesToMB_accurate:
  fixes w :: "64 word"
  assumes "unat w \<noteq> 0"
  obtains b where "bytesToMB w = Fin b"
    "\<bar>b - of_nat (unat w) / 10 ^ 6\<bar> \<le> (ulp + ulp + ulp * ulp) * (of_nat (unat w) / 10 ^ 6)"
proof -
  let ?W = "of_nat (unat w) :: rat"
  have W: "1 \<le> ?W" "?W \<le> 2 ^ 64" using u64_range [OF assms] by auto
  obtain a where a: "fl_of_u64 w = Fin a" "\<bar>a - ?W\<bar> \<le> ulp * ?W" by (rule fl_of_u64_accurate)
  have "1 / 10 ^ 19 \<le> ?W / 10 ^ 6" "?W / 10 ^ 6 \<le> 10 ^ 19" using W by auto
  then obtain b where "fl_div (Fin a) (Fin (10 ^ 6)) = Fin b" "\<bar>b - ?W / 10 ^ 6\<bar> \<le> (ulp + ulp + ulp * ulp) * (?W / 10 ^ 6)"
    using ulp_bounds a(2) by (auto intro: fl_quotient [of "10 ^ 6" ?W ulp a])
  with a(1) show ?thesis using that by (simp add: bytesToMB_def)
qed

text \<open>Three roundings, of the counter, of the division by a million and of the division by the seconds, add up to
  an error below four units in the last place.\<close>

lemma rate_accurate:
  fixes s :: int and w :: "64 word"
  assumes "0 < s" "s < 9 * 10 ^ 9"
  obtains r where "fl_div (bytesToMB w) (Fin (of_int s)) = Fin r"
    "\<bar>r - of_nat (unat w) / (10 ^ 6 * of_int s)\<bar> \<le> 4 * ulp * (of_nat (unat w) / (10 ^ 6 * of_int s))"
proof (cases "unat w = 0")
  case True
  then have "uint w = 0" by (simp add: unat_eq_0)
  with True assms have "fl_div (bytesToMB w) (Fin (of_int s)) = Fin 0" by (simp add: bytesToMB_def fl_of_u64_def)
  with True show ?thesis using that by simp
next
  case False
  let ?W = "of_nat (unat w) :: rat" and ?k = "of_int s :: rat" and ?e = "ulp + ulp + ulp * ulp"
  have W: "1 \<le> ?W" "?W \<le> 2 ^ 64" using u64_range [OF False] by auto
  have "of_int 1 \<le> ?k" "?k \<le> of_int (9 * 10 ^ 9)" using assms by (simp_all only: of_int_le_iff)
  then have k: "1 \<le> ?k" "?k \<le> 9 * 10 ^ 9" by simp_all
  have u: "0 < ulp" "ulp < 1/100" by (rule ulp_bounds)+
  have uu: "ulp * ulp \<le> 1/100 * ulp" "?e * ulp \<le> 1/10 * ulp"
    using u by (intro mult_right_mono; simp add: ulp_def)+
  obtain b where b: "bytesToMB w = Fin b" "\<bar>b - ?W / 10 ^ 6\<bar> \<le> ?e * (?W / 10 ^ 6)"
    by (rule bytesToMB_accurate [OF False])
  have "?W / 10 ^ 6 / (9 * 10 ^ 9) \<le> ?W / 10 ^ 6 / ?k" "?W / 10 ^ 6 / ?k \<le> ?W / 10 ^ 6 / 1"
    using k W by (intro divide_left_mono; simp)+
  then have "1 / 10 ^ 19 \<le> ?W / 10 ^ 6 / ?k" "?W / 10 ^ 6 / ?k \<le> 10 ^ 19" using W by auto
  moreover have "?e \<le> 1/10" "0 \<le> ?e" "0 < ?k" using uu u k by (simp_all add: ulp_def)
  ultimately obtain r where r: "fl_div (Fin b) (Fin ?k) = Fin r"
    "\<bar>r - ?W / 10 ^ 6 / ?k\<bar> \<le> (?e + ulp + ?e * ulp) * (?W / 10 ^ 6 / ?k)"
    using b(2) by (auto intro: fl_quotient [of ?k "?W / 10 ^ 6" ?e b])
  note r(2)
  also have "(?e + ulp + ?e * ulp) * (?W / 10 ^ 6 / ?k) \<le> 4 * ulp * (?W / 10 ^ 6 / ?k)"
  proof (rule mult_right_mono)
    show "?e + ulp + ?e * ulp \<le> 4 * ulp" using uu u by linarith
    show "0 \<le> ?W / 10 ^ 6 / ?k" using W k by simp
  qed
  finally have "\<bar>r - ?W / (10 ^ 6 * ?k)\<bar> \<le> 4 * ulp * (?W / (10 ^ 6 * ?k))" by (simp add: mult.assoc)
  moreover have "fl_div (bytesToMB w) (Fin ?k) = Fin r" using b r by simp
  ultimately show ?thesis using that by blast
qed

section \<open>Rates between two samples\<close>

definition in_calendar :: "nat \<Rightarrow> bool" where
  "in_calendar t = (t < days_before_year 10000 * 86400)"

lemma elapsed_format:
  assumes "in_calendar t0" "in_calendar t1" "\<bar>int t1 - int t0\<bar> < 9 * 10 ^ 9"
  shows "elapsed (time_format t0) (time_format t1) = Inr ((int t1 - int t0) * 10 ^ 9)"
  using assms unfolding in_calendar_def
  by (simp only: elapsed_def time_parse_format time_sub_seconds option.case)

definition rate :: "64 word \<Rightarrow> 64 word \<Rightarrow> string \<Rightarrow> string \<Rightarrow> f64" where
  "rate b0 b1 s0 s1 = fl_div (bytesToMB (b1 - b0)) (dur_seconds (projr (elapsed s0 s1)))"

definition socket_rate :: "RawMemoryBandwidthStats \<Rightarrow> RawMemoryBandwidthStats \<Rightarrow> ProcessedMemoryBandwidthStats" where
  "socket_rate old new = \<lparr>
     TotalMBps = rate (TotalBytes old) (TotalBytes new) (TotalBytesTimeStamp old) (TotalBytesTimeStamp new),
     LocalMBps = rate (LocalBytes old) (LocalBytes new) (LocalBytesTimeStamp old) (LocalBytesTimeStamp new)\<rparr>"

definition readable :: "string \<Rightarrow> string \<Rightarrow> bool" where
  "readable s0 s1 = (\<exists>d. elapsed s0 s1 = Inr d)"

text \<open>Every socket of the new sample was in the old one, and the stamps of both can be read.\<close>

definition sockets_match :: "(string, RawMemoryBandwidthStats) gomap \<Rightarrow> (string, RawMemoryBandwidthStats) gomap \<Rightarrow> bool" where
  "sockets_match os ns = (gm_wf ns \<and> (\<forall>(nid, new) \<in> set ns. \<exists>old. gm_get os nid = Some old \<and>
     readable (TotalBytesTimeStamp old) (TotalBytesTimeStamp new) \<and>
     readable (LocalBytesTimeStamp old) (LocalBytesTimeStamp new)))"

definition comparable :: "RawStats \<Rightarrow> RawStats \<Rightarrow> bool" where
  "comparable oldS newS = (
     (case (RawMemoryBandwidth oldS, RawMemoryBandwidth newS) of (Some os, Some ns) \<Rightarrow> sockets_match os ns | _ \<Rightarrow> True) \<and>
     (case (RawCPUUtilization oldS, RawCPUUtilization newS) of
        (Some oc, Some nc) \<Rightarrow> readable (CPUTimeStamp oc) (CPUTimeStamp nc) | _ \<Rightarrow> True))"

definition old_rate :: "(string, RawMemoryBandwidthStats) gomap \<Rightarrow> string \<times> RawMemoryBandwidthStats \<Rightarrow> ProcessedMemoryBandwidthStats" where
  "old_rate os e = socket_rate (the (gm_get os (fst e))) (snd e)"

lemma gm_wf_Cons: "gm_wf (e # m) \<longleftrightarrow> gm_get m (fst e) = None \<and> gm_wf m"
  by (simp add: gm_wf_def gm_keys_def gm_get_def map_of_eq_None_iff)

lemma mbm_loop_rates:
  assumes "sockets_match os ns"
  obtains m' where "mbm_loop os ns sT sL m = Inr (foldl fl_add sT (map (TotalMBps \<circ> old_rate os) ns),
      foldl fl_add sL (map (LocalMBps \<circ> old_rate os) ns), m')"
    "\<forall>k. gm_get m' k = (case gm_get ns k of Some new \<Rightarrow> Some (old_rate os (k, new)) | None \<Rightarrow> gm_get m k)"
  using assms
proof (induction ns arbitrary: sT sL m thesis)
  case (Cons e ns)
  obtain nid new where e: "e = (nid, new)" by (cases e)
  from Cons.prems(2) e obtain old dt dl where old: "gm_get os nid = Some old"
    and d: "elapsed (TotalBytesTimeStamp old) (TotalBytesTimeStamp new) = Inr dt"
      "elapsed (LocalBytesTimeStamp old) (LocalBytesTimeStamp new) = Inr dl"
    by (auto simp: sockets_match_def readable_def)
  have ns: "sockets_match os ns" "gm_get ns nid = None" using Cons.prems(2) e by (auto simp: sockets_match_def gm_wf_Cons)
  show ?case
    by (rule Cons.IH [OF _ ns(1), of "fl_add sT (TotalMBps (old_rate os e))" "fl_add sL (LocalMBps (old_rate os e))"
          "gm_set nid (old_rate os e) m"], rule Cons.prems(1))
      (use e old d ns(2) in \<open>auto simp: old_rate_def socket_rate_def rate_def Let_def gm_get_Cons split: option.split\<close>)
qed simp

lemma process_mbm_rates:
  assumes "comparable oldS newS" "RawMemoryBandwidth oldS = Some os" "RawMemoryBandwidth newS = Some ns"
  obtains m where "process_mbm oldS newS p = Inr (p\<lparr>MemoryBandwidth := Some m, SumMemoryBandwidth :=
      \<lparr>TotalMBps = foldl fl_add (Fin 0) (map (TotalMBps \<circ> old_rate os) ns),
       LocalMBps = foldl fl_add (Fin 0) (map (LocalMBps \<circ> old_rate os) ns)\<rparr>\<rparr>)"
    "\<forall>k. gm_get m k = map_option (\<lambda>new. old_rate os (k, new)) (gm_get ns k)"
proof -
  have "sockets_match os ns" using assms by (simp add: comparable_def)
  then obtain m where "mbm_loop os ns (Fin 0) (Fin 0) [] = Inr (foldl fl_add (Fin 0) (map (TotalMBps \<circ> old_rate os) ns),
      foldl fl_add (Fin 0) (map (LocalMBps \<circ> old_rate os) ns), m)"
    "\<forall>k. gm_get m k = (case gm_get ns k of Some new \<Rightarrow> Some (old_rate os (k, new)) | None \<Rightarrow> gm_get [] k)"
    by (rule mbm_loop_rates [of os ns "Fin 0" "Fin 0" "[]"])
  then show ?thesis using assms that [of m] by (auto simp: process_mbm_def split: option.split)
qed

lemma process_mbm_ok: "comparable oldS newS \<Longrightarrow> \<exists>q. process_mbm oldS newS p = Inr q"
proof (cases "\<exists>os ns. RawMemoryBandwidth oldS = Some os \<and> RawMemoryBandwidth newS = Some ns")
  case True
  assume "comparable oldS newS"
  with True show ?thesis by (metis process_mbm_rates)
qed (auto simp: process_mbm_def split: option.split)

lemma process_cpu_ok: "comparable oldS newS \<Longrightarrow> \<exists>q. process_cpu oldS newS p = Inr q \<and>
    MemoryBandwidth q = MemoryBandwidth p \<and> SumMemoryBandwidth q = SumMemoryBandwidth p"
  by (auto simp: process_cpu_def comparable_def readable_def split: option.splits)

text \<open>The published rates are the rates of the sockets, and their sums add them in the order of the map.\<close>

lemma processStats_rates:
  assumes "comparable oldS newS" "RawMemoryBandwidth oldS = Some os" "RawMemoryBandwidth newS = Some ns"
  obtains p m where "processStats oldS newS = Inr p" "MemoryBandwidth p = Some m"
    "\<forall>k. gm_get m k = map_option (\<lambda>new. old_rate os (k, new)) (gm_get ns k)"
    "SumMemoryBandwidth p = \<lparr>TotalMBps = foldl fl_add (Fin 0) (map (TotalMBps \<circ> old_rate os) ns),
       LocalMBps = foldl fl_add (Fin 0) (map (LocalMBps \<circ> old_rate os) ns)\<rparr>"
proof -
  let ?p = "process_cache newS (zero_processed\<lparr>socketNum := SocketNum newS\<rparr>)"
  let ?sums = "\<lparr>TotalMBps = foldl fl_add (Fin 0) (map (TotalMBps \<circ> old_rate os) ns),
       LocalMBps = foldl fl_add (Fin 0) (map (LocalMBps \<circ> old_rate os) ns)\<rparr>"
  obtain m where m: "process_mbm oldS newS ?p = Inr (?p\<lparr>MemoryBandwidth := Some m, SumMemoryBandwidth := ?sums\<rparr>)"
    "\<forall>k. gm_get m k = map_option (\<lambda>new. old_rate os (k, new)) (gm_get ns k)"
    by (rule process_mbm_rates [OF assms, of ?p])
  define q where "q = ?p\<lparr>MemoryBandwidth := Some m, SumMemoryBandwidth := ?sums\<rparr>"
  have q: "process_mbm oldS newS ?p = Inr q" "MemoryBandwidth q = Some m" "SumMemoryBandwidth q = ?sums"
    using m(1) by (simp_all add: q_def)
  from process_cpu_ok [OF assms(1), of q] obtain r where "process_cpu oldS newS q = Inr r"
    "MemoryBandwidth r = MemoryBandwidth q" "SumMemoryBandwidth r = SumMemoryBandwidth q" by blast
  with q m(2) show ?thesis using that [of "process_memory newS r" m] by (auto simp: processStats_def process_memory_def)
qed

text \<open>A counter of 64 bits that moved on by \<open>d\<close> bytes between two readings at \<open>t0\<close> and \<open>t1\<close> seconds; it may have
  wrapped around in between.\<close>

definition counter_moved :: "64 word \<Rightarrow> 64 word \<Rightarrow> string \<Rightarrow> string \<Rightarrow> nat \<Rightarrow> nat \<Rightarrow> nat \<Rightarrow> bool" where
  "counter_moved b0 b1 s0 s1 d t0 t1 =
     (b1 = b0 + of_nat d \<and> d < 2 ^ 64 \<and> s0 = time_format t0 \<and> s1 = time_format t1 \<and>
      t0 \<le> t1 \<and> t1 - t0 < 9 * 10 ^ 9 \<and> in_calendar t1)"

definition rate_close :: "f64 \<Rightarrow> nat \<Rightarrow> nat \<Rightarrow> bool" where
  "rate_close x d secs = (\<exists>r. x = Fin r \<and>
     \<bar>r - of_nat d / (10 ^ 6 * of_nat secs)\<bar> \<le> 4 * ulp * (of_nat d / (10 ^ 6 * of_nat secs)))"

lemma counter_moved_rate:
  assumes "counter_moved b0 b1 s0 s1 d t0 t1"
  shows "rate b0 b1 s0 s1 = fl_div (bytesToMB (of_nat d)) (Fin (of_int (int t1 - int t0)))" "unat (of_nat d :: 64 word) = d"
proof -
  have t: "in_calendar t0" "in_calendar t1" "\<bar>int t1 - int t0\<bar> < 9 * 10 ^ 9"
    using assms by (auto simp: counter_moved_def in_calendar_def)
  have "dur_seconds (projr (elapsed s0 s1)) = Fin (of_int (int t1 - int t0))"
    using elapsed_format [OF t] dur_seconds_whole [OF t(3)] assms unfolding counter_moved_def by (simp only: sum.sel)
  moreover have "b1 - b0 = of_nat d" using assms by (simp add: counter_moved_def)
  ultimately show "rate b0 b1 s0 s1 = fl_div (bytesToMB (of_nat d)) (Fin (of_int (int t1 - int t0)))"
    unfolding rate_def by (simp only:)
  show "unat (of_nat d :: 64 word) = d" using assms by (simp add: counter_moved_def unat_of_nat take_bit_nat_eq_self)
qed

lemma counter_moved_rate_close:
  assumes "counter_moved b0 b1 s0 s1 d t0 t1" "t0 < t1"
  shows "rate_close (rate b0 b1 s0 s1) d (t1 - t0)"
proof -
  have "0 < int t1 - int t0" "int t1 - int t0 < 9 * 10 ^ 9" using assms by (auto simp: counter_moved_def)
  then obtain r where "fl_div (bytesToMB (of_nat d)) (Fin (of_int (int t1 - int t0))) = Fin r"
    "\<bar>r - of_nat (unat (of_nat d :: 64 word)) / (10 ^ 6 * of_int (int t1 - int t0))\<bar>
      \<le> 4 * ulp * (of_nat (unat (of_nat d :: 64 word)) / (10 ^ 6 * of_int (int t1 - int t0)))"
    by (rule rate_accurate)
  moreover have "(of_int (int t1 - int t0) :: rat) = of_nat (t1 - t0)" using assms(2) by (simp add: of_nat_diff)
  ultimately show ?thesis using counter_moved_rate [OF assms(1)] unfolding rate_close_def by (simp only:) blast
qed

text \<open>C6: the published bandwidth of a socket. From two samples the exporter can compare, the rate it publishes for
  a socket is the number of bytes its counter moved on, in millions per second, up to four units in the last
  place of a \<open>float64\<close>; this holds across a wrap-around of the 64-bit counter, for the total and the local traffic.\<close>

theorem bandwidth_rate_accurate:
  assumes "comparable oldS newS" "RawMemoryBandwidth oldS = Some os" "RawMemoryBandwidth newS = Some ns"
    and "gm_get os nid = Some old" "gm_get ns nid = Some new"
    and "counter_moved (TotalBytes old) (TotalBytes new) (TotalBytesTimeStamp old) (TotalBytesTimeStamp new) d ta tb" "ta < tb"
    and "counter_moved (LocalBytes old) (LocalBytes new) (LocalBytesTimeStamp old) (LocalBytesTimeStamp new) e ua ub" "ua < ub"
  shows "\<exists>p m st. processStats oldS newS = Inr p \<and> MemoryBandwidth p = Some m \<and> gm_get m nid = Some st \<and>
    rate_close (TotalMBps st) d (tb - ta) \<and> rate_close (LocalMBps st) e (ub - ua)"
proof -
  obtain p m where p: "processStats oldS newS = Inr p" "MemoryBandwidth p = Some m"
    "\<forall>k. gm_get m k = map_option (\<lambda>new. old_rate os (k, new)) (gm_get ns k)"
    by (rule processStats_rates [OF assms(1-3)])
  then have "gm_get m nid = Some (socket_rate old new)" using assms(4,5) by (simp add: old_rate_def)
  moreover have "rate_close (TotalMBps (socket_rate old new)) d (tb - ta)"
    "rate_close (LocalMBps (socket_rate old new)) e (ub - ua)"
    using counter_moved_rate_close assms(6-9) by (simp_all add: socket_rate_def)
  ultimately show ?thesis using p by blast
qed

definition demo_socket :: "64 word \<Rightarrow> nat \<Rightarrow> RawMemoryBandwidthStats" where
  "demo_socket b t = \<lparr>TotalBytes = b, TotalBytesTimeStamp = time_format t, LocalBytes = b, LocalBytesTimeStamp = time_format t\<rparr>"

definition demo_sample :: "64 word \<Rightarrow> nat \<Rightarrow> RawStats" where
  "demo_sample b t = zero_raw\<lparr>SocketNum := 1, RawMemoryBandwidth := Some [(''00'', demo_socket b t)]\<rparr>"

lemma demo_sample_map: "RawMemoryBandwidth (demo_sample b t) = Some [(''00'', demo_socket b t)]"
  by (simp add: demo_sample_def)

lemma in_calendar_small: "t \<le> 365 * 86400 * 9999 \<Longrightarrow> in_calendar t"
  by (simp add: in_calendar_def days_before_year_def)

lemma demo_comparable:
  assumes "t0 \<le> t1" "t1 \<le> 1000"
  shows "comparable (demo_sample b0 t0) (demo_sample b1 t1)"
proof -
  have "elapsed (time_format t0) (time_format t1) = Inr ((int t1 - int t0) * 10 ^ 9)"
    using assms by (intro elapsed_format in_calendar_small) auto
  then show ?thesis
    by (simp add: comparable_def demo_sample_def zero_raw_def demo_socket_def sockets_match_def readable_def gm_simps gm_wf_Cons)
qed

theorem bandwidth_rate_accurate_witness:
  "\<exists>p m st. processStats (demo_sample (- 1000000) 7) (demo_sample 2000000 10) = Inr p \<and> MemoryBandwidth p = Some m \<and>
    gm_get m ''00'' = Some st \<and> rate_close (TotalMBps st) 3000000 3 \<and> rate_close (LocalMBps st) 3000000 3"
proof -
  have "counter_moved (- 1000000) 2000000 (time_format 7) (time_format 10) 3000000 7 10"
    by (simp add: counter_moved_def in_calendar_small)
  moreover have "comparable (demo_sample (- 1000000) 7) (demo_sample 2000000 10)" by (rule demo_comparable) simp_all
  ultimately show ?thesis
    using bandwidth_rate_accurate [OF _ demo_sample_map demo_sample_map, of "- 1000000" 7 2000000 10 "''00''" _ _ 3000000 7 10 3000000 7 10]
    by (simp add: gm_simps demo_socket_def)
qed

section \<open>Samples within one second\<close>

lemma bytesToMB_pos:
  fixes w :: "64 word"
  assumes "w \<noteq> 0"
  obtains b where "bytesToMB w = Fin b" "0 < b"
proof -
  have w: "unat w \<noteq> 0" using assms by (simp add: unat_eq_0)
  then obtain b where b: "bytesToMB w = Fin b"
    "\<bar>b - of_nat (unat w) / 10 ^ 6\<bar> \<le> (ulp + ulp + ulp * ulp) * (of_nat (unat w) / 10 ^ 6)"
    by (rule bytesToMB_accurate)
  have W: "0 < (of_nat (unat w) / 10 ^ 6 :: rat)" using u64_range [OF w] by (intro divide_pos_pos) auto
  have "(ulp + ulp + ulp * ulp) * (of_nat (unat w) / 10 ^ 6) \<le> 1/10 * (of_nat (unat w) / 10 ^ 6)"
    using W by (intro mult_right_mono) (auto simp: ulp_def)
  then have "0 < b" using b(2) W by linarith
  with b(1) that show ?thesis by blast
qed

lemma same_second_rate:
  assumes "counter_moved b0 b1 s0 s1 d t t"
  shows "rate b0 b1 s0 s1 = (if d = 0 then NaN else PInf)"
proof (cases "d = 0")
  case True
  then show ?thesis using counter_moved_rate [OF assms] by (simp add: bytesToMB_def fl_of_u64_def)
next
  case False
  then have "(of_nat d :: 64 word) \<noteq> 0" using counter_moved_rate(2) [OF assms] by auto
  then obtain b where "bytesToMB (of_nat d :: 64 word) = Fin b" "0 < b" by (rule bytesToMB_pos)
  then show ?thesis using counter_moved_rate(1) [OF assms] False by simp
qed

lemma fl_add_Fin: "fl_add x y = Fin r \<Longrightarrow> (\<exists>a. x = Fin a) \<and> (\<exists>b. y = Fin b)"
  by (cases x; cases y) auto

lemma foldl_fl_add_Fin: "foldl fl_add x ys = Fin r \<Longrightarrow> (\<exists>a. x = Fin a) \<and> (\<forall>y \<in> set ys. \<exists>b. y = Fin b)"
  by (induction ys arbitrary: x) (auto dest!: fl_add_Fin)

text \<open>Two samples within one second. Stamps have whole seconds, so a socket sampled twice within a second gets
  the rate \<open>+Inf\<close>, or \<open>NaN\<close> when there was no traffic, and the published sum over the sockets is not a number
  either.\<close>

theorem same_second_rate_not_finite:
  assumes "comparable oldS newS" "RawMemoryBandwidth oldS = Some os" "RawMemoryBandwidth newS = Some ns"
    and "gm_get os nid = Some old" "gm_get ns nid = Some new"
    and "counter_moved (TotalBytes old) (TotalBytes new) (TotalBytesTimeStamp old) (TotalBytesTimeStamp new) d t t"
  shows "\<exists>p m st. processStats oldS newS = Inr p \<and> MemoryBandwidth p = Some m \<and> gm_get m nid = Some st \<and>
    TotalMBps st = (if d = 0 then NaN else PInf) \<and> TotalMBps (SumMemoryBandwidth p) \<notin> range Fin"
proof -
  obtain p m where p: "processStats oldS newS = Inr p" "MemoryBandwidth p = Some m"
    "\<forall>k. gm_get m k = map_option (\<lambda>new. old_rate os (k, new)) (gm_get ns k)"
    "SumMemoryBandwidth p = \<lparr>TotalMBps = foldl fl_add (Fin 0) (map (TotalMBps \<circ> old_rate os) ns),
       LocalMBps = foldl fl_add (Fin 0) (map (LocalMBps \<circ> old_rate os) ns)\<rparr>"
    by (rule processStats_rates [OF assms(1-3)])
  have r: "old_rate os (nid, new) = socket_rate old new" using assms(4) by (simp add: old_rate_def)
  have t: "TotalMBps (socket_rate old new) = (if d = 0 then NaN else PInf)"
    using same_second_rate [OF assms(6)] by (simp add: socket_rate_def)
  have "(nid, new) \<in> set ns" using assms(5) by (rule gm_get_in_set)
  then have "TotalMBps (socket_rate old new) \<in> set (map (TotalMBps \<circ> old_rate os) ns)" using r by force
  then have "TotalMBps (SumMemoryBandwidth p) \<notin> range Fin" using t p(4) foldl_fl_add_Fin by (fastforce split: if_splits)
  with p(1,2,3) r t assms(5) show ?thesis by auto
qed

theorem same_second_rate_not_finite_witness:
  "\<exists>p m st. processStats (demo_sample 5 7) (demo_sample 9 7) = Inr p \<and> MemoryBandwidth p = Some m \<and> gm_get m ''00'' = Some st \<and>
    TotalMBps st = PInf \<and> TotalMBps (SumMemoryBandwidth p) \<notin> range Fin"
proof -
  have "counter_moved 5 9 (time_format 7) (time_format 7) 4 7 7" by (simp add: counter_moved_def in_calendar_small)
  moreover have "comparable (demo_sample 5 7) (demo_sample 9 7)" by (rule demo_comparable) simp_all
  ultimately show ?thesis
    using same_second_rate_not_finite [OF _ demo_sample_map demo_sample_map, of 5 7 9 7 "''00''" _ _ 4 7]
    by (simp add: gm_simps demo_socket_def)
qed

section \<open>The CPU figure\<close>

text \<open>A system call that only observes the world.\<close>

definition observes :: "('w, 'a) state \<Rightarrow> ('w \<Rightarrow> 'a) \<Rightarrow> bool" where
  "observes m f = (\<forall>w. run_state m w = (f w, w))"

lemma observes_run: "observes m f \<Longrightarrow> run_state m w = (f w, w)"
  by (simp add: observes_def)

lemma trim_space_number:
  assumes "\<forall>c \<in> set s. \<not> is_space c" "\<forall>c \<in> set t. is_space c"
  shows "trim_space (s @ t) = s"
proof (cases s)
  case Nil
  then show ?thesis using assms by (simp add: trim_space_def dropWhile_eq_Nil_conv [THEN iffD2])
next
  case (Cons c s')
  have "hd (rev s) \<in> set s" using Cons by (metis hd_in_set list.distinct(1) rev_is_Nil_conv set_rev)
  then have "dropWhile is_space (rev t @ rev s) = rev s"
    using assms by (subst dropWhile_append2) (auto simp: dropWhile_eq_self_iff)
  then show ?thesis using Cons assms by (simp add: trim_space_def)
qed

lemma digit_not_space: "d < 10 \<Longrightarrow> \<not> is_space (digit_char d)"
proof -
  assume "d < 10"
  then have "digit_val (digit_char d) \<noteq> None" by simp
  moreover have "is_space c \<Longrightarrow> digit_val c = None" for c by (auto simp: is_space_def digit_val_def)
  ultimately show ?thesis by metis
qed

lemma string_of_nat_no_space: "c \<in> set (string_of_nat n) \<Longrightarrow> \<not> is_space c"
  using string_of_nat_digits digit_not_space by blast

lemma trim_space_nat_line: "trim_space (string_of_nat n @ [CHR 0x0A]) = string_of_nat n"
  by (rule trim_space_number) (use string_of_nat_no_space in \<open>auto simp: is_space_def [of "CHR 0x0A"]\<close>)

lemma quotient_exact: "0 < s \<Longrightarrow> of_nat (k * s * 10 ^ 6) / (of_nat s * 10 ^ 6) = (of_nat k :: rat)" for s :: nat
  by simp

lemma fl_small_nat: "n < 2 ^ 53 \<Longrightarrow> fl_of_int (int n) = Fin (of_nat n)"
  using fl_small_int [of "int n"] by simp

lemma sint_of_nat_small: "n < 2 ^ 63 \<Longrightarrow> sint (of_nat n :: 64 word) = int n"
  by (simp add: signed_of_nat signed_take_bit_int_eq_self)

text \<open>A container that keeps \<open>k\<close> units of the CPU counter per microsecond busy, over a whole number of seconds.\<close>

lemma cpu_figure:
  assumes "in_calendar t0" "in_calendar t1" "t0 < t1" "t1 - t0 < 9 * 10 ^ 9"
    and "k * (t1 - t0) * 10 ^ 6 < 2 ^ 53"
    and "RawCPUUtilization oldS = Some \<lparr>CPU = c, CPUTimeStamp = time_format t0\<rparr>"
    and "RawCPUUtilization newS = Some \<lparr>CPU = c + of_nat (k * (t1 - t0) * 10 ^ 6), CPUTimeStamp = time_format t1\<rparr>"
  shows "\<exists>q. process_cpu oldS newS p = Inr q \<and> CPUUtilization q = Fin (of_nat k)"
proof -
  let ?s = "t1 - t0" let ?D = "k * ?s * 10 ^ 6"
  have s: "int t1 - int t0 = int ?s" "0 < ?s" using assms(3) by auto
  have el: "elapsed (time_format t0) (time_format t1) = Inr (int ?s * 10 ^ 9)"
    using elapsed_format [OF assms(1,2)] assms(4) unfolding s by simp
  have "sint (of_nat ?D :: 64 word) = int ?D"
    using assms(5) by (intro sint_of_nat_small) simp
  then have D: "fl_of_i64 (of_nat ?D) = Fin (of_nat ?D)"
    using fl_small_nat [OF assms(5)] unfolding fl_of_i64_def by (simp only:)
  have "k * 1 \<le> k * (?s * 10 ^ 6)" using s(2) by (intro mult_le_mono2) simp
  then have "k \<le> ?D" by (simp only: mult_1_right mult.assoc)
  then have "k < 2 ^ 53" using assms(5) by (rule le_less_trans)
  then have k: "fl (of_nat k) = Fin (of_nat k)" using fl_small_nat [of k] by (simp add: fl_of_int_def)
  have S: "fl_of_int (int ?s * 10 ^ 6) = Fin (of_nat ?s * 10 ^ 6)"
    using fl_small_int [of "int ?s * 10 ^ 6"] assms(4) by simp
  have "fl_div (Fin (of_nat ?D)) (Fin (of_nat ?s * 10 ^ 6)) = Fin (of_nat k)"
    using s(2) k quotient_exact [OF s(2), of k] by (simp del: of_nat_diff of_nat_mult)
  then have "fl_div (fl_of_i64 (of_nat ?D)) (fl_of_int (dur_microseconds (int ?s * 10 ^ 9))) = Fin (of_nat k)"
    unfolding dur_microseconds_whole D S .
  moreover have "process_cpu oldS newS p = Inr (p\<lparr>CPUUtilization :=
      fl_div (fl_of_i64 (of_nat ?D)) (fl_of_int (dur_microseconds (int ?s * 10 ^ 9)))\<rparr>)"
    using assms(6,7) el by (simp add: process_cpu_def del: of_nat_mult of_nat_diff)
  ultimately show ?thesis by simp
qed

definition cpuacct :: "string \<Rightarrow> string" where
  "cpuacct path = path_join [path, ''cpuacct.usage'']"

text \<open>A system with cgroups of version 1: \<open>cgroup.controllers\<close> is missing, and the file \<open>cpuacct.usage\<close> of the
  group holds the CPU time used, in nanoseconds.\<close>

definition cgroup_v1 :: "'w os \<Rightarrow> string \<Rightarrow> ('w \<Rightarrow> nat) \<Rightarrow> ('w \<Rightarrow> nat) \<Rightarrow> bool" where
  "cgroup_v1 S path nanos clock =
     ((\<exists>e. observes (os_stat S cgroupControllerPath) (\<lambda>_. NotExist e)) \<and>
      observes (os_stat S (cpuacct path)) (\<lambda>_. Exists False) \<and>
      observes (os_read_file S (cpuacct path)) (\<lambda>w. Inr (string_of_nat (nanos w) @ [CHR 0x0A])) \<and>
      observes (os_now S) clock)"

lemma read_cgroup_v1:
  assumes "cgroup_v1 S path nanos clock" "nanos w < 2 ^ 63"
  shows "run_state (getCPUUtilizationFrom S path) w = (Inr \<lparr>CPU = of_nat (nanos w), CPUTimeStamp = time_format (clock w)\<rparr>, w)"
proof -
  obtain e where o: "observes (os_stat S cgroupControllerPath) (\<lambda>_. NotExist e)"
    "observes (os_stat S (cpuacct path)) (\<lambda>_. Exists False)"
    "observes (os_read_file S (cpuacct path)) (\<lambda>w. Inr (string_of_nat (nanos w) @ [CHR 0x0A]))"
    "observes (os_now S) clock" using assms(1) by (auto simp: cgroup_v1_def)
  have "parse_int 64 (string_of_nat (nanos w)) = Some (int (nanos w))"
    using assms(2) by (intro parse_int_string_of_nat) simp
  then have "run_state (getCgroupV1CpuTime S path) w = (Inr (of_nat (nanos w)), w)"
    using o(2,3) [THEN observes_run, of w]
    by (simp add: getCgroupV1CpuTime_def cpuacct_def [symmetric] Let_def io_simps stat_io_def trim_space_nat_line parse_int64_def)
  then show ?thesis using o(1,4) [THEN observes_run, of w]
    by (simp add: getCPUUtilizationFrom_def getCgroupVersion_def io_simps)
qed

lemma processStats_cpu:
  assumes "comparable oldS newS" "\<And>p. \<exists>q. process_cpu oldS newS p = Inr q \<and> CPUUtilization q = x"
  shows "\<exists>p. processStats oldS newS = Inr p \<and> CPUUtilization p = x"
proof -
  obtain q where "process_mbm oldS newS (process_cache newS (zero_processed\<lparr>socketNum := SocketNum newS\<rparr>)) = Inr q"
    using process_mbm_ok [OF assms(1)] by blast
  with assms(2) [of q] show ?thesis by (auto simp: processStats_def process_memory_def)
qed

text \<open>The CPU figure under cgroups of version 1. \<open>cpuacct.usage\<close> counts nanoseconds, the figure is computed as if
  it were microseconds: a container that keeps \<open>n\<close> CPUs busy is published as using \<open>1000 * n\<close> CPUs.\<close>

theorem cgroup_v1_cpu_times_thousand:
  assumes "cgroup_v1 S path nanos clock" "clock wa < clock wb" "clock wb - clock wa < 9 * 10 ^ 9" "in_calendar (clock wb)"
    and "nanos wb = nanos wa + n * (clock wb - clock wa) * 10 ^ 9" "nanos wb < 2 ^ 53"
  shows "\<exists>ca cb p. run_state (getCPUUtilizationFrom S path) wa = (Inr ca, wa) \<and>
    run_state (getCPUUtilizationFrom S path) wb = (Inr cb, wb) \<and>
    processStats (zero_raw\<lparr>RawCPUUtilization := Some ca\<rparr>) (zero_raw\<lparr>RawCPUUtilization := Some cb\<rparr>) = Inr p \<and>
    CPUUtilization p = Fin (of_nat (1000 * n))"
proof -
  let ?ca = "\<lparr>CPU = of_nat (nanos wa), CPUTimeStamp = time_format (clock wa)\<rparr>"
  let ?cb = "\<lparr>CPU = of_nat (nanos wb), CPUTimeStamp = time_format (clock wb)\<rparr>"
  let ?old = "zero_raw\<lparr>RawCPUUtilization := Some ?ca\<rparr>" and ?new = "zero_raw\<lparr>RawCPUUtilization := Some ?cb\<rparr>"
  have cal: "in_calendar (clock wa)" using assms(2,4) by (simp add: in_calendar_def)
  have D: "n * (clock wb - clock wa) * 10 ^ 9 = 1000 * n * (clock wb - clock wa) * 10 ^ 6" by simp
  have cpu: "\<exists>q. process_cpu ?old ?new p = Inr q \<and> CPUUtilization q = Fin (of_nat (1000 * n))" for p
  proof (rule cpu_figure [OF cal assms(4,2,3)])
    show "1000 * n * (clock wb - clock wa) * 10 ^ 6 < 2 ^ 53" using assms(5,6) D by linarith
    show "RawCPUUtilization ?new = Some \<lparr>CPU = of_nat (nanos wa) + of_nat (1000 * n * (clock wb - clock wa) * 10 ^ 6),
        CPUTimeStamp = time_format (clock wb)\<rparr>" unfolding assms(5) D by simp
  qed simp
  have "comparable ?old ?new" using cpu [of zero_processed]
    by (auto simp: comparable_def zero_raw_def readable_def process_cpu_def split: sum.splits)
  from processStats_cpu [OF this cpu]
  have "\<exists>p. processStats ?old ?new = Inr p \<and> CPUUtilization p = Fin (of_nat (1000 * n))" .
  moreover have "nanos wb < 2 ^ 63" "nanos wa < 2 ^ 63" using assms(5,6) by simp_all
  then have "run_state (getCPUUtilizationFrom S path) wa = (Inr ?ca, wa)"
    "run_state (getCPUUtilizationFrom S path) wb = (Inr ?cb, wb)"
    using read_cgroup_v1 [OF assms(1)] by blast+
  ultimately show ?thesis by blast
qed

text \<open>A system whose world is a clock reading and the nanoseconds used so far.\<close>

definition clock_os :: "(nat \<times> nat) os" where
  "clock_os = \<lparr>
     os_stat = (\<lambda>p. State (\<lambda>w. (if p = cgroupControllerPath then NotExist ''none'' else Exists False, w))),
     os_read_file = (\<lambda>_. State (\<lambda>w. (Inr (string_of_nat (snd w) @ [CHR 0x0A]), w))),
     os_open = (\<lambda>_. State (\<lambda>w. (Inl ''none'', w))),
     os_read_dir = (\<lambda>_. State (\<lambda>w. (Inl ''none'', w))),
     os_glob = (\<lambda>_. State (\<lambda>w. (Inr [], w))),
     os_mkdir = (\<lambda>_. State (\<lambda>w. (None, w))),
     os_create = (\<lambda>_. State (\<lambda>w. (None, w))),
     os_write = (\<lambda>_ _. State (\<lambda>w. (None, w))),
     os_now = State (\<lambda>w. (fst w, w))\<rparr>"

theorem cgroup_v1_cpu_times_thousand_witness:
  "\<exists>ca cb p. run_state (getCPUUtilizationFrom clock_os ''/c'') (5, 0) = (Inr ca, (5, 0)) \<and>
    run_state (getCPUUtilizationFrom clock_os ''/c'') (8, 6000000000) = (Inr cb, (8, 6000000000)) \<and>
    processStats (zero_raw\<lparr>RawCPUUtilization := Some ca\<rparr>) (zero_raw\<lparr>RawCPUUtilization := Some cb\<rparr>) = Inr p \<and>
    CPUUtilization p = Fin 2000"
proof -
  have "cpuacct ''/c'' \<noteq> cgroupControllerPath" by code_simp
  then have "cgroup_v1 clock_os ''/c'' snd fst" by (simp add: cgroup_v1_def observes_def clock_os_def)
  from cgroup_v1_cpu_times_thousand [OF this, of "(5, 0)" "(8, 6000000000)" 2] show ?thesis
    by (simp add: in_calendar_small)
qed

section \<open>Threads into the monitoring group\<close>

definition task_line :: "32 word \<Rightarrow> string" where
  "task_line pid = string_of_int (sint pid) @ [CHR 0x0A]"

lemma string_of_int_chars: "c \<in> set (string_of_int i) \<Longrightarrow> c = CHR ''-'' \<or> (\<exists>d < 10. c = digit_char d)"
  by (auto simp: string_of_int_def dest: string_of_nat_digits split: if_splits)

lemma string_of_int_no_space: "c \<in> set (string_of_int i) \<Longrightarrow> \<not> is_space c"
  using string_of_int_chars digit_not_space by (fastforce simp: is_space_def [of "CHR ''-''"])

lemma string_of_int_not_Nil [simp]: "string_of_int i \<noteq> []"
  by (simp add: string_of_int_def)

lemma parse_int_string_of_int:
  assumes "- (2 ^ (w - 1)) \<le> i" "i < 2 ^ (w - 1)"
  shows "parse_int w (string_of_int i) = Some i"
proof (cases "i < 0")
  case True
  then show ?thesis using assms by (simp add: string_of_int_def parse_int_def Let_def)
next
  case False
  then show ?thesis using assms parse_int_string_of_nat [of "nat i" w] by (simp add: string_of_int_def)
qed

lemma parse_tasks_strings:
  "parse_tasks (map (\<lambda>p. string_of_int (sint p)) pids) vs = Inr (vs @ pids)"
proof (induction pids arbitrary: vs)
  case (Cons p pids)
  have "trim_space (string_of_int (sint p)) = string_of_int (sint p)"
    using trim_space_number [of "string_of_int (sint p)" "[]"] string_of_int_no_space by auto
  moreover have "parse_int 32 (string_of_int (sint p)) = Some (sint p)"
    using sint_ge [of p] sint_lt [of p] by (intro parse_int_string_of_int) simp_all
  ultimately show ?case using Cons by (simp add: Let_def)
qed simp

lemma lines_trimmed:
  assumes "pids \<noteq> []"
  shows "trim_newlines (concat (map task_line pids)) = str_join [CHR 0x0A] (map (\<lambda>p. string_of_int (sint p)) pids)"
proof -
  let ?nl = "\<lambda>c. c = CHR 0x0A" and ?j = "str_join [CHR 0x0A] (map (\<lambda>p. string_of_int (sint p)) pids)"
  have c: "concat (map task_line pids) = ?j @ [CHR 0x0A]"
    using assms
  proof (induction pids)
    case (Cons p ps)
    then show ?case by (cases ps) (auto simp: task_line_def)
  qed simp
  have nl: "CHR 0x0A \<notin> set (string_of_int i)" for i using string_of_int_no_space [of "CHR 0x0A" i] by (auto simp: is_space_def)
  have ends: "?j \<noteq> [] \<and> hd ?j \<noteq> CHR 0x0A \<and> last ?j \<noteq> CHR 0x0A"
    using assms
  proof (induction pids)
    case (Cons p ps)
    have "hd (string_of_int (sint p)) \<noteq> CHR 0x0A" "last (string_of_int (sint p)) \<noteq> CHR 0x0A"
      using nl by (metis hd_in_set last_in_set string_of_int_not_Nil)+
    with Cons show ?case by (cases ps) auto
  qed simp
  have "dropWhile ?nl (?j @ [CHR 0x0A]) = ?j @ [CHR 0x0A]" using ends by (simp add: dropWhile_eq_self_iff)
  moreover have "dropWhile ?nl (rev ?j) = rev ?j" using ends by (simp add: dropWhile_eq_self_iff hd_rev)
  ultimately show ?thesis unfolding trim_newlines_def Let_def c by simp
qed

lemma read_task_lines:
  assumes "run_state (os_read_file S path) w = (Inr (concat (map task_line pids)), w')" "path \<noteq> []"
  shows "run_state (readCPUTasks S path) w = (Inr pids, w')"
proof -
  have "parse_tasks (str_split (trim_newlines (concat (map task_line pids))) [CHR 0x0A]) [] = Inr pids"
  proof (cases "pids = []")
    case True
    then show ?thesis by (simp add: trim_newlines_def str_split_def trim_space_def)
  next
    case False
    have "\<forall>x \<in> set (map (\<lambda>p. string_of_int (sint p)) pids). CHR 0x0A \<notin> set x"
      using string_of_int_no_space by (fastforce simp: is_space_def)
    with False show ?thesis by (simp add: lines_trimmed str_split_join parse_tasks_strings)
  qed
  with assms show ?thesis by (simp add: readCPUTasks_def io_simps)
qed

text \<open>A journal of the writes to files.\<close>

datatype file_write = Created string | Wrote string bytes

definition journal :: "'w os \<Rightarrow> ('w \<Rightarrow> file_write list) \<Rightarrow> bool" where
  "journal S jrn =
     ((\<forall>f w. \<exists>w'. run_state (os_create S f) w = (None, w') \<and> jrn w' = jrn w @ [Created f]) \<and>
      (\<forall>f b w. \<exists>w'. run_state (os_write S f b) w = (None, w') \<and> jrn w' = jrn w @ [Wrote f b]))"

lemma write_loop_journal:
  assumes "journal S jrn"
  shows "\<exists>w'. run_state (write_loop S f pids) w = (None, w') \<and> jrn w' = jrn w @ map (Wrote f \<circ> task_line) pids"
proof (induction pids arbitrary: w)
  case (Cons p ps)
  obtain v where v: "run_state (os_write S f (task_line p)) w = (None, v)" "jrn v = jrn w @ [Wrote f (task_line p)]"
    using assms unfolding journal_def by blast
  with Cons [of v] show ?case by (auto simp: run_bind task_line_def)
qed simp

text \<open>C21: the threads of a container enter its monitoring group. When \<open>cgroup.threads\<close> lists the thread ids of a
  container, \<open>writePidsToTasks\<close> opens the group's \<open>tasks\<close> file anew and writes exactly these ids to it, each in a write
  of its own and in the same order.\<close>

theorem threads_enter_monitor_group:
  assumes "run_state (os_read_file S (cgroupPath @ ''/cgroup.threads'')) w = (Inr (concat (map task_line pids)), v)"
    and "journal S jrn"
  shows "\<exists>w'. run_state (writePidsToTasks S monPath cgroupPath) w = (Inr (), w') \<and>
    jrn w' = jrn v @ Created (monPath @ ''/tasks'') # map (Wrote (monPath @ ''/tasks'') \<circ> task_line) pids"
proof -
  let ?f = "monPath @ ''/tasks''"
  obtain u where u: "run_state (os_create S ?f) v = (None, u)" "jrn u = jrn v @ [Created ?f]"
    using assms(2) unfolding journal_def by blast
  obtain w' where "run_state (write_loop S ?f pids) u = (None, w')" "jrn w' = jrn u @ map (Wrote ?f \<circ> task_line) pids"
    using write_loop_journal [OF assms(2)] by blast
  with u read_task_lines [OF assms(1)] show ?thesis
    by (simp add: writePidsToTasks_def writeTaskIDsToFile_def run_bind)
qed

definition journal_os :: "bytes \<Rightarrow> file_write list os" where
  "journal_os content = \<lparr>
     os_stat = (\<lambda>_. State (\<lambda>w. (Exists True, w))),
     os_read_file = (\<lambda>_. State (\<lambda>w. (Inr content, w))),
     os_open = (\<lambda>_. State (\<lambda>w. (Inr content, w))),
     os_read_dir = (\<lambda>_. State (\<lambda>w. (Inr [], w))),
     os_glob = (\<lambda>_. State (\<lambda>w. (Inr [], w))),
     os_mkdir = (\<lambda>_. State (\<lambda>w. (None, w))),
     os_create = (\<lambda>f. State (\<lambda>w. (None, w @ [Created f]))),
     os_write = (\<lambda>f b. State (\<lambda>w. (None, w @ [Wrote f b]))),
     os_now = State (\<lambda>w. (0, w))\<rparr>"

theorem threads_enter_monitor_group_witness:
  "\<exists>w'. run_state (writePidsToTasks (journal_os (concat (map task_line [7, 12]))) ''/m'' ''/c'') [] = (Inr (), w') \<and>
    w' = [Created ''/m/tasks'', Wrote ''/m/tasks'' (task_line 7), Wrote ''/m/tasks'' (task_line 12)]"
  using threads_enter_monitor_group [of "journal_os (concat (map task_line [7, 12]))" "''/c''" "[]" "[7, 12]" "[]" id "''/m''"]
  by (simp add: journal_os_def journal_def)

end
