(* ===== verification/Mbx_Collectors.thy ===== *)
theory Mbx_Collectors
  imports Mbx_Stats
begin

text \<open>
  The three collectors of the memory bandwidth exporter: RDT classes (\<open>collector/class_collector.go\<close>), the node
  (\<open>node_collector.go\<close>) and containers (\<open>container_collector.go\<close>). Each keeps a cache of samples that its goroutines
  refresh, and publishes it when \<open>Update\<close> is called by a scrape. One call of a function stands for one step: the
  goroutines share the caches without a lock, and their interleaving is that of whole calls.

  \<open>record_sample\<close> is the abstract cell behind all three caches, the locale \<open>sampling\<close> its contract.
\<close>

section \<open>Metrics\<close>

text \<open>A description (\<open>prometheus.NewDesc\<close>, without its help text): the full name and the names of the labels.\<close>

record desc =
  d_fqName :: string
  d_variableLabels :: "string list"

definition NewDesc :: "string \<Rightarrow> string list \<Rightarrow> desc" where
  "NewDesc n ls = \<lparr>d_fqName = n, d_variableLabels = ls\<rparr>"

text \<open>A gauge sent to Prometheus: its description, its value and the values of its labels. \<open>MustNewConstMetric\<close> panics
  unless there is one value for each label of the description.\<close>

record metric =
  m_desc :: desc
  m_value :: f64
  m_labels :: "string list"

definition gauge :: "desc \<Rightarrow> f64 \<Rightarrow> string list \<Rightarrow> metric" where
  "gauge d v ls = \<lparr>m_desc = d, m_value = v, m_labels = ls\<rparr>"

text \<open>\<open>prometheus.BuildFQName\<close> with the namespace \<open>rdt\<close>.\<close>

definition fq :: "string \<Rightarrow> string \<Rightarrow> string" where
  "fq subsystem name = str_join ''_'' [''rdt'', subsystem, name]"

definition classCollectorSubsystem :: string where "classCollectorSubsystem = ''rdtClass''"
definition nodeCollectorSubsystem :: string where "nodeCollectorSubsystem = ''node''"
definition socketCollectorSubsystem :: string where "socketCollectorSubsystem = ''socket''"
definition containerCollectorSubsystem :: string where "containerCollectorSubsystem = ''container''"

section \<open>Descriptions of the gauges\<close>

definition sumTotalMemoryBandwidthDesc :: desc where
  "sumTotalMemoryBandwidthDesc = NewDesc (fq containerCollectorSubsystem ''sum_total_memory_bandwidth'') [''containerId'', ''containerName'', ''podName'', ''nameSpace'']"

definition sumLocalMemoryBandwidthDesc :: desc where
  "sumLocalMemoryBandwidthDesc = NewDesc (fq containerCollectorSubsystem ''sum_local_memory_bandwidth'') [''containerId'', ''containerName'', ''podName'', ''nameSpace'']"

definition totalMemoryBandwidthDesc :: desc where
  "totalMemoryBandwidthDesc = NewDesc (fq containerCollectorSubsystem ''total_memory_bandwidth'') [''socketId'', ''containerId'', ''containerName'', ''podName'', ''nameSpace'']"

definition localMemoryBandwidthDesc :: desc where
  "localMemoryBandwidthDesc = NewDesc (fq containerCollectorSubsystem ''local_memory_bandwidth'') [''socketId'', ''containerId'', ''containerName'', ''podName'', ''nameSpace'']"

definition sumLLCacheDesc :: desc where
  "sumLLCacheDesc = NewDesc (fq containerCollectorSubsystem ''sum_llc_occupancy'') [''containerId'', ''containerName'', ''podName'', ''nameSpace'']"

definition llcacheDesc :: desc where
  "llcacheDesc = NewDesc (fq containerCollectorSubsystem ''llc_occupancy'') [''socketId'', ''containerId'', ''containerName'', ''podName'', ''nameSpace'']"

definition cpuUtilizationDesc :: desc where
  "cpuUtilizationDesc = NewDesc (fq containerCollectorSubsystem ''cpu_utilization'') [''containerId'', ''containerName'', ''podName'', ''nameSpace'']"

definition memoryDesc :: desc where
  "memoryDesc = NewDesc (fq containerCollectorSubsystem ''memory'') [''containerId'', ''containerName'', ''podName'', ''nameSpace'']"

definition nodeTotalMemoryBandwidthDesc :: desc where
  "nodeTotalMemoryBandwidthDesc = NewDesc (fq nodeCollectorSubsystem ''total_memory_bandwidth'') [''nodeName'']"

definition nodeLocalMemoryBandwidthDesc :: desc where
  "nodeLocalMemoryBandwidthDesc = NewDesc (fq nodeCollectorSubsystem ''local_memory_bandwidth'') [''nodeName'']"

definition socketTotalMemoryBandwidthDesc :: desc where
  "socketTotalMemoryBandwidthDesc = NewDesc (fq socketCollectorSubsystem ''total_memory_bandwidth'') [''socketId'', ''nodeName'']"

definition socketLocalMemoryBandwidthDesc :: desc where
  "socketLocalMemoryBandwidthDesc = NewDesc (fq socketCollectorSubsystem ''local_memory_bandwidth'') [''socketId'', ''nodeName'']"

definition nodeLLCacheDesc :: desc where
  "nodeLLCacheDesc = NewDesc (fq nodeCollectorSubsystem ''llc_occupancy'') [''nodeName'']"

definition socketLLCacheDesc :: desc where
  "socketLLCacheDesc = NewDesc (fq socketCollectorSubsystem ''llc_occupancy'') [''socketId'', ''nodeName'']"

definition classTotalMemoryBandwidthDesc :: desc where
  "classTotalMemoryBandwidthDesc = NewDesc (fq classCollectorSubsystem ''total_memory_bandwidth'') [''className'', ''nodeName'']"

definition classLocalMemoryBandwidthDesc :: desc where
  "classLocalMemoryBandwidthDesc = NewDesc (fq classCollectorSubsystem ''local_memory_bandwidth'') [''className'', ''nodeName'']"

definition classLLCacheDesc :: desc where
  "classLLCacheDesc = NewDesc (fq classCollectorSubsystem ''llc_occupancy'') [''className'', ''nodeName'']"

definition socketClassTotalMemoryBandwidthDesc :: desc where
  "socketClassTotalMemoryBandwidthDesc = NewDesc (fq classCollectorSubsystem ''socket_total_memory_bandwidth'') [''socketId'', ''className'', ''nodeName'']"

definition socketClassLocalMemoryBandwidthDesc :: desc where
  "socketClassLocalMemoryBandwidthDesc = NewDesc (fq classCollectorSubsystem ''socket_local_memory_bandwidth'') [''socketId'', ''className'', ''nodeName'']"

definition socketClassLLCacheDesc :: desc where
  "socketClassLLCacheDesc = NewDesc (fq classCollectorSubsystem ''socket_llc_occupancy'') [''socketId'', ''className'', ''nodeName'']"

definition scrapeSuccessDesc :: desc where
  "scrapeSuccessDesc = NewDesc (fq ''scrape'' ''collector_success'') [''collector'']"

lemmas desc_defs =
  sumTotalMemoryBandwidthDesc_def
  sumLocalMemoryBandwidthDesc_def
  totalMemoryBandwidthDesc_def
  localMemoryBandwidthDesc_def
  sumLLCacheDesc_def
  llcacheDesc_def
  cpuUtilizationDesc_def
  memoryDesc_def
  nodeTotalMemoryBandwidthDesc_def
  nodeLocalMemoryBandwidthDesc_def
  socketTotalMemoryBandwidthDesc_def
  socketLocalMemoryBandwidthDesc_def
  nodeLLCacheDesc_def
  socketLLCacheDesc_def
  classTotalMemoryBandwidthDesc_def
  classLocalMemoryBandwidthDesc_def
  classLLCacheDesc_def
  socketClassTotalMemoryBandwidthDesc_def
  socketClassLocalMemoryBandwidthDesc_def
  socketClassLLCacheDesc_def
  scrapeSuccessDesc_def

section \<open>Flags\<close>

text \<open>The metrics a collector is created with.\<close>

definition metrics_of_flag :: "string list \<Rightarrow> string \<Rightarrow> metrics" where
  "metrics_of_flag every flag =
     (if flag = allMetrics then every
      else if flag \<noteq> noMetrics then remdups (str_split flag '','') else [])"

section \<open>Sampling\<close>

definition sample_rdt :: "'w os \<Rightarrow> metrics \<Rightarrow> string \<Rightarrow> ('w, RawStats) io" where
  "sample_rdt S ms path =
     (if isNeedCollectMbLLc ms then
        try_io (getIntelRDTStatsFrom S path) (\<lambda>(n, mbm, cmt).
          ret_io (zero_raw\<lparr>SocketNum := n, RawMemoryBandwidth := Some mbm, RawCache := Some cmt\<rparr>))
      else ret_io zero_raw)"

text \<open>The first sample of an entry is stored with empty results, a later one with the comparison to the one before.\<close>

definition record_sample :: "stats option \<Rightarrow> RawStats \<Rightarrow> fault + stats" where
  "record_sample entry newStats = (case entry of
     None \<Rightarrow> Inr \<lparr>oldStats = newStats, processedStats = zero_processed\<rparr>
   | Some s \<Rightarrow> map_sum Err (\<lambda>p. \<lparr>oldStats = newStats, processedStats = p\<rparr>) (processStats (oldStats s) newStats))"

text \<open>What the caches promise: an update takes one sample, fails with its error or with that of the comparison and
  then changes nothing, and otherwise stores the cell's next content.\<close>

locale sampling =
  fixes entry :: "'c \<Rightarrow> stats option"
    and sample :: "'c \<Rightarrow> ('w, RawStats) io"
    and update :: "'c \<Rightarrow> ('w, fault option \<times> 'c) state"
  assumes sample_fails: "run_state (sample c) w = (Inl e, w') \<Longrightarrow> run_state (update c) w = ((Some e, c), w')"
    and sample_rejected: "run_state (sample c) w = (Inr r, w') \<Longrightarrow> record_sample (entry c) r = Inl e \<Longrightarrow>
      run_state (update c) w = ((Some e, c), w')"
    and sample_stored: "run_state (sample c) w = (Inr r, w') \<Longrightarrow> record_sample (entry c) r = Inr s \<Longrightarrow>
      \<exists>c'. run_state (update c) w = ((None, c'), w') \<and> entry c' = Some s"
begin

lemma update_cases:
  obtains (failed) e w' where "run_state (update c) w = ((Some e, c), w')"
  | (stored) r s c' w' where "run_state (sample c) w = (Inr r, w')" "record_sample (entry c) r = Inr s"
      "run_state (update c) w = ((None, c'), w')" "entry c' = Some s"
  using sample_fails [of c w] sample_rejected [of c w] sample_stored [of c w]
  by (cases "run_state (sample c) w"; cases "fst (run_state (sample c) w)";
      cases "record_sample (entry c) (projr (fst (run_state (sample c) w)))") fastforce+

lemma update_error: "run_state (update c) w = ((Some e, c'), w') \<Longrightarrow> c' = c"
  by (rule update_cases [of c w]) auto

lemma update_success:
  assumes "run_state (update c) w = ((None, c'), w')"
  obtains r s where "run_state (sample c) w = (Inr r, w')" "record_sample (entry c) r = Inr s" "entry c' = Some s"
  using assms by (auto intro: update_cases [of c w])

lemma stored_sample: "record_sample en r = Inr s \<Longrightarrow> oldStats s = r"
  by (cases en; cases "processStats (oldStats (the en)) r") (auto simp: record_sample_def)

text \<open>After two updates the entry publishes the comparison of their two samples; between them the entry is left
  alone.\<close>

lemma two_updates:
  assumes "run_state (update c) w = ((None, c'), w')" "entry d = entry c'" "run_state (update d) v = ((None, d'), v')"
  shows "\<exists>r r' p. run_state (sample c) w = (Inr r, w') \<and> run_state (sample d) v = (Inr r', v') \<and>
    processStats r r' = Inr p \<and> entry d' = Some \<lparr>oldStats = r', processedStats = p\<rparr>"
proof -
  obtain r s where 1: "run_state (sample c) w = (Inr r, w')" "record_sample (entry c) r = Inr s" "entry c' = Some s"
    using assms(1) by (rule update_success)
  obtain r' s' where 2: "run_state (sample d) v = (Inr r', v')" "record_sample (Some s) r' = Inr s'" "entry d' = Some s'"
    using update_success [OF assms(3)] 1(3) assms(2) by metis
  have "oldStats s = r" using 1(2) by (rule stored_sample)
  with 2 1(1) show ?thesis by (cases "processStats r r'") (auto simp: record_sample_def)
qed

end

section \<open>The class collector\<close>

record classCollector =
  class_statsCache :: "(string, stats option) gomap"
  class_nodeName :: string
  class_metrics :: metrics

definition NewClassCollector :: "string \<Rightarrow> string \<Rightarrow> classCollector" where
  "NewClassCollector nodeName flag =
     \<lparr>class_statsCache = [], class_nodeName = nodeName, class_metrics = metrics_of_flag allClassMetrics flag\<rparr>"

definition excludeDirs :: "string list" where
  "excludeDirs = [''info'', ''mon_data'', ''mon_groups'']"

fun classes_loop :: "(string \<times> bool) list \<Rightarrow> (string, stats option) gomap \<Rightarrow> (string, stats option) gomap" where
  "classes_loop [] cache = cache"
| "classes_loop ((dirName, isDir) # files) cache =
     classes_loop files (if isDir \<and> dirName \<notin> set excludeDirs \<and> \<not> gm_has cache dirName
                         then gm_set dirName None cache else cache)"

definition updateClasses :: "'w os \<Rightarrow> classCollector \<Rightarrow> ('w, fault option \<times> classCollector) state" where
  "updateClasses S c = do {
     r \<leftarrow> os_read_dir S rootResctrlPath;
     State_Monad.return (case r of
       Inl e \<Rightarrow> (Some (Err (OsError e)), c)
     | Inr files \<Rightarrow> (None, c\<lparr>class_statsCache := classes_loop files (class_statsCache c)\<rparr>)) }"

fun class_loop :: "'w os \<Rightarrow> string list \<Rightarrow> classCollector \<Rightarrow> ('w, fault option \<times> classCollector) state" where
  "class_loop S [] c = State_Monad.return (None, c)"
| "class_loop S (class # cs) c = do {
     r \<leftarrow> sample_rdt S (class_metrics c) (path_join [rootResctrlPath, class]);
     case r of
       Inl e \<Rightarrow> State_Monad.return (Some e, c)
     | Inr newStats \<Rightarrow>
         (case gm_get (class_statsCache c) class of
           Some (Some s) \<Rightarrow>
             (case processStats (oldStats s) newStats of
               Inl e \<Rightarrow> State_Monad.return (Some (Err e), c)
             | Inr pStats \<Rightarrow> class_loop S cs (c\<lparr>class_statsCache :=
                 gm_set class (Some \<lparr>oldStats = newStats, processedStats = pStats\<rparr>) (class_statsCache c)\<rparr>))
         | _ \<Rightarrow> class_loop S cs (c\<lparr>class_statsCache :=
             gm_set class (Some \<lparr>oldStats = newStats, processedStats = zero_processed\<rparr>) (class_statsCache c)\<rparr>)) }"

definition class_updateStats :: "'w os \<Rightarrow> classCollector \<Rightarrow> ('w, fault option \<times> classCollector) state" where
  "class_updateStats S c = class_loop S (gm_keys (class_statsCache c)) c"

text \<open>The gauges of one class, in the order they are sent.\<close>

definition class_gauges :: "string \<Rightarrow> string \<Rightarrow> ProcessedStats \<Rightarrow> metric list" where
  "class_gauges node cid p =
     [gauge classTotalMemoryBandwidthDesc (TotalMBps (SumMemoryBandwidth p)) [cid, node],
      gauge classLocalMemoryBandwidthDesc (LocalMBps (SumMemoryBandwidth p)) [cid, node],
      gauge classLLCacheDesc (LLCOccupancy (SumCache p)) [cid, node]] @
     concat (map (\<lambda>(sid, s).
       [gauge socketClassTotalMemoryBandwidthDesc (TotalMBps s) [sid, cid, node],
        gauge socketClassLocalMemoryBandwidthDesc (LocalMBps s) [sid, cid, node]])
       (case MemoryBandwidth p of None \<Rightarrow> [] | Some m \<Rightarrow> m)) @
     map (\<lambda>(sid, s). gauge socketClassLLCacheDesc (LLCOccupancy s) [sid, cid, node])
       (case Cache p of None \<Rightarrow> [] | Some m \<Rightarrow> m)"

text \<open>A class without a sample is a nil pointer: reading its results panics.\<close>

fun class_emit :: "string \<Rightarrow> (string \<times> stats option) list \<Rightarrow> metric list \<times> fault option" where
  "class_emit node [] = ([], None)"
| "class_emit node ((cid, None) # es) = ([], Some Crash)"
| "class_emit node ((cid, Some s) # es) =
     (case class_emit node es of (ms, r) \<Rightarrow> (class_gauges node cid (processedStats s) @ ms, r))"

definition class_Update :: "classCollector \<Rightarrow> metric list \<times> fault option" where
  "class_Update c =
     (if class_statsCache c = [] then ([], None)
      else if \<not> isNeedCollectMbLLc (class_metrics c) then ([], None)
      else class_emit (class_nodeName c) (class_statsCache c))"

section \<open>The node collector\<close>

record nodeCollctor =
  node_statsCache :: "stats option"
  node_monGroupPath :: string
  node_nodeName :: string
  node_metrics :: metrics

definition NewNodeCollector :: "string \<Rightarrow> string \<Rightarrow> nodeCollctor" where
  "NewNodeCollector nodeName flag =
     \<lparr>node_statsCache = None, node_monGroupPath = rootResctrlPath, node_nodeName = nodeName,
      node_metrics = metrics_of_flag allNodeMetrics flag\<rparr>"

definition node_updateStats :: "'w os \<Rightarrow> nodeCollctor \<Rightarrow> ('w, fault option \<times> nodeCollctor) state" where
  "node_updateStats S c = do {
     r \<leftarrow> sample_rdt S (node_metrics c) (node_monGroupPath c);
     State_Monad.return (case r of
       Inl e \<Rightarrow> (Some e, c)
     | Inr newStats \<Rightarrow>
         (case node_statsCache c of
           Some s \<Rightarrow>
             (case processStats (oldStats s) newStats of
               Inl e \<Rightarrow> (Some (Err e), c)
             | Inr pStats \<Rightarrow> (None, c\<lparr>node_statsCache := Some \<lparr>oldStats = newStats, processedStats = pStats\<rparr>\<rparr>))
         | None \<Rightarrow> (None, c\<lparr>node_statsCache := Some \<lparr>oldStats = newStats, processedStats = zero_processed\<rparr>\<rparr>))) }"

definition node_Update :: "nodeCollctor \<Rightarrow> metric list \<times> fault option" where
  "node_Update c = (case node_statsCache c of
     None \<Rightarrow> ([], None)
   | Some s \<Rightarrow>
       if \<not> isNeedCollectMbLLc (node_metrics c) then ([], None)
       else let p = processedStats s; node = node_nodeName c in
         ([gauge nodeTotalMemoryBandwidthDesc (TotalMBps (SumMemoryBandwidth p)) [node],
           gauge nodeLocalMemoryBandwidthDesc (LocalMBps (SumMemoryBandwidth p)) [node],
           gauge nodeLLCacheDesc (LLCOccupancy (SumCache p)) [node]] @
          map (\<lambda>(socket, s). gauge socketLLCacheDesc (LLCOccupancy s) [socket, node])
            (case Cache p of None \<Rightarrow> [] | Some m \<Rightarrow> m) @
          concat (map (\<lambda>(socket, s).
            [gauge socketTotalMemoryBandwidthDesc (TotalMBps s) [socket, node],
             gauge socketLocalMemoryBandwidthDesc (LocalMBps s) [socket, node]])
            (case MemoryBandwidth p of None \<Rightarrow> [] | Some m \<Rightarrow> m)), None))"

section \<open>The container collector\<close>

record ContainerInfo =
  Operation :: int
  ContainerName :: string
  ContainerId :: string
  PodName :: string
  NameSpace :: string
  CgroupPath :: string
  MonGroupPath :: string

definition zero_info :: ContainerInfo where
  "zero_info = \<lparr>Operation = 0, ContainerName = [], ContainerId = [], PodName = [], NameSpace = [], CgroupPath = [],
     MonGroupPath = []\<rparr>"

record containerCollector =
  con_statsCache :: "(string, stats) gomap"
  containerInfos :: "(string, ContainerInfo) gomap"
  namespaceWhiteList :: "string list"
  monTimes :: int
  con_metrics :: metrics

definition NewContainerCollector :: "string \<Rightarrow> int \<Rightarrow> string \<Rightarrow> containerCollector" where
  "NewContainerCollector whiteList scans flag =
     \<lparr>con_statsCache = [], containerInfos = [],
      namespaceWhiteList = (if whiteList \<noteq> [] then str_split whiteList '','' else []),
      monTimes = scans, con_metrics = metrics_of_flag allContainerMetrics flag\<rparr>"

text \<open>\<open>c.containerInfos[containerId]\<close>: the zero value for an unknown container.\<close>

definition info_of :: "containerCollector \<Rightarrow> string \<Rightarrow> ContainerInfo" where
  "info_of c cid = (case gm_get (containerInfos c) cid of None \<Rightarrow> zero_info | Some i \<Rightarrow> i)"

definition sample_container :: "'w os \<Rightarrow> containerCollector \<Rightarrow> string \<Rightarrow> ('w, RawStats) io" where
  "sample_container S c cid =
     try_io (sample_rdt S (con_metrics c) (MonGroupPath (info_of c cid))) (\<lambda>s1.
     try_io (if isNeedCollectCpu (con_metrics c)
             then try_io (getCPUUtilizationFrom S (CgroupPath (info_of c cid)))
                    (\<lambda>cpu. ret_io (s1\<lparr>RawCPUUtilization := Some cpu\<rparr>))
             else ret_io s1) (\<lambda>s2.
     if isNeedCollectMemory (con_metrics c)
     then try_io (getMemorySizeFrom S (CgroupPath (info_of c cid))) (\<lambda>m. ret_io (s2\<lparr>RawMemory := m\<rparr>))
     else ret_io s2))"

definition con_updateStats :: "'w os \<Rightarrow> string \<Rightarrow> containerCollector \<Rightarrow> ('w, fault option \<times> containerCollector) state" where
  "con_updateStats S cid c = do {
     r \<leftarrow> sample_container S c cid;
     State_Monad.return (case r of
       Inl e \<Rightarrow> (Some e, c)
     | Inr newStats \<Rightarrow>
         (case gm_get (con_statsCache c) cid of
           Some s \<Rightarrow>
             (case processStats (oldStats s) newStats of
               Inl e \<Rightarrow> (Some (Err e), c)
             | Inr pStats \<Rightarrow> (None, c\<lparr>con_statsCache :=
                 gm_set cid \<lparr>oldStats = newStats, processedStats = pStats\<rparr> (con_statsCache c)\<rparr>))
         | None \<Rightarrow> (None, c\<lparr>con_statsCache :=
             gm_set cid \<lparr>oldStats = newStats, processedStats = zero_processed\<rparr> (con_statsCache c)\<rparr>))) }"

text \<open>A goroutine that watches a container: the sampling loop \<open>housekeeping\<close>, or the thread scan \<open>updatePids\<close> with
  the rounds it has left.\<close>

datatype worker = Housekeeper string | PidScanner string nat

definition forget :: "string \<Rightarrow> containerCollector \<Rightarrow> containerCollector" where
  "forget cid c = c\<lparr>con_statsCache := gm_del cid (con_statsCache c), containerInfos := gm_del cid (containerInfos c)\<rparr>"

fun process_loop :: "'w os \<Rightarrow> (string \<times> ContainerInfo) list \<Rightarrow> containerCollector \<Rightarrow> worker list \<Rightarrow>
    ('w, fault option \<times> containerCollector \<times> worker list) state" where
  "process_loop S [] c ws = State_Monad.return (None, c, ws)"
| "process_loop S ((cid, i) # es) c ws =
     (if namespaceWhiteList c \<noteq> [] \<and> stringInSlice (NameSpace i) (namespaceWhiteList c) then process_loop S es c ws
      else
        let c1 = (if Operation i = 0 then forget cid c else c);
            adds = (Operation i = 1 \<or> Operation i = 2);
            c2 = (if adds then c1\<lparr>containerInfos := gm_set cid i (containerInfos c1)\<rparr> else c1);
            ws2 = (if adds then ws @ [Housekeeper cid] else ws) in
        if Operation i = 2 \<and> isNeedCollectMbLLc (con_metrics c) then do {
          r \<leftarrow> makeMonitorGroup S (MonGroupPath (info_of c2 cid));
          case r of
            Inl (Err e) \<Rightarrow> State_Monad.return (Some (Err (MonitorGroupFailed e)), c2, ws2)
          | Inl Crash \<Rightarrow> State_Monad.return (Some Crash, c2, ws2)
          | Inr _ \<Rightarrow> process_loop S es c2 (ws2 @ [PidScanner cid (nat (monTimes c))]) }
        else process_loop S es c2 ws2)"

definition processContainerData :: "'w os \<Rightarrow> (string, ContainerInfo) gomap \<Rightarrow> containerCollector \<Rightarrow>
    ('w, fault option \<times> containerCollector \<times> worker list) state" where
  "processContainerData S data c = process_loop S data c []"

text \<open>What a goroutine does when its timer fires: it goes on as another worker, ends, or brings the process down.\<close>

datatype tick = Again worker | Ended | Crashed

definition housekeeping :: "'w os \<Rightarrow> string \<Rightarrow> containerCollector \<Rightarrow> ('w, tick \<times> containerCollector) state" where
  "housekeeping S cid c = do {
     r \<leftarrow> os_stat S (CgroupPath (info_of c cid));
     case r of
       NotExist _ \<Rightarrow> State_Monad.return (Ended, forget cid c)
     | StatFailed _ \<Rightarrow> State_Monad.return (Ended, c)
     | Exists _ \<Rightarrow> do {
         (e, c') \<leftarrow> con_updateStats S cid c;
         State_Monad.return (case e of
           None \<Rightarrow> (Again (Housekeeper cid), c')
         | Some (Err _) \<Rightarrow> (Ended, c')
         | Some Crash \<Rightarrow> (Crashed, c')) } }"

definition updatePids :: "'w os \<Rightarrow> string \<Rightarrow> nat \<Rightarrow> containerCollector \<Rightarrow> ('w, tick \<times> containerCollector) state" where
  "updatePids S cid rounds c =
     (if rounds = 0 \<or> \<not> gm_has (containerInfos c) cid then State_Monad.return (Ended, c)
      else do {
        r \<leftarrow> writePidsToTasks S (MonGroupPath (info_of c cid)) (CgroupPath (info_of c cid));
        State_Monad.return (case r of
          Inl Crash \<Rightarrow> (Crashed, c) | _ \<Rightarrow> (Again (PidScanner cid (rounds - 1)), c)) })"

definition labels_of :: "containerCollector \<Rightarrow> string \<Rightarrow> string list" where
  "labels_of c cid = [cid, ContainerName (info_of c cid), PodName (info_of c cid), NameSpace (info_of c cid)]"

definition con_gauges :: "containerCollector \<Rightarrow> string \<Rightarrow> ProcessedStats \<Rightarrow> metric list" where
  "con_gauges c cid p = (let ls = labels_of c cid in
     (case MemoryBandwidth p of
       Some m \<Rightarrow> if isNeedCollectMbLLc (con_metrics c) then
         [gauge sumTotalMemoryBandwidthDesc (TotalMBps (SumMemoryBandwidth p)) ls,
          gauge sumLocalMemoryBandwidthDesc (LocalMBps (SumMemoryBandwidth p)) ls] @
         concat (map (\<lambda>(sid, s).
           [gauge totalMemoryBandwidthDesc (TotalMBps s) (sid # ls),
            gauge localMemoryBandwidthDesc (LocalMBps s) (sid # ls)]) m) else []
     | None \<Rightarrow> []) @
     (case Cache p of
       Some m \<Rightarrow> if isNeedCollectMbLLc (con_metrics c) then
         gauge sumLLCacheDesc (LLCOccupancy (SumCache p)) ls #
         map (\<lambda>(sid, s). gauge llcacheDesc (LLCOccupancy s) (sid # ls)) m else []
     | None \<Rightarrow> []) @
     (if isNeedCollectCpu (con_metrics c) then [gauge cpuUtilizationDesc (CPUUtilization p) ls] else []) @
     (if isNeedCollectMemory (con_metrics c) then [gauge memoryDesc (Memory p) ls] else []))"

definition con_Update :: "containerCollector \<Rightarrow> metric list \<times> fault option" where
  "con_Update c = (concat (map (\<lambda>(cid, s). con_gauges c cid (processedStats s)) (con_statsCache c)), None)"

end
