(* ===== verification/Mbx_Collect_Correct.thy ===== *)
theory Mbx_Collect_Correct
  imports Mbx_Collectors Mbx_Rates
begin

text \<open>
  Properties of the three collectors: each refines the abstract cell \<open>record_sample\<close> (interpretations of
  \<open>sampling\<close>), what a scrape publishes and when it panics, and what a removed RDT class does to the sampling of
  the others.
\<close>

section \<open>The caches as cells\<close>

definition class_entry :: "string \<Rightarrow> classCollector \<Rightarrow> stats option" where
  "class_entry class c = (case gm_get (class_statsCache c) class of Some (Some s) \<Rightarrow> Some s | _ \<Rightarrow> None)"

lemmas sample_splits = sum.splits option.splits prod.splits

interpretation node_cell: sampling node_statsCache "\<lambda>c. sample_rdt S (node_metrics c) (node_monGroupPath c)" "node_updateStats S"
  for S :: "'w os"
  by unfold_locales (auto simp: node_updateStats_def run_bind record_sample_def split: sample_splits)

interpretation con_cell: sampling "\<lambda>c. gm_get (con_statsCache c) cid" "\<lambda>c. sample_container S c cid" "con_updateStats S cid"
  for S :: "'w os" and cid :: string
  by unfold_locales (auto simp: con_updateStats_def run_bind record_sample_def split: sample_splits)

interpretation class_cell: sampling "class_entry k" "\<lambda>c. sample_rdt S (class_metrics c) (path_join [rootResctrlPath, k])" "class_loop S [k]"
  for S :: "'w os" and k :: string
  by unfold_locales (auto simp: class_entry_def run_bind record_sample_def split: sample_splits)

text \<open>C20: what a container's gauges are computed from. When two updates of a container succeed and its entry is left
  alone in between, the entry then holds the comparison of exactly the two samples they read.\<close>

theorem container_rates_from_last_samples:
  assumes "run_state (con_updateStats S cid c) w = ((None, c'), w')"
    and "gm_get (con_statsCache d) cid = gm_get (con_statsCache c') cid"
    and "run_state (con_updateStats S cid d) v = ((None, d'), v')"
  shows "\<exists>r r' p. run_state (sample_container S c cid) w = (Inr r, w') \<and> run_state (sample_container S d cid) v = (Inr r', v') \<and>
    processStats r r' = Inr p \<and> gm_get (con_statsCache d') cid = Some \<lparr>oldStats = r', processedStats = p\<rparr>"
  by (rule con_cell.two_updates [OF assms])

definition memory_collector :: "(string, stats) gomap \<Rightarrow> containerCollector" where
  "memory_collector cache = \<lparr>con_statsCache = cache, containerInfos = [(''x'', zero_info\<lparr>CgroupPath := ''/c''\<rparr>)],
     namespaceWhiteList = [], monTimes = 0, con_metrics = [''memory'']\<rparr>"

lemma memory_sample:
  assumes "snd w < 2 ^ 63"
  shows "run_state (sample_container clock_os (memory_collector cache) ''x'') w = (Inr (zero_raw\<lparr>RawMemory := of_nat (snd w)\<rparr>), w)"
proof -
  have "parse_int 64 (string_of_nat (snd w)) = Some (int (snd w))" using assms by (intro parse_int_string_of_nat) simp
  moreover have "path_join [''/c'', ''memory.usage_in_bytes''] \<noteq> cgroupControllerPath" by code_simp
  moreover have "info_of (memory_collector cache) ''x'' = zero_info\<lparr>CgroupPath := ''/c''\<rparr>"
    by (simp add: info_of_def memory_collector_def gm_simps)
  ultimately show ?thesis
    by (simp add: sample_container_def sample_rdt_def isNeedCollectMbLLc_def isNeedCollectCpu_def isNeedCollectMemory_def
        io_simps getMemorySizeFrom_def getCgroupVersion_def stat_io_def clock_os_def trim_space_nat_line parse_int64_def
        Let_def memory_collector_def)
qed

theorem container_rates_from_last_samples_witness:
  "\<exists>c' d'. run_state (con_updateStats clock_os ''x'' (memory_collector [])) (5, 100) = ((None, c'), (5, 100)) \<and>
    run_state (con_updateStats clock_os ''x'' c') (8, 200) = ((None, d'), (8, 200)) \<and>
    (\<exists>p. processStats (zero_raw\<lparr>RawMemory := 100\<rparr>) (zero_raw\<lparr>RawMemory := 200\<rparr>) = Inr p \<and>
      gm_get (con_statsCache d') ''x'' = Some \<lparr>oldStats = zero_raw\<lparr>RawMemory := 200\<rparr>, processedStats = p\<rparr>)"
proof -
  let ?st = "\<lparr>oldStats = zero_raw\<lparr>RawMemory := 100\<rparr>, processedStats = zero_processed\<rparr>"
  have 1: "run_state (con_updateStats clock_os ''x'' (memory_collector [])) (5, 100) = ((None, memory_collector [(''x'', ?st)]), (5, 100))"
    using memory_sample [of "(5, 100)" "[]"] by (simp add: con_updateStats_def run_bind) (simp add: memory_collector_def gm_set_def)
  have c: "gm_get (con_statsCache (memory_collector [(''x'', ?st)])) ''x'' = Some ?st"
    by (simp add: memory_collector_def gm_simps)
  obtain p where "processStats (oldStats ?st) (zero_raw\<lparr>RawMemory := 200\<rparr>) = Inr p"
    by (simp add: processStats_def process_mbm_def process_cpu_def zero_raw_def)
  with c obtain d' where 2: "run_state (con_updateStats clock_os ''x'' (memory_collector [(''x'', ?st)])) (8, 200) = ((None, d'), (8, 200))"
    using memory_sample [of "(8, 200)" "[(''x'', ?st)]"] by (simp add: con_updateStats_def run_bind)
  from container_rates_from_last_samples [OF 1 refl 2] 1 2 show ?thesis
    using memory_sample [of "(5, 100)" "[]"] memory_sample [of "(8, 200)" "[(''x'', ?st)]"] by auto
qed

section \<open>Scrapes of the class collector\<close>

lemma class_emit_crash: "snd (class_emit node es) = (if \<exists>k. (k, None) \<in> set es then Some Crash else None)"
  by (induction node es rule: class_emit.induct) (auto split: prod.split)

lemma class_Update_crash:
  "snd (class_Update c) = Some Crash \<longleftrightarrow>
     isNeedCollectMbLLc (class_metrics c) \<and> (\<exists>k. (k, None) \<in> set (class_statsCache c))"
  by (auto simp: class_Update_def class_emit_crash)

lemma classes_loop_keeps: "gm_has cache k \<Longrightarrow> gm_get (classes_loop files cache) k = gm_get cache k"
proof (induction files cache rule: classes_loop.induct)
  case (2 dirName isDir files cache)
  then show ?case by (auto simp: gm_has_def)
qed simp

lemma classes_loop_new:
  assumes "(k, True) \<in> set files" "k \<notin> set excludeDirs" "\<not> gm_has cache k"
  shows "gm_get (classes_loop files cache) k = Some None"
  using assms
proof (induction files cache rule: classes_loop.induct)
  case (2 dirName isDir files cache)
  show ?case
  proof (cases "dirName = k \<and> isDir")
    case True
    then show ?thesis using 2 classes_loop_keeps [of "gm_set k None cache" k files] by simp
  next
    case False
    with 2 show ?thesis by (auto simp: gm_has_def)
  qed
qed simp

text \<open>C31: a scrape before the first sample of a class. When the class scan finds a new RDT class, a scrape that comes
  before the next sampling round dereferences the nil entry of that class and panics.\<close>

theorem scrape_of_new_class_panics:
  assumes "run_state (os_read_dir S rootResctrlPath) w = (Inr files, v)" "(k, True) \<in> set files" "k \<notin> set excludeDirs"
    and "\<not> gm_has (class_statsCache c) k" "isNeedCollectMbLLc (class_metrics c)"
  shows "\<exists>c'. run_state (updateClasses S c) w = ((None, c'), v) \<and> snd (class_Update c') = Some Crash"
proof -
  have "(k, None) \<in> set (classes_loop files (class_statsCache c))"
    using classes_loop_new [OF assms(2-4)] by (rule gm_get_in_set)
  then show ?thesis using assms(1,5) by (auto simp: updateClasses_def run_bind class_Update_crash)
qed

definition dir_os :: "(string \<times> bool) list \<Rightarrow> unit os" where
  "dir_os files = \<lparr>
     os_stat = (\<lambda>_. State (\<lambda>w. (NotExist ''none'', w))),
     os_read_file = (\<lambda>_. State (\<lambda>w. (Inl ''none'', w))),
     os_open = (\<lambda>_. State (\<lambda>w. (Inl ''none'', w))),
     os_read_dir = (\<lambda>_. State (\<lambda>w. (Inr files, w))),
     os_glob = (\<lambda>_. State (\<lambda>w. (Inr [], w))),
     os_mkdir = (\<lambda>_. State (\<lambda>w. (None, w))),
     os_create = (\<lambda>_. State (\<lambda>w. (None, w))),
     os_write = (\<lambda>_ _. State (\<lambda>w. (None, w))),
     os_now = State (\<lambda>w. (0, w))\<rparr>"

theorem scrape_of_new_class_panics_witness:
  "\<exists>c'. run_state (updateClasses (dir_os [(''info'', True), (''COS1'', True)]) (NewClassCollector ''n'' ''all'')) () = ((None, c'), ()) \<and>
    snd (class_Update c') = Some Crash"
  using scrape_of_new_class_panics [of "dir_os [(''info'', True), (''COS1'', True)]" "()" "[(''info'', True), (''COS1'', True)]" "()"
      "''COS1''" "NewClassCollector ''n'' ''all''"]
  by (simp add: dir_os_def excludeDirs_def NewClassCollector_def gm_has_def metrics_of_flag_def allMetrics_def
      allClassMetrics_def isNeedCollectMbLLc_def)

section \<open>A class that was removed\<close>

lemma gm_keys_set_present: "gm_has m k \<Longrightarrow> gm_keys (gm_set k v m) = gm_keys m"
  by (simp add: gm_has_keys gm_keys_def gm_set_def update_keys)

text \<open>The only entries a sampling round writes are those of the classes it visits, and it keeps the list of classes.\<close>

lemma class_loop_frame:
  assumes "run_state (class_loop S ks c) w = ((e, c'), w')" "\<forall>k \<in> set ks. gm_has (class_statsCache c) k"
  shows "class_metrics c' = class_metrics c" "gm_keys (class_statsCache c') = gm_keys (class_statsCache c)"
    "x \<notin> set ks \<Longrightarrow> gm_get (class_statsCache c') x = gm_get (class_statsCache c) x"
  using assms
  by (induction S ks c arbitrary: w rule: class_loop.induct)
    (auto simp: run_bind gm_keys_set_present split: sample_splits)

lemma sample_missing:
  assumes "isNeedCollectMbLLc ms" "run_state (os_stat S path) w = (NotExist e, w')"
  shows "run_state (sample_rdt S ms path) w = (Inl (Err (NoMonGroup path)), w')"
  using assms by (simp add: sample_rdt_def getIntelRDTStatsFrom_def io_simps)

definition round_blocked :: "classCollector \<Rightarrow> string list \<Rightarrow> (fault option \<times> classCollector) \<times> 'w \<Rightarrow> bool" where
  "round_blocked c xs r = (\<exists>e c' w'. r = ((Some e, c'), w') \<and> class_metrics c' = class_metrics c \<and>
     gm_keys (class_statsCache c') = gm_keys (class_statsCache c) \<and>
     (\<forall>y. y \<notin> set xs \<longrightarrow> gm_get (class_statsCache c') y = gm_get (class_statsCache c) y))"

lemma round_blocked_set:
  assumes "round_blocked (c\<lparr>class_statsCache := gm_set x s (class_statsCache c)\<rparr>) xs r" "gm_has (class_statsCache c) x"
  shows "round_blocked c (x # xs) r"
  using assms by (auto simp: round_blocked_def gm_keys_set_present)

lemma round_blocked_here: "round_blocked c xs ((Some e, c), w)"
  by (simp add: round_blocked_def)

lemma class_loop_blocked:
  assumes "isNeedCollectMbLLc (class_metrics c)"
    and "\<forall>w. \<exists>e w'. run_state (os_stat S (path_join [rootResctrlPath, k])) w = (NotExist e, w')"
    and "\<forall>x \<in> set xs. gm_has (class_statsCache c) x"
  shows "round_blocked c xs (run_state (class_loop S (xs @ k # ys) c) w)"
  using assms
proof (induction xs arbitrary: c w)
  case Nil
  from Nil(2) obtain e w' where "run_state (os_stat S (path_join [rootResctrlPath, k])) w = (NotExist e, w')" by blast
  from sample_missing [OF Nil(1) this] show ?case by (simp add: run_bind round_blocked_here)
next
  case (Cons x xs)
  have "round_blocked c (x # xs) (run_state (class_loop S (xs @ k # ys) (c\<lparr>class_statsCache := gm_set x s (class_statsCache c)\<rparr>)) v)" for s v
    by (rule round_blocked_set [OF Cons.IH]) (use Cons.prems in auto)
  then show ?case by (auto simp: run_bind round_blocked_here split: sample_splits)
qed

text \<open>A removed RDT class stops the sampling of others. Classes are never dropped from the cache. Once the
  directory of a cached class is gone every sampling round ends with an error at that class: the class stays
  in the cache, and neither it nor any class visited after it gets a new sample.\<close>

theorem removed_class_blocks_sampling:
  assumes "isNeedCollectMbLLc (class_metrics c)" "gm_keys (class_statsCache c) = xs @ k # ys" "distinct (xs @ k # ys)"
    and "\<forall>w. \<exists>e w'. run_state (os_stat S (path_join [rootResctrlPath, k])) w = (NotExist e, w')"
  shows "\<exists>e c' w'. run_state (class_updateStats S c) w = ((Some e, c'), w') \<and>
    isNeedCollectMbLLc (class_metrics c') \<and> gm_keys (class_statsCache c') = xs @ k # ys \<and>
    (\<forall>y \<in> set (k # ys). gm_get (class_statsCache c') y = gm_get (class_statsCache c) y)"
proof -
  have "\<forall>x \<in> set xs. gm_has (class_statsCache c) x" using assms(2) by (simp add: gm_has_keys)
  from class_loop_blocked [OF assms(1,4) this, of ys w] obtain e c' w' where
    "run_state (class_updateStats S c) w = ((Some e, c'), w')" "class_metrics c' = class_metrics c"
    "gm_keys (class_statsCache c') = xs @ k # ys"
    "\<And>y. y \<notin> set xs \<Longrightarrow> gm_get (class_statsCache c') y = gm_get (class_statsCache c) y"
    unfolding class_updateStats_def assms(2) round_blocked_def by auto
  moreover have "y \<notin> set xs" if "y \<in> set (k # ys)" for y using assms(3) that by auto
  ultimately show ?thesis using assms(1) by auto
qed

theorem removed_class_blocks_sampling_witness:
  "\<exists>e c' w'. run_state (class_updateStats (dir_os []) ((NewClassCollector ''n'' ''all'')\<lparr>class_statsCache := [(''A'', None), (''B'', None)]\<rparr>)) () =
      ((Some e, c'), w') \<and> gm_keys (class_statsCache c') = [''A'', ''B''] \<and>
    gm_get (class_statsCache c') ''A'' = Some None \<and> gm_get (class_statsCache c') ''B'' = Some None"
  using removed_class_blocks_sampling [where w = "()" and c = "(NewClassCollector ''n'' ''all'')\<lparr>class_statsCache := [(''A'', None), (''B'', None)]\<rparr>" and xs = "[]" and k = "''A''" and ys = "[''B'']" and S = "dir_os []"]
  by (auto simp: dir_os_def NewClassCollector_def metrics_of_flag_def allMetrics_def allClassMetrics_def
      isNeedCollectMbLLc_def gm_keys_def gm_simps)

end
