(* ===== verification/Mbx_System.thy ===== *)
theory Mbx_System
  imports Mbx_Collect_Correct
begin

text \<open>
  Containers as the exporter sees them: the NRI plugin (\<open>plugin/hook-injector.go\<close>) turns the events of the container
  runtime into messages on the channel of \<open>info/container.go\<close>, the container collector takes them off and starts the
  goroutines that watch a container. The system is a labelled transition relation whose steps are the callbacks of
  the plugin, the delivery of a message, one round of a goroutine, and changes of the outside world.
\<close>

section \<open>The plugin\<close>

definition chanSize :: nat where "chanSize = 100"
definition conSuffix :: string where "conSuffix = ''.scope''"
definition podPrefix :: string where "podPrefix = ''/sys/fs/cgroup''"
definition conPrefix :: string where "conPrefix = ''/cri-containerd-''"
definition rootMonDir :: string where "rootMonDir = ''/sys/fs/resctrl/mon_groups/''"
definition monGroupPrefix :: string where "monGroupPrefix = ''container-''"
definition annRDT :: string where "annRDT = ''rdt.resources.beta.kubernetes.io/pod''"

text \<open>What the plugin reads of NRI's \<open>api.PodSandbox\<close> and \<open>api.Container\<close>; \<open>pod_Linux\<close> is the cgroup parent, \<open>None\<close>
  when the pointer \<open>Linux\<close> is nil.\<close>

record PodSandbox =
  pod_Id :: string
  pod_Name :: string
  pod_Namespace :: string
  pod_Annotations :: "(string, string) gomap"
  pod_Linux :: "string option"

record Container =
  ctr_Id :: string
  ctr_Name :: string
  ctr_PodSandboxId :: string
  ctr_Args :: "string list"
  ctr_Annotations :: "(string, string) gomap"
  ctr_Mounts :: "string list"

type_synonym channel = "(string, ContainerInfo) gomap list"

definition send :: "(string, ContainerInfo) gomap \<Rightarrow> channel \<Rightarrow> fault option \<times> channel" where
  "send m q = (if length q = chanSize then (Some (Err ChanFull), q) else (None, q @ [m]))"

definition mon_path :: "string \<Rightarrow> string" where
  "mon_path cid = rootMonDir @ monGroupPrefix @ cid"

definition started_info :: "int \<Rightarrow> PodSandbox \<Rightarrow> string \<Rightarrow> Container \<Rightarrow> ContainerInfo" where
  "started_info op pod parent ctr = \<lparr>Operation = op, ContainerName = ctr_Name ctr, ContainerId = ctr_Id ctr,
     PodName = pod_Name pod, NameSpace = pod_Namespace pod,
     CgroupPath = podPrefix @ parent @ conPrefix @ ctr_Id ctr @ conSuffix, MonGroupPath = mon_path (ctr_Id ctr)\<rparr>"

fun sync_pods :: "Container \<Rightarrow> PodSandbox list \<Rightarrow> channel \<Rightarrow> fault option \<times> channel" where
  "sync_pods ctr [] q = (None, q)"
| "sync_pods ctr (pod # pods) q =
     (if gm_has (pod_Annotations pod) annRDT then sync_pods ctr pods q
      else if pod_Id pod = ctr_PodSandboxId ctr then
        (case pod_Linux pod of
          None \<Rightarrow> (Some Crash, q)
        | Some parent \<Rightarrow> send [(ctr_Id ctr, started_info 2 pod parent ctr)] q)
      else sync_pods ctr pods q)"

fun sync_loop :: "PodSandbox list \<Rightarrow> string list \<Rightarrow> Container list \<Rightarrow> channel \<Rightarrow> fault option \<times> channel" where
  "sync_loop pods dropRepeat [] q = (None, q)"
| "sync_loop pods dropRepeat (ctr # ctrs) q =
     (if ctr_Id ctr \<in> set dropRepeat then sync_loop pods dropRepeat ctrs q
      else case sync_pods ctr pods q of
        (Some e, q') \<Rightarrow> (Some e, q')
      | (None, q') \<Rightarrow> sync_loop pods (ctr_Id ctr # dropRepeat) ctrs q')"

definition Synchronize :: "PodSandbox list \<Rightarrow> Container list \<Rightarrow> channel \<Rightarrow> fault option \<times> channel" where
  "Synchronize pods ctrs q = sync_loop pods [] ctrs q"

definition containerName :: "PodSandbox option \<Rightarrow> Container \<Rightarrow> string" where
  "containerName pod ctr = (case pod of Some p \<Rightarrow> pod_Name p @ ''/'' @ ctr_Name ctr | None \<Rightarrow> ctr_Name ctr)"

text \<open>The hook manager (\<open>p.Mgr.Hooks\<close>) is the argument \<open>hooks\<close>: from the arguments of the process, the annotations and
  the presence of mounts it gives the OCI hooks to inject, if any. The annotations of the pod win.\<close>

definition merge_annotations :: "(string, string) gomap \<Rightarrow> (string, string) gomap \<Rightarrow> (string, string) gomap" where
  "merge_annotations ctr_ann pod_ann = foldl (\<lambda>m (k, v). gm_set k v m) (foldl (\<lambda>m (k, v). gm_set k v m) [] ctr_ann) pod_ann"

definition CreateContainer :: "bool \<Rightarrow> (string list \<Rightarrow> (string, string) gomap \<Rightarrow> bool \<Rightarrow> go_error + 'h option) \<Rightarrow>
    PodSandbox \<Rightarrow> Container \<Rightarrow> mbx_error + 'h option" where
  "CreateContainer isNeedMakeMonitorGroup hooks pod ctr =
     (if \<not> isNeedMakeMonitorGroup then Inr None
      else if gm_has (pod_Annotations pod) annRDT then Inr None
      else case hooks (ctr_Args ctr) (merge_annotations (ctr_Annotations ctr) (pod_Annotations pod)) (ctr_Mounts ctr \<noteq> []) of
        Inl e \<Rightarrow> Inl (HookFailed e)
      | Inr hs \<Rightarrow> Inr hs)"

definition StartContainer :: "PodSandbox \<Rightarrow> Container \<Rightarrow> channel \<Rightarrow> fault option \<times> channel" where
  "StartContainer pod ctr q =
     (if gm_has (pod_Annotations pod) annRDT then (None, q)
      else case pod_Linux pod of
        None \<Rightarrow> (Some Crash, q)
      | Some parent \<Rightarrow> send [(ctr_Id ctr, started_info 1 pod parent ctr)] q)"

definition stopped_info :: "Container \<Rightarrow> ContainerInfo" where
  "stopped_info ctr = zero_info\<lparr>Operation := 0, ContainerName := ctr_Name ctr, ContainerId := ctr_Id ctr\<rparr>"

definition StopContainer :: "PodSandbox \<Rightarrow> Container \<Rightarrow> channel \<Rightarrow> fault option \<times> channel" where
  "StopContainer pod ctr q =
     (if gm_has (pod_Annotations pod) annRDT then (None, q)
      else send [(ctr_Id ctr, stopped_info ctr)] q)"

section \<open>The system\<close>

record sys =
  s_chan :: channel
  s_con :: containerCollector
  s_workers :: "worker list"
  s_crashed :: bool

datatype event =
    Synced "PodSandbox list" "Container list"
  | Started PodSandbox Container
  | Stopped PodSandbox Container
  | Deliver
  | Round worker
  | World

definition new_sys :: "containerCollector \<Rightarrow> sys" where
  "new_sys c = \<lparr>s_chan = [], s_con = c, s_workers = [], s_crashed = False\<rparr>"

fun worker_round :: "'w os \<Rightarrow> worker \<Rightarrow> containerCollector \<Rightarrow> ('w, tick \<times> containerCollector) state" where
  "worker_round S (Housekeeper cid) c = housekeeping S cid c"
| "worker_round S (PidScanner cid n) c = updatePids S cid n c"

fun continued :: "tick \<Rightarrow> worker list" where
  "continued (Again wk) = [wk]"
| "continued Ended = []"
| "continued Crashed = []"

text \<open>A callback of the plugin leaves its messages; a panic ends the process.\<close>

definition queued :: "sys \<Rightarrow> fault option \<times> channel \<Rightarrow> sys" where
  "queued s r = s\<lparr>s_chan := snd r, s_crashed := (fst r = Some Crash)\<rparr>"

inductive sys_step :: "'w os \<Rightarrow> sys \<times> 'w \<Rightarrow> event \<Rightarrow> sys \<times> 'w \<Rightarrow> bool" for S where
  synced: "\<not> s_crashed s \<Longrightarrow> sys_step S (s, w) (Synced pods ctrs) (queued s (Synchronize pods ctrs (s_chan s)), w)"
| started: "\<not> s_crashed s \<Longrightarrow> sys_step S (s, w) (Started pod ctr) (queued s (StartContainer pod ctr (s_chan s)), w)"
| stopped: "\<not> s_crashed s \<Longrightarrow> sys_step S (s, w) (Stopped pod ctr) (queued s (StopContainer pod ctr (s_chan s)), w)"
| deliver: "\<not> s_crashed s \<Longrightarrow> s_chan s = d # q \<Longrightarrow> run_state (processContainerData S d (s_con s)) w = ((r, c, ws), w') \<Longrightarrow>
    sys_step S (s, w) Deliver
      (s\<lparr>s_chan := q, s_con := c, s_workers := s_workers s @ ws, s_crashed := (r = Some Crash)\<rparr>, w')"
| work: "\<not> s_crashed s \<Longrightarrow> s_workers s = xs @ wk # ys \<Longrightarrow> run_state (worker_round S wk (s_con s)) w = ((t, c), w') \<Longrightarrow>
    sys_step S (s, w) (Round wk) (s\<lparr>s_con := c, s_workers := xs @ continued t @ ys, s_crashed := (t = Crashed)\<rparr>, w')"
| world: "sys_step S (s, w) World (s, w')"

inductive sys_run :: "'w os \<Rightarrow> sys \<times> 'w \<Rightarrow> event list \<Rightarrow> sys \<times> 'w \<Rightarrow> bool" for S where
  run_nil: "sys_run S s [] s"
| run_cons: "sys_step S s e s' \<Longrightarrow> sys_run S s' es t \<Longrightarrow> sys_run S s (e # es) t"

inductive_cases step_synced: "sys_step S (s, w) (Synced pods ctrs) t"
inductive_cases step_started: "sys_step S (s, w) (Started pod ctr) t"
inductive_cases step_stopped: "sys_step S (s, w) (Stopped pod ctr) t"
inductive_cases step_deliver: "sys_step S (s, w) Deliver t"
inductive_cases step_round: "sys_step S (s, w) (Round wk) t"
inductive_cases step_world: "sys_step S (s, w) World t"
inductive_simps run_Nil_simp [simp]: "sys_run S s [] t"
inductive_simps run_Cons_simp: "sys_run S s (e # es) t"

lemmas step_elims = step_synced step_started step_stopped step_deliver step_round step_world

text \<open>A property of the system that every step with an allowed label keeps.\<close>

locale kept =
  fixes S :: "'w os" and allowed :: "event \<Rightarrow> bool" and good :: "sys \<Rightarrow> bool"
  assumes step_kept: "sys_step S (s, w) e (t, v) \<Longrightarrow> allowed e \<Longrightarrow> good s \<Longrightarrow> good t"
begin

lemma run_kept: "sys_run S sw es tv \<Longrightarrow> list_all allowed es \<Longrightarrow> good (fst sw) \<Longrightarrow> good (fst tv)"
proof (induction rule: sys_run.induct)
  case (run_cons sw e uv es tv)
  from run_cons.hyps(1) run_cons.prems have "good (fst uv)"
    by (cases sw; cases uv) (auto intro: step_kept)
  with run_cons show ?case by simp
qed simp

end

section \<open>The invariant\<close>

text \<open>Linux reports \<open>ENOENT\<close> for the empty path.\<close>

definition empty_path_missing :: "'w os \<Rightarrow> bool" where
  "empty_path_missing S = (\<forall>w. \<exists>e w'. run_state (os_stat S []) w = (NotExist e, w'))"

text \<open>A message is about one container; one that adds it names the monitoring group of that container.\<close>

definition msg_ok :: "(string, ContainerInfo) gomap \<Rightarrow> bool" where
  "msg_ok d = (\<exists>cid i. d = [(cid, i)] \<and> ContainerId i = cid \<and>
     (Operation i = 0 \<or> Operation i \<in> {1, 2} \<and> MonGroupPath i = mon_path cid))"

definition con_ok :: "string list \<Rightarrow> containerCollector \<Rightarrow> bool" where
  "con_ok wl c = (namespaceWhiteList c = wl \<and>
     (\<forall>cid i. gm_get (containerInfos c) cid = Some i \<longrightarrow>
        ContainerId i = cid \<and> MonGroupPath i = mon_path cid \<and> NameSpace i \<notin> set wl) \<and>
     (\<forall>cid. gm_has (con_statsCache c) cid \<longrightarrow> gm_has (containerInfos c) cid))"

definition chan_ok :: "channel \<Rightarrow> bool" where
  "chan_ok q = (length q \<le> chanSize \<and> (\<forall>d \<in> set q. msg_ok d))"

definition sys_ok :: "string list \<Rightarrow> sys \<Rightarrow> bool" where
  "sys_ok wl s = (chan_ok (s_chan s) \<and> con_ok wl (s_con s))"

lemma forget_ok [intro]: "con_ok wl c \<Longrightarrow> con_ok wl (forget cid c)"
  by (auto simp: con_ok_def forget_def gm_has_def split: if_splits)

lemma process_single:
  assumes "run_state (processContainerData S [(cid, i)] c) w = ((r, c', ws), w')"
  shows "r \<noteq> Some Crash" and "c' = (if namespaceWhiteList c \<noteq> [] \<and> NameSpace i \<in> set (namespaceWhiteList c) then c
      else if Operation i = 0 then forget cid c
      else if Operation i \<in> {1, 2} then c\<lparr>containerInfos := gm_set cid i (containerInfos c)\<rparr> else c)"
    and "\<not> (namespaceWhiteList c \<noteq> [] \<and> NameSpace i \<in> set (namespaceWhiteList c)) \<Longrightarrow> Operation i \<in> {1, 2} \<Longrightarrow>
      Housekeeper cid \<in> set ws"
    and "Housekeeper x \<in> set ws \<Longrightarrow> x = cid"
  using assms
  by (auto simp: processContainerData_def stringInSlice_def Let_def run_bind makeMonitorGroup_def
      split: if_splits sample_splits stat_result.splits fault.splits)

lemma deliver_ok:
  assumes "con_ok wl c" "msg_ok d" "run_state (processContainerData S d c) w = ((r, c', ws), w')"
  shows "con_ok wl c'"
proof -
  obtain cid i where d: "d = [(cid, i)]" "ContainerId i = cid" "Operation i = 0 \<or> Operation i \<in> {1, 2} \<and> MonGroupPath i = mon_path cid"
    using assms(2) by (auto simp: msg_ok_def)
  have "con_ok wl (c\<lparr>containerInfos := gm_set cid i (containerInfos c)\<rparr>)"
    if "Operation i \<in> {1, 2}" "wl \<noteq> [] \<longrightarrow> NameSpace i \<notin> set wl"
    using assms(1) d that by (auto simp: con_ok_def)
  moreover have "namespaceWhiteList c = wl" using assms(1) by (simp add: con_ok_def)
  ultimately show ?thesis using process_single(2) [OF assms(3) [unfolded d(1)]] assms(1) forget_ok [OF assms(1), of cid]
    by (metis (full_types))
qed

lemma con_updateStats_frame:
  assumes "run_state (con_updateStats S cid c) w = ((e, c'), w')"
  shows "containerInfos c' = containerInfos c" "namespaceWhiteList c' = namespaceWhiteList c"
    "gm_has (con_statsCache c') x \<Longrightarrow> x = cid \<or> gm_has (con_statsCache c) x"
  using assms by (auto simp: con_updateStats_def run_bind split: sample_splits)

lemma housekeeping_unknown:
  assumes "empty_path_missing S" "\<not> gm_has (containerInfos c) cid"
  shows "fst (run_state (housekeeping S cid c) w) = (Ended, forget cid c)"
proof -
  have "CgroupPath (info_of c cid) = []" using assms(2) by (simp add: info_of_def gm_has_def zero_info_def)
  moreover obtain e w' where "run_state (os_stat S []) w = (NotExist e, w')" using assms(1) unfolding empty_path_missing_def by blast
  ultimately show ?thesis by (simp add: housekeeping_def run_bind)
qed

text \<open>A round of the sampling loop samples known containers only, and adds none.\<close>

lemma housekeeping_ok:
  assumes "con_ok wl c" "empty_path_missing S" "run_state (housekeeping S cid c) w = ((t, c'), w')"
  shows "con_ok wl c'" "gm_has (containerInfos c') x \<Longrightarrow> gm_has (containerInfos c) x"
proof -
  obtain r v where r: "run_state (os_stat S (CgroupPath (info_of c cid))) w = (r, v)" by fastforce
  show "con_ok wl c'"
  proof (cases r)
    case (Exists b)
    have known: "gm_has (containerInfos c) cid"
    proof (rule ccontr)
      assume unknown: "\<not> gm_has (containerInfos c) cid"
      then have "info_of c cid = zero_info" by (simp add: info_of_def gm_has_def)
      with assms(2) r Exists show False unfolding empty_path_missing_def
        by (metis ContainerInfo.select_convs(6) fst_conv stat_result.distinct(1) zero_info_def)
    qed
    obtain e where "run_state (con_updateStats S cid c) v = ((e, c'), w')"
      using assms(3) r Exists by (auto simp: housekeeping_def run_bind split: sample_splits fault.splits)
    from con_updateStats_frame [OF this] known assms(1) show ?thesis unfolding con_ok_def by metis
  qed (use assms r in \<open>auto simp: housekeeping_def run_bind\<close>)
  show "gm_has (containerInfos c') x \<Longrightarrow> gm_has (containerInfos c) x"
    using assms(3) by (auto simp: housekeeping_def run_bind forget_def gm_has_def con_updateStats_frame(1)
        split: sample_splits stat_result.splits fault.splits if_splits)
qed

lemma updatePids_same: "run_state (updatePids S cid n c) w = ((t, c'), w') \<Longrightarrow> c' = c"
  by (auto simp: updatePids_def run_bind split: if_splits sample_splits fault.splits)

lemma worker_round_ok:
  assumes "con_ok wl c" "empty_path_missing S" "run_state (worker_round S wk c) w = ((t, c'), w')"
  shows "con_ok wl c'" "gm_has (containerInfos c') x \<Longrightarrow> gm_has (containerInfos c) x"
  using assms by (cases wk; auto dest: updatePids_same intro: housekeeping_ok)+

lemma send_ok: "chan_ok q \<Longrightarrow> msg_ok m \<Longrightarrow> chan_ok (snd (send m q))"
  by (auto simp: send_def chan_ok_def)

lemma started_msg_ok: "op \<in> {1, 2} \<Longrightarrow> msg_ok [(ctr_Id ctr, started_info op pod parent ctr)]"
  by (auto simp: msg_ok_def started_info_def)

lemma stopped_msg_ok: "msg_ok [(ctr_Id ctr, stopped_info ctr)]"
  by (simp add: msg_ok_def stopped_info_def)

lemma sync_pods_ok: "chan_ok q \<Longrightarrow> chan_ok (snd (sync_pods ctr pods q))"
  by (induction pods) (auto split: option.split intro!: send_ok started_msg_ok)

lemma sync_loop_ok: "chan_ok q \<Longrightarrow> chan_ok (snd (sync_loop pods seen ctrs q))"
proof (induction ctrs arbitrary: seen q)
  case (Cons ctr ctrs)
  from sync_pods_ok [OF Cons.prems, of ctr pods] Cons show ?case by (auto split: prod.split option.split)
qed simp

lemma callbacks_ok:
  assumes "chan_ok q"
  shows "chan_ok (snd (Synchronize pods ctrs q))" "chan_ok (snd (StartContainer pod ctr q))" "chan_ok (snd (StopContainer pod ctr q))"
  using assms
  by (auto simp: Synchronize_def StartContainer_def StopContainer_def split: option.split
      intro!: sync_loop_ok send_ok started_msg_ok stopped_msg_ok)

lemma chan_ok_tl: "chan_ok (d # q) \<Longrightarrow> chan_ok q"
  by (auto simp: chan_ok_def)

lemma sys_step_chan: "sys_step S (s, w) e (t, v) \<Longrightarrow> chan_ok (s_chan s) \<Longrightarrow> chan_ok (s_chan t)"
  by (erule sys_step.cases) (auto simp: queued_def intro: callbacks_ok chan_ok_tl)

lemma sys_step_ok:
  assumes "sys_step S (s, w) e (t, v)" "empty_path_missing S" "sys_ok wl s"
  shows "sys_ok wl t"
  using assms(1)
proof (cases rule: sys_step.cases)
  case (deliver d q r c ws)
  then have "msg_ok d" "chan_ok q" using assms(3) by (auto simp: sys_ok_def chan_ok_def)
  with deliver assms(3) show ?thesis by (auto simp: sys_ok_def intro: deliver_ok)
next
  case (work xs wk ys t c)
  with assms show ?thesis by (auto simp: sys_ok_def intro: worker_round_ok)
qed (use assms in \<open>auto simp: sys_ok_def queued_def intro: callbacks_ok\<close>)

lemma con_gauges_labels: "m \<in> set (con_gauges c cid p) \<Longrightarrow> \<exists>pre. m_labels m = pre @ labels_of c cid"
  by (auto simp: con_gauges_def Let_def gauge_def split: option.splits if_splits)

interpretation invariant: kept S "\<lambda>_. True" "\<lambda>s. empty_path_missing S \<longrightarrow> sys_ok wl s"
  for S :: "'w os" and wl :: "string list"
  by unfold_locales (auto intro: sys_step_ok)

lemma new_sys_ok: "sys_ok (namespaceWhiteList (NewContainerCollector wl scans flag)) (new_sys (NewContainerCollector wl scans flag))"
  by (simp add: sys_ok_def chan_ok_def con_ok_def new_sys_def NewContainerCollector_def gm_has_def)

lemma run_ok:
  assumes "empty_path_missing S" "sys_run S (s, w) es (t, v)" "sys_ok wl s"
  shows "sys_ok wl t"
  using invariant.run_kept [OF assms(2)] assms(1,3) by (simp add: list_all_iff)

lemma published_label:
  assumes "con_ok wl c" "m \<in> set (fst (con_Update c))"
  shows "\<exists>pre cid i. m_labels m = pre @ [cid, ContainerName i, PodName i, NameSpace i] \<and>
    gm_get (containerInfos c) cid = Some i \<and> ContainerId i = cid \<and> MonGroupPath i = mon_path cid \<and> NameSpace i \<notin> set wl"
proof -
  obtain cid st where st: "(cid, st) \<in> set (con_statsCache c)" "m \<in> set (con_gauges c cid (processedStats st))"
    using assms(2) by (auto simp: con_Update_def)
  then have "gm_has (con_statsCache c) cid" by (force simp: gm_has_keys gm_keys_def)
  then obtain i where i: "gm_get (containerInfos c) cid = Some i" using assms(1) by (auto simp: con_ok_def gm_has_def)
  moreover obtain pre where "m_labels m = pre @ labels_of c cid" using con_gauges_labels [OF st(2)] by blast
  ultimately show ?thesis using assms(1) by (auto simp: labels_of_def info_of_def con_ok_def)
qed


definition demo_pod :: PodSandbox where
  "demo_pod = \<lparr>pod_Id = ''p'', pod_Name = ''chatqna'', pod_Namespace = ''opea'', pod_Annotations = [], pod_Linux = Some ''/k''\<rparr>"

definition demo_ctr :: Container where
  "demo_ctr = \<lparr>ctr_Id = ''x'', ctr_Name = ''llm'', ctr_PodSandboxId = ''p'', ctr_Args = [], ctr_Annotations = [], ctr_Mounts = []\<rparr>"

text \<open>A system with one cgroup directory, in which memory use is always 512.\<close>

definition demo_os :: "unit os" where
  "demo_os = \<lparr>
     os_stat = (\<lambda>p. State (\<lambda>w. (if p = [] \<or> p = cgroupControllerPath then NotExist ''none'' else Exists True, w))),
     os_read_file = (\<lambda>_. State (\<lambda>w. (Inr ''512'', w))),
     os_open = (\<lambda>_. State (\<lambda>w. (Inr [], w))),
     os_read_dir = (\<lambda>_. State (\<lambda>w. (Inr [], w))),
     os_glob = (\<lambda>_. State (\<lambda>w. (Inr [], w))),
     os_mkdir = (\<lambda>_. State (\<lambda>w. (None, w))),
     os_create = (\<lambda>_. State (\<lambda>w. (None, w))),
     os_write = (\<lambda>_ _. State (\<lambda>w. (None, w))),
     os_now = State (\<lambda>w. (0, w))\<rparr>"

abbreviation demo_con :: containerCollector where
  "demo_con \<equiv> NewContainerCollector ''kube-system'' 10 ''memory''"

definition demo_info :: ContainerInfo where
  "demo_info = started_info 1 demo_pod ''/k'' demo_ctr"

definition demo_stats :: stats where
  "demo_stats = \<lparr>oldStats = zero_raw\<lparr>RawMemory := 512\<rparr>, processedStats = zero_processed\<rparr>"

definition demo_sampled :: sys where
  "demo_sampled = \<lparr>s_chan = [], s_con = demo_con\<lparr>containerInfos := [(''x'', demo_info)], con_statsCache := [(''x'', demo_stats)]\<rparr>,
     s_workers = [Housekeeper ''x''], s_crashed = False\<rparr>"

lemma demo_missing: "empty_path_missing demo_os"
  by (simp add: empty_path_missing_def demo_os_def)

lemma demo_run: "sys_run demo_os (new_sys demo_con, ()) [Started demo_pod demo_ctr, Deliver, Round (Housekeeper ''x'')] (demo_sampled, ())"
proof -
  let ?s1 = "(new_sys demo_con)\<lparr>s_chan := [[(''x'', demo_info)]]\<rparr>"
  let ?s2 = "\<lparr>s_chan = [], s_con = demo_con\<lparr>containerInfos := [(''x'', demo_info)]\<rparr>, s_workers = [Housekeeper ''x''], s_crashed = False\<rparr>"
  have "queued (new_sys demo_con) (StartContainer demo_pod demo_ctr []) = ?s1"
    by (simp add: queued_def StartContainer_def demo_pod_def demo_ctr_def gm_has_def send_def chanSize_def demo_info_def new_sys_def)
  then have 1: "sys_step demo_os (new_sys demo_con, ()) (Started demo_pod demo_ctr) (?s1, ())"
    using sys_step.started [of "new_sys demo_con" demo_os "()" demo_pod demo_ctr] by (simp add: new_sys_def)
  have "run_state (processContainerData demo_os [(''x'', demo_info)] demo_con) () =
      ((None, demo_con\<lparr>containerInfos := [(''x'', demo_info)]\<rparr>, [Housekeeper ''x'']), ())" by code_simp
  then have 2: "sys_step demo_os (?s1, ()) Deliver (?s2, ())"
    using sys_step.deliver [of ?s1 "[(''x'', demo_info)]" "[]" demo_os "()"] by (simp add: new_sys_def)
  have "run_state (worker_round demo_os (Housekeeper ''x'') (demo_con\<lparr>containerInfos := [(''x'', demo_info)]\<rparr>)) () =
      ((Again (Housekeeper ''x''), s_con demo_sampled), ())" by code_simp
  then have 3: "sys_step demo_os (?s2, ()) (Round (Housekeeper ''x'')) (demo_sampled, ())"
    using sys_step.work [of ?s2 "[]" "Housekeeper ''x''" "[]" demo_os "()"] by (simp add: demo_sampled_def)
  from 1 2 3 show ?thesis by (blast intro: sys_run.intros)
qed


section \<open>Containers that stopped\<close>

text \<open>A container the collector no longer knows, and that no message in the channel will add.\<close>

definition gone :: "string \<Rightarrow> sys \<Rightarrow> bool" where
  "gone cid s = (\<not> gm_has (containerInfos (s_con s)) cid \<and> (\<forall>d \<in> set (s_chan s). \<forall>(k, i) \<in> set d. k = cid \<longrightarrow> Operation i = 0))"

text \<open>Events that do not start the container.\<close>

fun not_starting :: "string \<Rightarrow> event \<Rightarrow> bool" where
  "not_starting cid (Synced pods ctrs) = (\<forall>ctr \<in> set ctrs. ctr_Id ctr \<noteq> cid)"
| "not_starting cid (Started pod ctr) = (ctr_Id ctr \<noteq> cid)"
| "not_starting cid _ = True"

definition no_adds :: "string \<Rightarrow> channel \<Rightarrow> bool" where
  "no_adds cid q = (\<forall>d \<in> set q. \<forall>(k, i) \<in> set d. k = cid \<longrightarrow> Operation i = 0)"

lemma send_no_adds: "no_adds cid q \<Longrightarrow> (\<forall>(k, i) \<in> set m. k = cid \<longrightarrow> Operation i = 0) \<Longrightarrow> no_adds cid (snd (send m q))"
  by (auto simp: no_adds_def send_def)

lemma sync_pods_no_adds: "no_adds cid q \<Longrightarrow> ctr_Id ctr \<noteq> cid \<Longrightarrow> no_adds cid (snd (sync_pods ctr pods q))"
  by (induction pods) (auto split: option.split intro!: send_no_adds)

lemma sync_loop_no_adds: "no_adds cid q \<Longrightarrow> \<forall>ctr \<in> set ctrs. ctr_Id ctr \<noteq> cid \<Longrightarrow> no_adds cid (snd (sync_loop pods seen ctrs q))"
proof (induction ctrs arbitrary: seen q)
  case (Cons ctr ctrs)
  have "no_adds cid (snd (sync_pods ctr pods q))" using Cons by (intro sync_pods_no_adds) auto
  with Cons show ?case by (auto split: prod.split option.split)
qed simp

lemma gone_step:
  assumes "sys_step S (s, w) e (t, v)" "empty_path_missing S" "not_starting cid e" "sys_ok wl s" "gone cid s"
  shows "gone cid t"
  using assms(1)
proof (cases rule: sys_step.cases)
  case (deliver d q r c ws)
  then have "msg_ok d" using assms(4) by (auto simp: sys_ok_def chan_ok_def)
  then obtain k i where d: "d = [(k, i)]" by (auto simp: msg_ok_def)
  then have "k = cid \<longrightarrow> Operation i = 0" using assms(5) deliver by (auto simp: gone_def)
  then show ?thesis using process_single(2) [OF deliver(5) [unfolded d]] deliver assms(5)
    by (auto simp: gone_def forget_def gm_has_def)
next
  case (work xs wk ys t c)
  then have "gm_has (containerInfos c) cid \<Longrightarrow> gm_has (containerInfos (s_con s)) cid"
    using assms worker_round_ok(2) by (auto simp: sys_ok_def)
  with work assms(5) show ?thesis by (auto simp: gone_def)
qed (use assms(3,5) in \<open>auto simp: gone_def queued_def Synchronize_def StartContainer_def StopContainer_def stopped_info_def zero_info_def
      no_adds_def [symmetric] split: option.split intro!: sync_loop_no_adds send_no_adds\<close>)

interpretation departed: kept S "not_starting cid" "\<lambda>s. empty_path_missing S \<longrightarrow> sys_ok wl s \<and> gone cid s"
  for S :: "'w os" and wl :: "string list" and cid :: string
  by unfold_locales (auto intro: sys_step_ok gone_step)

lemma deliver_stop_gone:
  assumes "s_chan s = [(cid, i)] # q" "Operation i = 0" "no_adds cid q" "NameSpace i \<notin> set (namespaceWhiteList (s_con s))"
    and "sys_step S (s, w) Deliver (t, v)"
  shows "gone cid t"
  using assms(5)
proof (cases rule: sys_step.cases)
  case (deliver d q' r c ws)
  then have "d = [(cid, i)]" "q' = q" using assms(1) by auto
  with deliver process_single(2) [of S cid i "s_con s" w r c ws v] assms(2-4) show ?thesis
    by (auto simp: gone_def forget_def gm_has_def no_adds_def)
qed


definition demo_stopping :: sys where
  "demo_stopping = demo_sampled\<lparr>s_chan := [[(''x'', stopped_info demo_ctr)]]\<rparr>"

definition demo_gone :: sys where
  "demo_gone = \<lparr>s_chan = [], s_con = demo_con, s_workers = [Housekeeper ''x''], s_crashed = False\<rparr>"

lemma demo_stop_run:
  "sys_run demo_os (new_sys demo_con, ()) [Started demo_pod demo_ctr, Deliver, Round (Housekeeper ''x''), Stopped demo_pod demo_ctr] (demo_stopping, ())"
proof -
  have "sys_step demo_os (demo_sampled, ()) (Stopped demo_pod demo_ctr) (queued demo_sampled (StopContainer demo_pod demo_ctr (s_chan demo_sampled)), ())"
    by (rule sys_step.stopped) (simp add: demo_sampled_def)
  moreover have "queued demo_sampled (StopContainer demo_pod demo_ctr (s_chan demo_sampled)) = demo_stopping" by code_simp
  ultimately show ?thesis using demo_run by (auto simp: run_Cons_simp)
qed

lemma demo_stop_delivered: "sys_step demo_os (demo_stopping, ()) Deliver (demo_gone, ())"
proof -
  have "run_state (processContainerData demo_os [(''x'', stopped_info demo_ctr)] (s_con demo_stopping)) () = ((None, demo_con, []), ())"
    by code_simp
  then show ?thesis using sys_step.deliver [of demo_stopping "[(''x'', stopped_info demo_ctr)]" "[]" demo_os "()"]
    by (simp add: demo_stopping_def demo_gone_def demo_sampled_def)
qed


section \<open>Containers whose sampling failed\<close>

definition silent :: "string \<Rightarrow> channel \<Rightarrow> bool" where
  "silent cid q = (\<forall>d \<in> set q. \<forall>(k, i) \<in> set d. k \<noteq> cid)"

fun about_others :: "string \<Rightarrow> event \<Rightarrow> bool" where
  "about_others cid (Synced pods ctrs) = (\<forall>ctr \<in> set ctrs. ctr_Id ctr \<noteq> cid)"
| "about_others cid (Started pod ctr) = (ctr_Id ctr \<noteq> cid)"
| "about_others cid (Stopped pod ctr) = (ctr_Id ctr \<noteq> cid)"
| "about_others cid _ = True"

definition frozen :: "string \<Rightarrow> stats option \<Rightarrow> ContainerInfo \<Rightarrow> sys \<Rightarrow> bool" where
  "frozen cid st i s = (gm_get (con_statsCache (s_con s)) cid = st \<and> gm_get (containerInfos (s_con s)) cid = Some i \<and>
     Housekeeper cid \<notin> set (s_workers s) \<and> silent cid (s_chan s))"

lemma silent_send: "silent cid q \<Longrightarrow> k \<noteq> cid \<Longrightarrow> silent cid (snd (send [(k, i)] q))"
  by (auto simp: silent_def send_def)

lemma silent_sync_pods: "silent cid q \<Longrightarrow> ctr_Id ctr \<noteq> cid \<Longrightarrow> silent cid (snd (sync_pods ctr pods q))"
  by (induction pods) (auto split: option.split intro!: silent_send)

lemma silent_sync_loop: "silent cid q \<Longrightarrow> \<forall>ctr \<in> set ctrs. ctr_Id ctr \<noteq> cid \<Longrightarrow> silent cid (snd (sync_loop pods seen ctrs q))"
proof (induction ctrs arbitrary: seen q)
  case (Cons ctr ctrs)
  have "silent cid (snd (sync_pods ctr pods q))" using Cons by (intro silent_sync_pods) auto
  with Cons show ?case by (auto split: prod.split option.split)
qed simp

lemma con_updateStats_others:
  "run_state (con_updateStats S k c) w = ((e, c'), w') \<Longrightarrow> x \<noteq> k \<Longrightarrow> gm_get (con_statsCache c') x = gm_get (con_statsCache c) x"
  by (auto simp: con_updateStats_def run_bind split: sample_splits)

lemma housekeeping_others:
  assumes "run_state (housekeeping S k c) w = ((t, c'), w')" "x \<noteq> k"
  shows "gm_get (con_statsCache c') x = gm_get (con_statsCache c) x" "gm_get (containerInfos c') x = gm_get (containerInfos c) x"
    "continued t = [] \<or> continued t = [Housekeeper k]"
  using assms by (auto simp: housekeeping_def run_bind forget_def con_updateStats_frame(1) dest: con_updateStats_others
      split: sample_splits stat_result.splits fault.splits)

lemma updatePids_continued: "run_state (updatePids S k n c) w = ((t, c'), w') \<Longrightarrow> Housekeeper x \<notin> set (continued t)"
  by (auto simp: updatePids_def run_bind split: if_splits sample_splits fault.splits)

lemma worker_round_others:
  assumes "run_state (worker_round S wk c) w = ((t, c'), w')" "wk \<noteq> Housekeeper x"
  shows "gm_get (con_statsCache c') x = gm_get (con_statsCache c) x" "gm_get (containerInfos c') x = gm_get (containerInfos c) x"
    "Housekeeper x \<notin> set (continued t)"
proof (atomize (full), cases wk)
  case (Housekeeper k)
  with assms show "gm_get (con_statsCache c') x = gm_get (con_statsCache c) x \<and>
      gm_get (containerInfos c') x = gm_get (containerInfos c) x \<and> Housekeeper x \<notin> set (continued t)"
    using housekeeping_others [of S k c w t c' w' x] by auto
next
  case (PidScanner k n)
  with assms show "gm_get (con_statsCache c') x = gm_get (con_statsCache c) x \<and>
      gm_get (containerInfos c') x = gm_get (containerInfos c) x \<and> Housekeeper x \<notin> set (continued t)"
    by (auto dest: updatePids_same updatePids_continued)
qed

lemma frozen_step:
  assumes "sys_step S (s, w) e (t, v)" "about_others cid e" "chan_ok (s_chan s)" "frozen cid st i s"
  shows "frozen cid st i t"
  using assms(1)
proof (cases rule: sys_step.cases)
  case (deliver d q r c ws)
  then have "msg_ok d" using assms(3) by (auto simp: chan_ok_def)
  then obtain k j where d: "d = [(k, j)]" by (auto simp: msg_ok_def)
  then have "k \<noteq> cid" using assms(4) deliver by (auto simp: frozen_def silent_def)
  moreover have "Housekeeper cid \<in> set ws \<Longrightarrow> cid = k" using process_single(4) [OF deliver(5) [unfolded d]] .
  ultimately show ?thesis using process_single(2) [OF deliver(5) [unfolded d]] deliver assms(4)
    by (auto simp: frozen_def forget_def silent_def)
next
  case (work xs wk ys t c)
  then have "wk \<noteq> Housekeeper cid" using assms(4) by (auto simp: frozen_def)
  with work assms(4) worker_round_others [of S wk "s_con s" w t c v cid] show ?thesis by (auto simp: frozen_def)
qed (use assms(2,4) in \<open>auto simp: frozen_def queued_def Synchronize_def StartContainer_def StopContainer_def
      split: option.split intro!: silent_sync_loop silent_send\<close>)

interpretation stuck: kept S "about_others cid" "\<lambda>s. chan_ok (s_chan s) \<and> frozen cid st i s"
  for S :: "'w os" and cid :: string and st :: "stats option" and i :: ContainerInfo
  by unfold_locales (blast intro: sys_step_chan frozen_step)

lemma round_failed:
  assumes "run_state (worker_round S (Housekeeper cid) (s_con s)) w = ((t, c), w')" "t = Ended" "gm_has (containerInfos c) cid"
  shows "c = s_con s"
proof -
  have "c \<noteq> forget cid (s_con s)" using assms(3) by (auto simp: forget_def gm_has_def)
  then show ?thesis using assms con_cell.update_error
    by (auto simp: housekeeping_def run_bind split: sample_splits stat_result.splits fault.splits)
qed


text \<open>A system in which memory use can no longer be read.\<close>

definition broken_os :: "unit os" where
  "broken_os = demo_os\<lparr>os_read_file := (\<lambda>_. State (\<lambda>w. (Inl ''input/output error'', w)))\<rparr>"


section \<open>Containers that were there first\<close>

definition pod_of :: "PodSandbox list \<Rightarrow> Container \<Rightarrow> PodSandbox option" where
  "pod_of pods ctr = find (\<lambda>p. \<not> gm_has (pod_Annotations p) annRDT \<and> pod_Id p = ctr_PodSandboxId ctr) pods"

definition sync_msg :: "PodSandbox list \<Rightarrow> Container \<Rightarrow> channel" where
  "sync_msg pods ctr = (case pod_of pods ctr of
     None \<Rightarrow> [] | Some p \<Rightarrow> [[(ctr_Id ctr, started_info 2 p (the (pod_Linux p)) ctr)]])"

lemma sync_pods_msg:
  assumes "\<forall>p \<in> set pods. pod_Linux p \<noteq> None" "length q < chanSize"
  shows "sync_pods ctr pods q = (None, q @ sync_msg pods ctr)"
  using assms by (induction pods) (auto simp: sync_msg_def pod_of_def send_def)

lemma sync_msg_in: "[(cid, i)] \<in> set (sync_msg pods ctr) \<longleftrightarrow> ctr_Id ctr = cid \<and>
    (\<exists>p. pod_of pods ctr = Some p \<and> i = started_info 2 p (the (pod_Linux p)) ctr)"
  by (cases "pod_of pods ctr") (auto simp: sync_msg_def)

lemma length_sync_msg: "length (sync_msg pods ctr) \<le> 1"
  by (simp add: sync_msg_def split: option.split)

lemma sync_loop_msgs:
  assumes "\<forall>p \<in> set pods. pod_Linux p \<noteq> None" "length q + length ctrs \<le> chanSize" "distinct (map ctr_Id ctrs)"
    and "set seen \<inter> ctr_Id ` set ctrs = {}"
  shows "sync_loop pods seen ctrs q = (None, q @ concat (map (sync_msg pods) ctrs))"
  using assms
proof (induction ctrs arbitrary: seen q)
  case (Cons ctr ctrs)
  have "length (q @ sync_msg pods ctr) + length ctrs \<le> chanSize" using Cons.prems(2) length_sync_msg [of pods ctr] by simp
  moreover have "sync_pods ctr pods q = (None, q @ sync_msg pods ctr)" using Cons.prems by (intro sync_pods_msg) auto
  moreover have "set (ctr_Id ctr # seen) \<inter> ctr_Id ` set ctrs = {}" using Cons.prems(3,4) by auto
  ultimately show ?case using Cons by auto
qed simp

text \<open>A state from which the messages \<open>ms\<close> were taken off the channel: the containers they add and the goroutines that
  watch them.\<close>

definition drained :: "sys \<Rightarrow> channel \<Rightarrow> sys \<Rightarrow> bool" where
  "drained s ms t = (s_chan t = [] \<and> \<not> s_crashed t \<and> namespaceWhiteList (s_con t) = namespaceWhiteList (s_con s) \<and>
     set (s_workers s) \<subseteq> set (s_workers t) \<and>
     (\<forall>cid. gm_has (containerInfos (s_con t)) cid \<longleftrightarrow> gm_has (containerInfos (s_con s)) cid \<or>
        (\<exists>i. [(cid, i)] \<in> set ms \<and> NameSpace i \<notin> set (namespaceWhiteList (s_con s)))) \<and>
     (\<forall>cid i. [(cid, i)] \<in> set ms \<and> NameSpace i \<notin> set (namespaceWhiteList (s_con s)) \<longrightarrow>
        Housekeeper cid \<in> set (s_workers t)))"

lemma drain_deliveries:
  assumes "\<not> s_crashed s" "s_chan s = ms" "\<forall>d \<in> set ms. \<exists>cid i. d = [(cid, i)] \<and> Operation i = 2"
  shows "\<exists>t v. sys_run S (s, w) (replicate (length ms) Deliver) (t, v) \<and> drained s ms t"
  using assms
proof (induction ms arbitrary: s w)
  case Nil
  then have "drained s [] s" by (simp add: drained_def)
  then show ?case by auto
next
  case (Cons d ms)
  obtain cid i where d: "d = [(cid, i)]" "Operation i = 2" using Cons.prems(3) by auto
  obtain r c ws w' where run: "run_state (processContainerData S d (s_con s)) w = ((r, c, ws), w')"
    by (metis prod.collapse)
  let ?wl = "namespaceWhiteList (s_con s)"
  let ?s = "s\<lparr>s_chan := ms, s_con := c, s_workers := s_workers s @ ws, s_crashed := (r = Some Crash)\<rparr>"
  note single = process_single [OF run [unfolded d(1)]]
  have step: "sys_step S (s, w) Deliver (?s, w')" by (rule sys_step.deliver [OF Cons.prems(1,2) run])
  have c: "c = (if NameSpace i \<in> set ?wl then s_con s else (s_con s)\<lparr>containerInfos := gm_set cid i (containerInfos (s_con s))\<rparr>)"
    "NameSpace i \<notin> set ?wl \<Longrightarrow> Housekeeper cid \<in> set ws" using single(2,3) d(2) by auto
  obtain t v where t: "sys_run S (?s, w') (replicate (length ms) Deliver) (t, v)" "drained ?s ms t"
    using Cons.IH [of ?s w'] Cons.prems single(1) by auto
  have "drained s (d # ms) t" using t(2) c d(1) unfolding drained_def by (cases "NameSpace i \<in> set ?wl") auto
  with step t(1) show ?case by (auto intro: run_cons)
qed

lemma sync_adds:
  "(\<exists>i. [(cid, i)] \<in> set (concat (map (sync_msg pods) ctrs)) \<and> NameSpace i \<notin> wl) \<longleftrightarrow>
     (\<exists>ctr \<in> set ctrs. ctr_Id ctr = cid \<and> (\<exists>p. pod_of pods ctr = Some p \<and> pod_Namespace p \<notin> wl))"
proof -
  have "[(cid, i)] \<in> set (concat (map (sync_msg pods) ctrs)) \<longleftrightarrow> (\<exists>ctr \<in> set ctrs. \<exists>p. ctr_Id ctr = cid \<and>
      pod_of pods ctr = Some p \<and> i = started_info 2 p (the (pod_Linux p)) ctr)" for i
    by (auto simp: sync_msg_in)
  moreover have "NameSpace (started_info 2 p x ctr) = pod_Namespace p" for p x ctr by (simp add: started_info_def)
  ultimately show ?thesis by metis
qed

text \<open>C18: containers that were there before the exporter are monitored. When the runtime reports its pods and at most 100
  containers, delivering the messages makes known exactly the containers that belong to a pod without the RDT
  annotation and outside the white-listed namespaces, each watched by a sampling loop.\<close>

theorem synchronized_containers_monitored:
  assumes "\<forall>p \<in> set pods. pod_Linux p \<noteq> None" "distinct (map ctr_Id ctrs)" "length ctrs \<le> 100"
  shows "\<exists>n t v. sys_run S (new_sys (NewContainerCollector whiteList scans flag), w) (Synced pods ctrs # replicate n Deliver) (t, v) \<and>
    s_chan t = [] \<and> (\<forall>cid. gm_has (containerInfos (s_con t)) cid \<longleftrightarrow>
      (\<exists>ctr \<in> set ctrs. ctr_Id ctr = cid \<and> (\<exists>p. pod_of pods ctr = Some p \<and>
        pod_Namespace p \<notin> set (namespaceWhiteList (NewContainerCollector whiteList scans flag))))) \<and>
    (\<forall>cid. gm_has (containerInfos (s_con t)) cid \<longrightarrow> Housekeeper cid \<in> set (s_workers t))"
proof -
  let ?c = "NewContainerCollector whiteList scans flag" and ?ms = "concat (map (sync_msg pods) ctrs)"
  let ?s = "(new_sys ?c)\<lparr>s_chan := ?ms\<rparr>"
  have "Synchronize pods ctrs [] = (None, ?ms)"
    using assms sync_loop_msgs [of pods "[]" ctrs "[]"] by (simp add: Synchronize_def chanSize_def)
  then have step: "sys_step S (new_sys ?c, w) (Synced pods ctrs) (?s, w)"
    using sys_step.synced [of "new_sys ?c" S w pods ctrs] by (simp add: queued_def new_sys_def)
  have "\<forall>d \<in> set ?ms. \<exists>cid i. d = [(cid, i)] \<and> Operation i = 2"
    by (auto simp: sync_msg_def started_info_def split: option.splits)
  then obtain t v where t: "sys_run S (?s, w) (replicate (length ?ms) Deliver) (t, v)" "drained ?s ?ms t"
    using drain_deliveries [of ?s ?ms S w] by (auto simp: new_sys_def)
  have new: "s_con ?s = ?c" "\<not> gm_has (containerInfos ?c) cid" for cid
    by (simp_all add: new_sys_def NewContainerCollector_def gm_has_def)
  have known: "gm_has (containerInfos (s_con t)) cid \<longleftrightarrow> (\<exists>i. [(cid, i)] \<in> set ?ms \<and> NameSpace i \<notin> set (namespaceWhiteList ?c))"
    and hk: "(\<exists>i. [(cid, i)] \<in> set ?ms \<and> NameSpace i \<notin> set (namespaceWhiteList ?c)) \<Longrightarrow> Housekeeper cid \<in> set (s_workers t)"
    and empty: "s_chan t = []" for cid
    using t(2) new unfolding drained_def by (auto simp del: set_concat)
  show ?thesis
  proof (intro exI conjI allI)
    show "sys_run S (new_sys ?c, w) (Synced pods ctrs # replicate (length ?ms) Deliver) (t, v)" by (rule run_cons [OF step t(1)])
    show "s_chan t = []" by (rule empty)
    show "gm_has (containerInfos (s_con t)) cid \<longleftrightarrow> (\<exists>ctr \<in> set ctrs. ctr_Id ctr = cid \<and>
        (\<exists>p. pod_of pods ctr = Some p \<and> pod_Namespace p \<notin> set (namespaceWhiteList ?c)))" for cid
      unfolding known by (rule sync_adds)
    show "gm_has (containerInfos (s_con t)) cid \<longrightarrow> Housekeeper cid \<in> set (s_workers t)" for cid
      unfolding known by (rule impI) (rule hk)
  qed
qed

theorem synchronized_containers_monitored_witness:
  "\<exists>n t v. sys_run demo_os (new_sys demo_con, ()) (Synced [demo_pod] [demo_ctr] # replicate n Deliver) (t, v) \<and>
    gm_has (containerInfos (s_con t)) ''x'' \<and> Housekeeper ''x'' \<in> set (s_workers t)"
proof -
  have "pod_of [demo_pod] demo_ctr = Some demo_pod" "pod_Namespace demo_pod \<notin> set (namespaceWhiteList demo_con)"
    "ctr_Id demo_ctr = ''x''" by code_simp+
  moreover have "pod_Linux demo_pod \<noteq> None" by (simp add: demo_pod_def)
  moreover obtain n t v where "sys_run demo_os (new_sys demo_con, ()) (Synced [demo_pod] [demo_ctr] # replicate n Deliver) (t, v)"
    "\<forall>cid. gm_has (containerInfos (s_con t)) cid \<longleftrightarrow> (\<exists>ctr \<in> set [demo_ctr]. ctr_Id ctr = cid \<and>
      (\<exists>p. pod_of [demo_pod] ctr = Some p \<and> pod_Namespace p \<notin> set (namespaceWhiteList demo_con)))"
    "\<forall>cid. gm_has (containerInfos (s_con t)) cid \<longrightarrow> Housekeeper cid \<in> set (s_workers t)"
    using synchronized_containers_monitored [of "[demo_pod]" "[demo_ctr]" demo_os "''kube-system''" 10 "''memory''" "()"] calculation(4) by auto
  ultimately show ?thesis by (intro exI [of _ n] exI [of _ t] exI [of _ v]) simp
qed

end
