(* ===== verification/Mbx_Registry.thy ===== *)
theory Mbx_Registry
  imports Mbx_System
begin

text \<open>
  The registry of collectors (\<open>collector/collector.go\<close>) and the HTTP handler of the exporter (\<open>cmd/main.go\<close>): which
  collectors the flags enable, how a scrape selects them with \<open>collect[]\<close> filters, and what it returns.
\<close>

section \<open>Registration and flags\<close>

datatype collector = ClassCollector classCollector | NodeCollector nodeCollctor | ContainerCollector containerCollector

text \<open>The flags the collectors read; a nil pointer to a flag is \<open>None\<close>.\<close>

record flags =
  f_nodeName :: string
  f_namespaceWhiteList :: string
  f_monTimes :: int
  f_containerMetrics :: "string option"
  f_classMetrics :: "string option"
  f_nodeMetrics :: "string option"

text \<open>A collector is created once and shared: a map of collectors holds addresses, \<open>heap\<close> the collectors created so far.\<close>

type_synonym addr = nat

record registry =
  collectorState :: "(string, bool) gomap"
  collectorMetrics :: "(string, string) gomap"
  initiatedCollectors :: "(string, addr) gomap"
  heap :: "collector list"

definition registerCollector :: "string \<Rightarrow> bool \<Rightarrow> registry \<Rightarrow> registry" where
  "registerCollector name isDefaultEnabled r = r\<lparr>collectorState := gm_set name isDefaultEnabled (collectorState r)\<rparr>"

text \<open>The registry after the \<open>init\<close> functions of the three files, which run in the order of the file names.\<close>

definition registered :: registry where
  "registered = registerCollector nodeCollectorSubsystem False
     (registerCollector containerCollectorSubsystem True
       (registerCollector classCollectorSubsystem False
         \<lparr>collectorState = [], collectorMetrics = [], initiatedCollectors = [], heap = []\<rparr>))"

text \<open>Enabling one collector by its flag.\<close>

definition enable :: "string \<Rightarrow> string option \<Rightarrow> registry \<Rightarrow> registry" where
  "enable name flag r = (if flag = None \<or> flag = Some noMetrics
     then r\<lparr>collectorMetrics := gm_set name noMetrics (collectorMetrics r), collectorState := gm_set name False (collectorState r)\<rparr>
     else r\<lparr>collectorMetrics := gm_set name (the flag) (collectorMetrics r), collectorState := gm_set name True (collectorState r)\<rparr>)"

definition needs_plugin :: "string option \<Rightarrow> bool" where
  "needs_plugin flag = (case flag of None \<Rightarrow> False
     | Some f \<Rightarrow> f = allMetrics \<or> str_contains f ''mb'' \<or> str_contains f ''llc'')"

fun parse_loop :: "flags \<Rightarrow> string list \<Rightarrow> bool \<times> registry \<Rightarrow> bool \<times> registry" where
  "parse_loop args [] st = st"
| "parse_loop args (name # names) (need, r) =
     (let (need1, r1) = (if name = containerCollectorSubsystem
             then (need \<or> needs_plugin (f_containerMetrics args), enable name (f_containerMetrics args) r) else (need, r));
          r2 = (if name = classCollectorSubsystem then enable name (f_classMetrics args) r1 else r1);
          r3 = (if name = nodeCollectorSubsystem then enable name (f_nodeMetrics args) r2 else r2) in
      parse_loop args names (need1, r3))"

definition ParseCollectorMetrics :: "flags \<Rightarrow> registry \<Rightarrow> bool \<times> registry" where
  "ParseCollectorMetrics args r = parse_loop args (gm_keys (collectorState r)) (False, r)"

text \<open>The registered factories; dereferencing a nil flag panics.\<close>

definition factory :: "flags \<Rightarrow> string \<Rightarrow> fault + collector" where
  "factory args name =
     (if name = classCollectorSubsystem then
        (case f_classMetrics args of None \<Rightarrow> Inl Crash | Some f \<Rightarrow> Inr (ClassCollector (NewClassCollector (f_nodeName args) f)))
      else if name = nodeCollectorSubsystem then
        (case f_nodeMetrics args of None \<Rightarrow> Inl Crash | Some f \<Rightarrow> Inr (NodeCollector (NewNodeCollector (f_nodeName args) f)))
      else if name = containerCollectorSubsystem then
        (case f_containerMetrics args of None \<Rightarrow> Inl Crash
         | Some f \<Rightarrow> Inr (ContainerCollector (NewContainerCollector (f_namespaceWhiteList args) (f_monTimes args) f)))
      else Inl Crash)"

section \<open>Selecting collectors\<close>

fun check_filters :: "registry \<Rightarrow> string list \<Rightarrow> fault option" where
  "check_filters r [] = None"
| "check_filters r (flt # filters) = (case gm_get (collectorState r) flt of
     None \<Rightarrow> Some (Err (MissingCollector flt))
   | Some enabled \<Rightarrow> if \<not> enabled then Some (Err (DisabledCollector flt)) else check_filters r filters)"

fun select_loop :: "flags \<Rightarrow> string list \<Rightarrow> (string \<times> bool) list \<Rightarrow> (string, addr) gomap \<Rightarrow> registry \<Rightarrow>
    (fault + (string, addr) gomap) \<times> registry" where
  "select_loop args filters [] collectors r = (Inr collectors, r)"
| "select_loop args filters ((key, enabled) # es) collectors r =
     (if \<not> enabled \<or> (filters \<noteq> [] \<and> key \<notin> set filters) then select_loop args filters es collectors r
      else case gm_get (initiatedCollectors r) key of
        Some a \<Rightarrow> select_loop args filters es (gm_set key a collectors) r
      | None \<Rightarrow> (case factory args key of
          Inl e \<Rightarrow> (Inl e, r)
        | Inr c \<Rightarrow> (let a = length (heap r) in
            select_loop args filters es (gm_set key a collectors)
              (r\<lparr>initiatedCollectors := gm_set key a (initiatedCollectors r), heap := heap r @ [c]\<rparr>))))"

definition NewCollector :: "flags \<Rightarrow> string list \<Rightarrow> registry \<Rightarrow> (fault + (string, addr) gomap) \<times> registry" where
  "NewCollector args filters r = (case check_filters r filters of
     Some e \<Rightarrow> (Inl e, r)
   | None \<Rightarrow> select_loop args filters (collectorState r) [] r)"

section \<open>Scrapes\<close>

fun Update :: "collector \<Rightarrow> metric list \<times> fault option" where
  "Update (ClassCollector c) = class_Update c"
| "Update (NodeCollector c) = node_Update c"
| "Update (ContainerCollector c) = con_Update c"

text \<open>\<open>execute\<close>: the gauges of a collector and whether it succeeded; \<open>None\<close> for a panic, which ends the process.\<close>

definition execute :: "string \<Rightarrow> collector \<Rightarrow> metric list option" where
  "execute name c = (case Update c of
     (ms, None) \<Rightarrow> Some (ms @ [gauge scrapeSuccessDesc (Fin 1) [name]])
   | (ms, Some (Err e)) \<Rightarrow> Some (ms @ [gauge scrapeSuccessDesc (Fin 0) [name]])
   | (ms, Some Crash) \<Rightarrow> None)"

text \<open>\<open>Collect\<close> runs the collectors in goroutines of their own and waits for all; the order of the list is that of the run.\<close>

fun Collect :: "collector list \<Rightarrow> (string \<times> addr) list \<Rightarrow> metric list option" where
  "Collect h [] = Some []"
| "Collect h ((name, a) # cs) = (case (execute name (h ! a), Collect h cs) of
     (Some ms, Some ms') \<Rightarrow> Some (ms @ ms') | _ \<Rightarrow> None)"

text \<open>\<open>ServeHTTP\<close>: without filters the handler prepared at the start answers, over the collectors \<open>unfiltered\<close>; otherwise a
  new one over the selected collectors, or status 400. A panic in a collector's goroutine ends the process, one in the
  handler only the request.\<close>

datatype scrape = Scraped "metric list" | BadRequest mbx_error | Aborted | Died

definition scraped :: "(string, addr) gomap \<Rightarrow> registry \<Rightarrow> scrape" where
  "scraped cs r = (case Collect (heap r) cs of None \<Rightarrow> Died | Some ms \<Rightarrow> Scraped ms)"

definition ServeHTTP :: "flags \<Rightarrow> (string, addr) gomap \<Rightarrow> string list \<Rightarrow> registry \<Rightarrow> scrape \<times> registry" where
  "ServeHTTP args unfiltered filters r =
     (if filters = [] then (scraped unfiltered r, r)
      else case NewCollector args filters r of
        (Inl (Err e), r') \<Rightarrow> (BadRequest e, r')
      | (Inl Crash, r') \<Rightarrow> (Aborted, r')
      | (Inr cs, r') \<Rightarrow> (scraped cs r', r'))"

section \<open>Which collectors a scrape runs\<close>

lemma check_filters_None: "check_filters r filters = None \<longleftrightarrow> (\<forall>f \<in> set filters. gm_get (collectorState r) f = Some True)"
  by (induction filters) (auto split: option.split)

lemma check_filters_Err: "check_filters r filters = Some e \<Longrightarrow> \<exists>x. e = Err x"
  by (induction filters) (auto split: option.splits if_splits)

definition selected :: "registry \<Rightarrow> string list \<Rightarrow> string \<Rightarrow> bool" where
  "selected r filters k = (gm_get (collectorState r) k = Some True \<and> (filters = [] \<or> k \<in> set filters))"

text \<open>A registry that grew from \<open>r\<close>: the collectors of \<open>r\<close> are still there and where they were.\<close>

definition grown :: "registry \<Rightarrow> registry \<Rightarrow> bool" where
  "grown r r' = (collectorState r' = collectorState r \<and> prefix (heap r) (heap r') \<and>
     (\<forall>k a. gm_get (initiatedCollectors r) k = Some a \<longrightarrow> gm_get (initiatedCollectors r') k = Some a))"

lemma grown_refl: "grown r r"
  by (simp add: grown_def)

lemma grown_trans: "grown r r' \<Longrightarrow> grown r' r'' \<Longrightarrow> grown r r''"
  by (auto simp: grown_def)

lemma grown_alloc:
  "gm_get (initiatedCollectors r) k = None \<Longrightarrow> grown r (r\<lparr>initiatedCollectors := gm_set k a (initiatedCollectors r), heap := heap r @ [c]\<rparr>)"
  by (auto simp: grown_def)

lemma select_loop_result:
  assumes "gm_wf es" "\<forall>k. (k, True) \<in> set es \<longrightarrow> (\<exists>c. factory args k = Inr c)"
    and "\<forall>k a. gm_get cs k = Some a \<longrightarrow> gm_get (initiatedCollectors r) k = Some a"
  shows "\<exists>cs' r'. select_loop args filters es cs r = (Inr cs', r') \<and> grown r r' \<and>
    (\<forall>k a. gm_get cs' k = Some a \<longrightarrow> gm_get (initiatedCollectors r') k = Some a) \<and>
    (\<forall>k. gm_has cs' k \<longleftrightarrow> gm_has cs k \<or> ((k, True) \<in> set es \<and> (filters = [] \<or> k \<in> set filters)))"
  using assms
proof (induction es arbitrary: cs r)
  case Nil
  then show ?case by (auto simp: grown_refl)
next
  case (Cons e es)
  obtain key en where e: "e = (key, en)" by (cases e)
  have es: "gm_wf es" "\<forall>k. (k, True) \<in> set es \<longrightarrow> (\<exists>c. factory args k = Inr c)" using Cons.prems(1,2) by (auto simp: gm_wf_Cons)
  show ?case
  proof (cases "\<not> en \<or> (filters \<noteq> [] \<and> key \<notin> set filters)")
    case True
    then show ?thesis using Cons.IH [OF es Cons.prems(3)] e by auto
  next
    case run: False
    show ?thesis
    proof (cases "gm_get (initiatedCollectors r) key")
      case (Some a)
      then have "\<forall>k x. gm_get (gm_set key a cs) k = Some x \<longrightarrow> gm_get (initiatedCollectors r) k = Some x" using Cons.prems(3) by auto
      from Cons.IH [OF es this] Some run e show ?thesis by auto
    next
      case None
      let ?a = "length (heap r)"
      obtain c where c: "factory args key = Inr c" using Cons.prems(2) e run by auto
      let ?r = "r\<lparr>initiatedCollectors := gm_set key ?a (initiatedCollectors r), heap := heap r @ [c]\<rparr>"
      have "\<forall>k x. gm_get (gm_set key ?a cs) k = Some x \<longrightarrow> gm_get (initiatedCollectors ?r) k = Some x" using Cons.prems(3) by auto
      from Cons.IH [OF es this] c None run e show ?thesis by (auto simp: Let_def intro: grown_trans [OF grown_alloc [OF None]])
    qed
  qed
qed

text \<open>C22: the collectors of a scrape. A scrape that names an unknown or disabled collector is refused and changes nothing.
  Any other runs exactly the enabled collectors it names, or all enabled ones if it names none; collectors that were
  created before are reused, so that their goroutines are started once.\<close>

theorem scrape_selects_collectors:
  assumes "gm_wf (collectorState r)" "\<forall>k. gm_get (collectorState r) k = Some True \<longrightarrow> (\<exists>c. factory args k = Inr c)"
  shows "if \<forall>f \<in> set filters. gm_get (collectorState r) f = Some True
    then \<exists>cs r'. NewCollector args filters r = (Inr cs, r') \<and> (\<forall>k. gm_has cs k \<longleftrightarrow> selected r filters k) \<and>
      collectorState r' = collectorState r \<and> prefix (heap r) (heap r') \<and>
      (\<forall>k a. gm_get (initiatedCollectors r) k = Some a \<longrightarrow> gm_get (initiatedCollectors r') k = Some a) \<and>
      (\<forall>k a. gm_get cs k = Some a \<longrightarrow> gm_get (initiatedCollectors r') k = Some a)
    else \<exists>e. NewCollector args filters r = (Inl (Err e), r)"
proof (cases "\<forall>f \<in> set filters. gm_get (collectorState r) f = Some True")
  case True
  have ent: "(k, True) \<in> set (collectorState r) \<longleftrightarrow> gm_get (collectorState r) k = Some True" for k
    using assms(1) by (auto intro: gm_get_eq gm_get_in_set)
  obtain cs r' where "select_loop args filters (collectorState r) [] r = (Inr cs, r')" "grown r r'"
    "\<forall>k a. gm_get cs k = Some a \<longrightarrow> gm_get (initiatedCollectors r') k = Some a"
    "\<forall>k. gm_has cs k \<longleftrightarrow> (k, True) \<in> set (collectorState r) \<and> (filters = [] \<or> k \<in> set filters)"
    using select_loop_result [OF assms(1), of args "[]" r filters] assms(2) ent by (auto simp: gm_has_def)
  then show ?thesis using True check_filters_None [of r filters] by (auto simp: NewCollector_def grown_def selected_def ent)
next
  case False
  then obtain e where "check_filters r filters = Some e" using check_filters_None [of r filters] by auto
  with False check_filters_Err [OF this] show ?thesis by (auto simp: NewCollector_def)
qed

definition demo_flags :: flags where
  "demo_flags = \<lparr>f_nodeName = ''n'', f_namespaceWhiteList = [], f_monTimes = 10, f_containerMetrics = Some ''all'',
     f_classMetrics = Some ''none'', f_nodeMetrics = Some ''none''\<rparr>"

theorem scrape_selects_collectors_witness:
  "(\<exists>cs r'. NewCollector demo_flags [] registered = (Inr cs, r') \<and> gm_has cs ''container'' \<and> \<not> gm_has cs ''node'') \<and>
   (\<exists>e. NewCollector demo_flags [''node''] registered = (Inl (Err e), registered))"
proof -
  have wf: "gm_wf (collectorState registered)" by code_simp
  have st: "collectorState registered = [(''rdtClass'', False), (''container'', True), (''node'', False)]" by code_simp
  have "factory demo_flags ''container'' = Inr (ContainerCollector (NewContainerCollector [] 10 ''all''))" by code_simp
  then have f: "\<forall>k. gm_get (collectorState registered) k = Some True \<longrightarrow> (\<exists>c. factory demo_flags k = Inr c)"
    by (auto simp: st gm_simps)
  have "selected registered [] ''container''" "\<not> selected registered [] ''node''" by code_simp+
  then show ?thesis using scrape_selects_collectors [OF wf f, of "[]"] scrape_selects_collectors [OF wf f, of "[''node'']"]
    by (auto simp: st gm_simps)
qed

text \<open>A collector that returns has succeeded: none of the three reports an error of its sampling.\<close>

lemma scrape_success_always_one:
  assumes "execute name c = Some ms"
  shows "last ms = gauge scrapeSuccessDesc (Fin 1) [name]"
proof -
  have "snd (Update c) = None \<or> snd (Update c) = Some Crash"
    by (cases c) (auto simp: class_Update_def class_emit_crash node_Update_def con_Update_def Let_def split: option.split)
  with assms show ?thesis by (auto simp: execute_def split: prod.splits option.splits fault.splits)
qed

section \<open>Well-formed gauges\<close>

definition well_formed :: "metric \<Rightarrow> bool" where
  "well_formed m = (length (m_labels m) = length (d_variableLabels (m_desc m)))"

lemmas gauge_defs = well_formed_def gauge_def NewDesc_def desc_defs

lemma class_gauges_wf: "\<forall>m \<in> set (class_gauges node cid p). well_formed m"
  by (auto simp: class_gauges_def gauge_defs split: option.split)

lemma class_emit_wf: "\<forall>m \<in> set (fst (class_emit node es)). well_formed m"
  by (induction node es rule: class_emit.induct) (auto simp: class_gauges_wf split: prod.splits)

lemma con_gauges_wf: "\<forall>m \<in> set (con_gauges c cid p). well_formed m"
  by (auto simp: con_gauges_def gauge_defs labels_of_def Let_def split: option.split)

lemma Update_wf: "\<forall>m \<in> set (fst (Update c)). well_formed m"
proof (cases c)
  case (NodeCollector n)
  then show ?thesis by (auto simp: node_Update_def gauge_defs Let_def split: option.split)
qed (auto simp: class_Update_def class_emit_wf con_Update_def con_gauges_wf)

lemma execute_wf: "execute name c = Some ms \<Longrightarrow> \<forall>m \<in> set ms. well_formed m"
  using Update_wf [of c] by (auto simp: execute_def gauge_defs split: prod.splits option.splits fault.splits)

text \<open>C30: every gauge fits its description. All gauges of a scrape, of whatever collectors and with whatever results, carry
  as many label values as their description has labels, so that creating them does not panic.\<close>

theorem gauges_fit_descriptions:
  assumes "Collect h cs = Some ms" "m \<in> set ms"
  shows "length (m_labels m) = length (d_variableLabels (m_desc m))"
proof -
  have "\<forall>m \<in> set ms. well_formed m"
    using assms(1)
  proof (induction cs arbitrary: ms)
    case (Cons nc cs)
    then show ?case by (cases nc) (auto dest!: execute_wf split: option.splits)
  qed simp
  with assms(2) show ?thesis by (simp add: well_formed_def)
qed

theorem gauges_fit_descriptions_witness:
  "\<exists>ms m. Collect [ContainerCollector (s_con demo_sampled)] [(''container'', 0)] = Some ms \<and> m \<in> set ms \<and>
    length (m_labels m) = length (d_variableLabels (m_desc m))"
proof -
  let ?m = "gauge scrapeSuccessDesc (Fin 1) [''container'']"
  obtain ms where ms: "Collect [ContainerCollector (s_con demo_sampled)] [(''container'', 0)] = Some ms" "?m \<in> set ms"
    by (simp add: execute_def con_Update_def)
  from gauges_fit_descriptions [OF ms] ms show ?thesis by blast
qed

section \<open>Hooks and monitoring\<close>

lemma sublist_at_separator: "c \<notin> set xs \<Longrightarrow> sublist xs (ys @ c # zs) \<longleftrightarrow> sublist xs ys \<or> sublist xs zs"
proof -
  assume c: "c \<notin> set xs"
  have pre: "prefix us (c # zs) \<Longrightarrow> c \<notin> set us \<Longrightarrow> us = []" for us by (cases us) auto
  have "sublist xs (c # zs) \<longleftrightarrow> sublist xs zs" using pre [of xs] c by (auto simp: sublist_Cons_right)
  moreover have "sublist xs ys" if "xs = us @ vs" "suffix us ys" "prefix vs (c # zs)" for us vs
    using pre [of vs] that c by (auto intro: suffix_imp_sublist)
  ultimately show ?thesis by (auto simp: sublist_append)
qed

lemma split_go_sublist:
  "c \<notin> set sub \<Longrightarrow> (\<exists>p \<in> set (split_go [c] 0 acc s). sublist sub p) \<longleftrightarrow> sublist sub (rev acc @ s)"
proof (induction s arbitrary: acc)
  case (Cons x s)
  then show ?case using Cons.IH [of "[]"] Cons.IH [of "x # acc"] sublist_at_separator [OF Cons.prems, of "rev acc" s] by (cases "x = c") auto
qed simp

text \<open>A text without the separator occurs in a list iff it occurs in one of its parts.\<close>

lemma str_contains_split: "c \<notin> set sub \<Longrightarrow> str_contains s sub \<longleftrightarrow> (\<exists>p \<in> set (str_split s [c]). str_contains p sub)"
  using split_go_sublist [of c sub "[]" s] by (simp add: str_contains_sublist str_split_def)

lemma parse_loop_need:
  "fst (parse_loop args names (need, r)) \<longleftrightarrow> need \<or> containerCollectorSubsystem \<in> set names \<and> needs_plugin (f_containerMetrics args)"
  by (induction names arbitrary: need r) (auto simp: Let_def)

text \<open>C29: hooks are injected when they are needed. For a flag that is \<open>all\<close>, \<open>none\<close> or a list of the documented metrics, the
  plugin is told to inject the hooks that create monitoring groups iff the container collector reads them.\<close>

theorem hooks_injected_iff_groups_read:
  assumes "f_containerMetrics args = Some f" "gm_has (collectorState r) containerCollectorSubsystem"
    and "f = allMetrics \<or> f = noMetrics \<or> set (str_split f '','') \<subseteq> set allContainerMetrics"
  shows "fst (ParseCollectorMetrics args r) \<longleftrightarrow> isNeedCollectMbLLc (metrics_of_flag allContainerMetrics f)"
proof -
  have need: "fst (ParseCollectorMetrics args r) \<longleftrightarrow> needs_plugin (Some f)"
    using assms(1,2) by (simp add: ParseCollectorMetrics_def parse_loop_need gm_has_keys)
  have all: "needs_plugin (Some allMetrics)" "isNeedCollectMbLLc (metrics_of_flag allContainerMetrics allMetrics)"
    "\<not> needs_plugin (Some noMetrics)" "\<not> isNeedCollectMbLLc (metrics_of_flag allContainerMetrics noMetrics)" by code_simp+
  have known: "p \<in> set allContainerMetrics \<Longrightarrow> (str_contains p ''mb'' \<longleftrightarrow> p = ''mb'') \<and> (str_contains p ''llc'' \<longleftrightarrow> p = ''llc'')" for p
    by (auto simp: allContainerMetrics_def str_contains_def)
  show ?thesis
  proof (cases "f = allMetrics \<or> f = noMetrics")
    case False
    then have sub: "set (str_split f '','') \<subseteq> set allContainerMetrics" using assms(3) by blast
    then have "(\<exists>p \<in> set (str_split f '',''). str_contains p ''mb'') \<longleftrightarrow> ''mb'' \<in> set (str_split f '','')"
      "(\<exists>p \<in> set (str_split f '',''). str_contains p ''llc'') \<longleftrightarrow> ''llc'' \<in> set (str_split f '','')"
      using known by blast+
    then have "needs_plugin (Some f) \<longleftrightarrow> ''mb'' \<in> set (str_split f '','') \<or> ''llc'' \<in> set (str_split f '','')"
      using False str_contains_split [of "CHR '',''" "''mb''" f] str_contains_split [of "CHR '',''" "''llc''" f]
      by (simp add: needs_plugin_def)
    with need False show ?thesis by (simp add: isNeedCollectMbLLc_def metrics_of_flag_def)
  qed (use need all in auto)
qed

theorem hooks_injected_iff_groups_read_witness:
  "fst (ParseCollectorMetrics (demo_flags\<lparr>f_containerMetrics := Some ''cpu,llc''\<rparr>) registered)
     \<longleftrightarrow> isNeedCollectMbLLc (metrics_of_flag allContainerMetrics ''cpu,llc'')"
proof (rule hooks_injected_iff_groups_read)
  show "gm_has (collectorState registered) containerCollectorSubsystem" by code_simp
  show "''cpu,llc'' = allMetrics \<or> ''cpu,llc'' = noMetrics \<or> set (str_split ''cpu,llc'' '','') \<subseteq> set allContainerMetrics" by code_simp
qed simp

end
