(* ===== verification/Mbx_Main.thy ===== *)
theory Mbx_Main
  imports Mbx_Registry
begin

text \<open>
  The exporter as a process (\<open>cmd/main.go\<close>): start-up, the set-up of the NRI plugin (\<open>Run\<close> of \<open>plugin/hook-injector.go\<close>), and the
  transition system of everything that runs afterwards: the callbacks of the plugin, scrapes, the loops that the
  \<open>Start\<close> functions of the collectors launch, and the goroutines that watch containers. Rounds of loops, callbacks
  and scrapes are atomic steps that interleave freely; pauses are not modelled.
\<close>

section \<open>The plugin\<close>

record Plugin =
  PluginName :: string
  PluginIdx :: string
  DisableWatch :: bool

text \<open>The NRI stub and the hook manager; \<open>hooks_Monitor\<close> gives the first message of the monitoring goroutine.\<close>

record ('w, 's, 'm) nri =
  OverrideDir :: string
  stub_New :: "(string \<times> string) list \<Rightarrow> 'w \<Rightarrow> (go_error + 's) \<times> 'w"
  hooks_New :: "string list \<Rightarrow> 'w \<Rightarrow> (go_error + 'm) \<times> 'w"
  MkdirAll :: "string \<Rightarrow> 'w \<Rightarrow> go_error option \<times> 'w"
  hooks_Monitor :: "'m \<Rightarrow> 'w \<Rightarrow> go_error option \<times> 'w"
  stub_Run :: "'s \<Rightarrow> 'w \<Rightarrow> go_error option \<times> 'w"

text \<open>The directories are paths without characters that \<open>%q\<close> escapes.\<close>

fun mkdir_loop :: "('w, 's, 'm) nri \<Rightarrow> string list \<Rightarrow> 'w \<Rightarrow> go_error option \<times> 'w" where
  "mkdir_loop N [] w = (None, w)"
| "mkdir_loop N (dir # dirs) w = (case MkdirAll N dir w of
     (Some err, w) \<Rightarrow> (Some (''failed to create directory '' @ [CHR 0x22] @ dir @ [CHR 0x22] @ '': '' @ err), w)
   | (None, w) \<Rightarrow> mkdir_loop N dirs w)"

definition watch_dirs :: "('w, 's, 'm) nri \<Rightarrow> bool \<Rightarrow> 'm \<Rightarrow> string list \<Rightarrow> 'w \<Rightarrow> go_error option \<times> 'w" where
  "watch_dirs N disabled mgr dirs w =
     (if disabled then (None, w)
      else case mkdir_loop N dirs w of
        (Some err, w) \<Rightarrow> (Some err, w)
      | (None, w) \<Rightarrow> (case hooks_Monitor N mgr w of
          (Some err, w) \<Rightarrow> (Some (''failed to monitor hook directories: '' @ err), w)
        | (None, w) \<Rightarrow> (None, w)))"

definition stub_options :: "Plugin \<Rightarrow> (string \<times> string) list" where
  "stub_options p = (if PluginName p \<noteq> [] then [(''WithPluginName'', PluginName p)] else []) @
     (if PluginIdx p \<noteq> [] then [(''WithPluginIdx'', PluginIdx p)] else [])"

text \<open>\<open>Run\<close>: its error, the hook manager the callbacks find, and the outside world. The argument \<open>isNeed\<close>, which
  \<open>CreateContainer\<close> tests, is stored before anything else.\<close>

definition plugin_Run :: "('w, 's, 'm) nri \<Rightarrow> Plugin \<Rightarrow> 'w \<Rightarrow> (go_error option \<times> 'm option) \<times> 'w" where
  "plugin_Run N p w = (case stub_New N (stub_options p) w of
     (Inl err, w) \<Rightarrow> ((Some (''failed to create plugin stub: '' @ err), None), w)
   | (Inr st, w) \<Rightarrow> (let dirs = [OverrideDir N] in case hooks_New N dirs w of
       (Inl err, w) \<Rightarrow> ((Some (''failed to set up hook manager: '' @ err), None), w)
     | (Inr mgr, w) \<Rightarrow> (case watch_dirs N (DisableWatch p) mgr dirs w of
         (Some err, w) \<Rightarrow> ((Some err, Some mgr), w)
       | (None, w) \<Rightarrow> (case stub_Run N st w of
           (Some err, w) \<Rightarrow> ((Some (''plugin exited with error '' @ err), Some mgr), w)
         | (None, w) \<Rightarrow> ((None, Some mgr), w)))))"

text \<open>A plugin that ran to its end had a hook manager.\<close>

lemma plugin_Run_manager: "plugin_Run N p w = ((None, mgr), w') \<Longrightarrow> mgr \<noteq> None"
  by (auto simp: plugin_Run_def Let_def split: prod.splits sum.splits option.splits)

section \<open>Handlers and goroutines\<close>

text \<open>A goroutine names the collector it works on.\<close>

datatype routine = ClassScanner addr | ClassSampler addr | NodeSampler addr | Receiver addr | Watcher addr worker

definition class_Start :: "addr \<Rightarrow> classCollector \<Rightarrow> routine list" where
  "class_Start a c = (if isNeedCollectMbLLc (class_metrics c) then [ClassScanner a] else []) @ [ClassSampler a]"

definition node_Start :: "addr \<Rightarrow> nodeCollctor \<Rightarrow> routine list" where
  "node_Start a c = [NodeSampler a]"

definition con_Start :: "addr \<Rightarrow> containerCollector \<Rightarrow> routine list" where
  "con_Start a c = [Receiver a]"

fun Start :: "addr \<Rightarrow> collector \<Rightarrow> routine list" where
  "Start a (ClassCollector c) = class_Start a c"
| "Start a (NodeCollector c) = node_Start a c"
| "Start a (ContainerCollector c) = con_Start a c"

text \<open>The goroutines of the collectors that were created between two states of the registry: each factory starts its own.\<close>

definition launched :: "registry \<Rightarrow> registry \<Rightarrow> routine list" where
  "launched r r' = concat (map (\<lambda>a. Start a (heap r' ! a)) [length (heap r)..<length (heap r')])"

text \<open>\<open>register\<close> is the registration with a new registry of the Prometheus client. A handler gathers from the collectors, and
  from the registry of the exporter's own metrics if these are included.\<close>

record metrics_handler =
  mh_collectors :: "(string, addr) gomap"
  mh_exporterMetrics :: bool
  mh_maxRequests :: int

record exporter_handler =
  includeExporterMetrics :: bool
  maxRequests :: int
  unfilteredHandler :: metrics_handler

datatype handler_error = NotCreated fault | NotRegistered go_error

definition innerHandler :: "((string, addr) gomap \<Rightarrow> go_error option) \<Rightarrow> flags \<Rightarrow> bool \<Rightarrow> int \<Rightarrow> string list \<Rightarrow> registry \<Rightarrow>
    (handler_error + metrics_handler) \<times> registry" where
  "innerHandler register args include maxReq filters r = (case NewCollector args filters r of
     (Inl e, r') \<Rightarrow> (Inl (NotCreated e), r')
   | (Inr cs, r') \<Rightarrow> (case register cs of
       Some err \<Rightarrow> (Inl (NotRegistered err), r')
     | None \<Rightarrow> (Inr \<lparr>mh_collectors = cs, mh_exporterMetrics = include, mh_maxRequests = maxReq\<rparr>, r')))"

text \<open>\<open>newHandler\<close> panics with every error.\<close>

definition newHandler :: "((string, addr) gomap \<Rightarrow> go_error option) \<Rightarrow> flags \<Rightarrow> bool \<Rightarrow> int \<Rightarrow> registry \<Rightarrow> exporter_handler go \<times> registry" where
  "newHandler register args include maxReq r = (case innerHandler register args include maxReq [] r of
     (Inl e, r') \<Rightarrow> (Panic, r')
   | (Inr h, r') \<Rightarrow> (Ret \<lparr>includeExporterMetrics = include, maxRequests = maxReq, unfilteredHandler = h\<rparr>, r'))"

section \<open>The process\<close>

record exporter =
  ex_reg :: registry
  ex_unfiltered :: "(string, addr) gomap"
  ex_chan :: channel
  ex_routines :: "routine list"
  ex_dead :: bool

record web_flags =
  wf_metricsPath :: string
  wf_disableExporterMetrics :: bool
  wf_maxRequests :: int
  wf_pluginName :: string
  wf_pluginIdx :: string
  wf_disableWatch :: bool

datatype route = MetricsRoute exporter_handler | LandingRoute

text \<open>\<open>http.Handle\<close> panics on an empty pattern and on one that is there; other malformed patterns are not modelled.\<close>

definition mux_handle :: "string \<Rightarrow> route \<Rightarrow> (string \<times> route) list \<Rightarrow> (string \<times> route) list go" where
  "mux_handle pat h mux = (if pat = [] \<or> pat \<in> set (map fst mux) then Panic else Ret (mux @ [(pat, h)]))"

datatype exporter_process =
    ExporterExit int | ExporterPanic
  | Serving (srv_plugin: Plugin) (srv_need: bool) (srv_mux: "(string \<times> route) list") (srv_state: exporter)

text \<open>\<open>main\<close> up to \<open>ListenAndServe\<close>. \<open>landing\<close> is the error of \<open>web.NewLandingPage\<close>. The plugin runs in a goroutine from before
  the handler is made; its callbacks only fill the channel, so that it makes no difference to let them come later.\<close>

definition exporter_main :: "((string, addr) gomap \<Rightarrow> go_error option) \<Rightarrow> go_error option \<Rightarrow> flags \<Rightarrow> web_flags \<Rightarrow> exporter_process" where
  "exporter_main register landing args wfl =
     (let (isNeed, r) = ParseCollectorMetrics args registered;
          plugin = \<lparr>PluginName = wf_pluginName wfl, PluginIdx = wf_pluginIdx wfl, DisableWatch = wf_disableWatch wfl\<rparr>
      in case newHandler register args (\<not> wf_disableExporterMetrics wfl) (wf_maxRequests wfl) r of
           (Ret h, r') \<Rightarrow>
             (let serving = (\<lambda>mux. Serving plugin isNeed mux \<lparr>ex_reg = r', ex_unfiltered = mh_collectors (unfilteredHandler h), ex_chan = [],
                    ex_routines = launched r r', ex_dead = False\<rparr>)
              in case mux_handle (wf_metricsPath wfl) (MetricsRoute h) [] of
                Ret mux \<Rightarrow>
                  if wf_metricsPath wfl \<noteq> ''/'' then
                    (case landing of
                       Some err \<Rightarrow> ExporterExit 1
                     | None \<Rightarrow> (case mux_handle ''/'' LandingRoute mux of Ret mux \<Rightarrow> serving mux | _ \<Rightarrow> ExporterPanic))
                  else serving mux
              | _ \<Rightarrow> ExporterPanic)
         | (_, r') \<Rightarrow> ExporterPanic)"

definition exporter_stopped :: "go_error option \<Rightarrow> int" where
  "exporter_stopped err = (case err of None \<Rightarrow> 0 | Some _ \<Rightarrow> 1)"

fun callback :: "event \<Rightarrow> channel \<Rightarrow> fault option \<times> channel" where
  "callback (Synced pods ctrs) q = Synchronize pods ctrs q"
| "callback (Started pod ctr) q = StartContainer pod ctr q"
| "callback (Stopped pod ctr) q = StopContainer pod ctr q"
| "callback _ q = (None, q)"

fun is_callback :: "event \<Rightarrow> bool" where
  "is_callback (Synced pods ctrs) = True"
| "is_callback (Started pod ctr) = True"
| "is_callback (Stopped pod ctr) = True"
| "is_callback _ = False"

text \<open>A round of a sampling loop of the class and node collectors; errors are logged.\<close>

fun sampling_round :: "'w os \<Rightarrow> routine \<Rightarrow> collector \<Rightarrow> ('w, fault option \<times> collector) state" where
  "sampling_round S (ClassScanner a) (ClassCollector c) =
     do { r \<leftarrow> updateClasses S c; State_Monad.return (fst r, ClassCollector (snd r)) }"
| "sampling_round S (ClassSampler a) (ClassCollector c) =
     do { r \<leftarrow> class_updateStats S c; State_Monad.return (fst r, ClassCollector (snd r)) }"
| "sampling_round S (NodeSampler a) (NodeCollector c) =
     do { r \<leftarrow> node_updateStats S c; State_Monad.return (fst r, NodeCollector (snd r)) }"
| "sampling_round S rt c = State_Monad.return (None, c)"

fun sampled :: "routine \<Rightarrow> addr option" where
  "sampled (ClassScanner a) = Some a"
| "sampled (ClassSampler a) = Some a"
| "sampled (NodeSampler a) = Some a"
| "sampled _ = None"

definition set_collector :: "addr \<Rightarrow> collector \<Rightarrow> exporter \<Rightarrow> exporter" where
  "set_collector a c e = e\<lparr>ex_reg := (ex_reg e)\<lparr>heap := (heap (ex_reg e))[a := c]\<rparr>\<rparr>"

abbreviation collector_at :: "exporter \<Rightarrow> addr \<Rightarrow> collector" where
  "collector_at e a \<equiv> heap (ex_reg e) ! a"

datatype ex_event = Callback event | Scrape "string list" scrape | Loop routine | Outside

inductive ex_step :: "'w os \<Rightarrow> flags \<Rightarrow> exporter \<times> 'w \<Rightarrow> ex_event \<Rightarrow> exporter \<times> 'w \<Rightarrow> bool" for S args where
  ex_callback: "\<not> ex_dead e \<Longrightarrow> is_callback ev \<Longrightarrow> callback ev (ex_chan e) = (r, q) \<Longrightarrow>
    ex_step S args (e, w) (Callback ev) (e\<lparr>ex_chan := q, ex_dead := (r = Some Crash)\<rparr>, w)"
| ex_scrape: "\<not> ex_dead e \<Longrightarrow> ServeHTTP args (ex_unfiltered e) filters (ex_reg e) = (res, r) \<Longrightarrow>
    ex_step S args (e, w) (Scrape filters res)
      (e\<lparr>ex_reg := r, ex_routines := ex_routines e @ launched (ex_reg e) r, ex_dead := (res = Died)\<rparr>, w)"
| ex_sample: "\<not> ex_dead e \<Longrightarrow> rt \<in> set (ex_routines e) \<Longrightarrow> sampled rt = Some a \<Longrightarrow>
    run_state (sampling_round S rt (collector_at e a)) w = ((f, c), w') \<Longrightarrow>
    ex_step S args (e, w) (Loop rt) ((set_collector a c e)\<lparr>ex_dead := (f = Some Crash)\<rparr>, w')"
| ex_receive: "\<not> ex_dead e \<Longrightarrow> Receiver a \<in> set (ex_routines e) \<Longrightarrow> collector_at e a = ContainerCollector c \<Longrightarrow> ex_chan e = d # q \<Longrightarrow>
    run_state (processContainerData S d c) w = ((f, c', ws), w') \<Longrightarrow>
    ex_step S args (e, w) (Loop (Receiver a))
      ((set_collector a (ContainerCollector c') e)\<lparr>ex_chan := q, ex_routines := ex_routines e @ map (Watcher a) ws, ex_dead := (f = Some Crash)\<rparr>, w')"
| ex_watch: "\<not> ex_dead e \<Longrightarrow> ex_routines e = xs @ Watcher a wk # ys \<Longrightarrow> collector_at e a = ContainerCollector c \<Longrightarrow>
    run_state (worker_round S wk c) w = ((t, c'), w') \<Longrightarrow>
    ex_step S args (e, w) (Loop (Watcher a wk))
      ((set_collector a (ContainerCollector c') e)\<lparr>ex_routines := xs @ map (Watcher a) (continued t) @ ys, ex_dead := (t = Crashed)\<rparr>, w')"
| ex_outside: "ex_step S args (e, w) Outside (e, w')"

inductive ex_run :: "'w os \<Rightarrow> flags \<Rightarrow> exporter \<times> 'w \<Rightarrow> ex_event list \<Rightarrow> exporter \<times> 'w \<Rightarrow> bool" for S args where
  ex_run_nil: "ex_run S args s [] s"
| ex_run_snoc: "ex_run S args s es t \<Longrightarrow> ex_step S args t e u \<Longrightarrow> ex_run S args s (es @ [e]) u"

section \<open>The started process\<close>

text \<open>The collectors that the flags enable, in the order of creation.\<close>

definition turned_on :: "string option \<Rightarrow> bool" where
  "turned_on flag = (flag \<noteq> None \<and> flag \<noteq> Some noMetrics)"

definition created :: "flags \<Rightarrow> (string \<times> collector) list" where
  "created args =
     (if turned_on (f_classMetrics args) then [(''rdtClass'', ClassCollector (NewClassCollector (f_nodeName args) (the (f_classMetrics args))))] else []) @
     (if turned_on (f_containerMetrics args)
      then [(''container'', ContainerCollector (NewContainerCollector (f_namespaceWhiteList args) (f_monTimes args) (the (f_containerMetrics args))))] else []) @
     (if turned_on (f_nodeMetrics args) then [(''node'', NodeCollector (NewNodeCollector (f_nodeName args) (the (f_nodeMetrics args))))] else [])"

lemma enable_simps:
  "collectorState (enable name flag r) = gm_set name (turned_on flag) (collectorState r)"
  "initiatedCollectors (enable name flag r) = initiatedCollectors r" "heap (enable name flag r) = heap r"
  by (auto simp: enable_def turned_on_def)

lemma registered_state: "collectorState registered = [(''rdtClass'', False), (''container'', True), (''node'', False)]"
    "initiatedCollectors registered = []" "heap registered = []"
  by code_simp+

lemma parsed_flags:
  assumes "ParseCollectorMetrics args registered = (need, r)"
  shows "collectorState r = [(''rdtClass'', turned_on (f_classMetrics args)), (''container'', turned_on (f_containerMetrics args)),
      (''node'', turned_on (f_nodeMetrics args))]" "initiatedCollectors r = []" "heap r = []"
proof -
  have "r = enable ''node'' (f_nodeMetrics args) (enable ''container'' (f_containerMetrics args) (enable ''rdtClass'' (f_classMetrics args) registered))"
    using assms by (auto simp: ParseCollectorMetrics_def registered_state gm_keys_def Let_def
        classCollectorSubsystem_def nodeCollectorSubsystem_def containerCollectorSubsystem_def)
  then show "collectorState r = [(''rdtClass'', turned_on (f_classMetrics args)), (''container'', turned_on (f_containerMetrics args)),
      (''node'', turned_on (f_nodeMetrics args))]" "initiatedCollectors r = []" "heap r = []"
    by (simp_all add: enable_simps registered_state gm_set_def)
qed

definition indexed :: "flags \<Rightarrow> (string, addr) gomap" where
  "indexed args = zip (map fst (created args)) [0..<length (created args)]"

lemma factory_turned_on:
  "turned_on (f_classMetrics args) \<Longrightarrow> factory args ''rdtClass'' = Inr (ClassCollector (NewClassCollector (f_nodeName args) (the (f_classMetrics args))))"
  "turned_on (f_containerMetrics args) \<Longrightarrow> factory args ''container'' =
     Inr (ContainerCollector (NewContainerCollector (f_namespaceWhiteList args) (f_monTimes args) (the (f_containerMetrics args))))"
  "turned_on (f_nodeMetrics args) \<Longrightarrow> factory args ''node'' = Inr (NodeCollector (NewNodeCollector (f_nodeName args) (the (f_nodeMetrics args))))"
  by (auto simp: turned_on_def factory_def classCollectorSubsystem_def nodeCollectorSubsystem_def containerCollectorSubsystem_def)

lemma all_created:
  assumes "ParseCollectorMetrics args registered = (need, r)"
  shows "NewCollector args [] r = (Inr (indexed args), r\<lparr>initiatedCollectors := indexed args, heap := map snd (created args)\<rparr>)"
proof -
  note r = parsed_flags [OF assms]
  have "select_loop args [] (collectorState r) [] r = (Inr (indexed args), r\<lparr>initiatedCollectors := indexed args, heap := map snd (created args)\<rparr>)"
    by (cases "turned_on (f_classMetrics args)"; cases "turned_on (f_containerMetrics args)"; cases "turned_on (f_nodeMetrics args)")
      (simp_all add: r indexed_def created_def factory_turned_on gm_set_def gm_get_def)
  then show ?thesis by (simp add: NewCollector_def)
qed

lemma serving_state:
  assumes "exporter_main register landing args wfl = Serving p need mux e"
  shows "heap (ex_reg e) = map snd (created args)" "initiatedCollectors (ex_reg e) = indexed args" "ex_unfiltered e = indexed args"
    "collectorState (ex_reg e) = [(''rdtClass'', turned_on (f_classMetrics args)), (''container'', turned_on (f_containerMetrics args)),
      (''node'', turned_on (f_nodeMetrics args))]"
    "ex_routines e = concat (map (\<lambda>(a, c). Start a c) (enumerate 0 (map snd (created args))))" "ex_chan e = []" "\<not> ex_dead e"
proof -
  obtain need' r where parse: "ParseCollectorMetrics args registered = (need', r)" by fastforce
  have e: "e = \<lparr>ex_reg = r\<lparr>initiatedCollectors := indexed args, heap := map snd (created args)\<rparr>, ex_unfiltered = indexed args, ex_chan = [],
      ex_routines = launched r (r\<lparr>initiatedCollectors := indexed args, heap := map snd (created args)\<rparr>), ex_dead = False\<rparr>"
    using assms all_created [OF parse]
    by (auto simp: exporter_main_def parse newHandler_def innerHandler_def Let_def split: option.splits go.splits if_splits)
  show "heap (ex_reg e) = map snd (created args)" "initiatedCollectors (ex_reg e) = indexed args" "ex_unfiltered e = indexed args"
    "collectorState (ex_reg e) = [(''rdtClass'', turned_on (f_classMetrics args)), (''container'', turned_on (f_containerMetrics args)),
      (''node'', turned_on (f_nodeMetrics args))]" "ex_chan e = []" "\<not> ex_dead e"
    using parsed_flags [OF parse] by (simp_all add: e)
  have "map (\<lambda>a. Start a (map snd (created args) ! a)) [0..<length (created args)] =
      map (\<lambda>(a, c). Start a c) (enumerate 0 (map snd (created args)))"
    by (intro nth_equalityI) (simp_all add: nth_enumerate_eq)
  then show "ex_routines e = concat (map (\<lambda>(a, c). Start a c) (enumerate 0 (map snd (created args))))"
    using parsed_flags [OF parse] by (simp add: e launched_def)
qed

section \<open>What stays as it was started\<close>

fun routine_addr :: "routine \<Rightarrow> addr" where
  "routine_addr (ClassScanner a) = a"
| "routine_addr (ClassSampler a) = a"
| "routine_addr (NodeSampler a) = a"
| "routine_addr (Receiver a) = a"
| "routine_addr (Watcher a wk) = a"

fun is_watcher :: "routine \<Rightarrow> bool" where
  "is_watcher (Watcher a wk) = True"
| "is_watcher _ = False"

fun is_container :: "collector \<Rightarrow> bool" where
  "is_container (ContainerCollector c) = True"
| "is_container _ = False"

text \<open>Once every enabled collector is there, no scrape creates another one.\<close>

definition all_initiated :: "registry \<Rightarrow> bool" where
  "all_initiated r = (\<forall>k. (k, True) \<in> set (collectorState r) \<longrightarrow> gm_has (initiatedCollectors r) k)"

lemma select_initiated:
  "\<forall>k. (k, True) \<in> set es \<longrightarrow> gm_has (initiatedCollectors r) k \<Longrightarrow> \<exists>cs'. select_loop args filters es cs r = (Inr cs', r)"
  by (induction args filters es cs r rule: select_loop.induct) (auto simp: gm_has_def split: option.split)

lemma scrape_keeps_registry: "all_initiated r \<Longrightarrow> ServeHTTP args cs filters r = (res, r') \<Longrightarrow> r' = r"
proof -
  assume r: "all_initiated r" "ServeHTTP args cs filters r = (res, r')"
  obtain cs' where "select_loop args filters (collectorState r) [] r = (Inr cs', r)"
    using select_initiated [of "collectorState r" r args filters "[]"] r(1) unfolding all_initiated_def by blast
  then have "snd (NewCollector args filters r) = r" by (simp add: NewCollector_def split: option.split)
  with r(2) show "r' = r" by (auto simp: ServeHTTP_def split: if_splits prod.splits sum.splits fault.splits)
qed

lemma launched_none [simp]: "launched r r = []"
  by (simp add: launched_def)

text \<open>What every step keeps of the started process \<open>e0\<close>.\<close>

definition settled :: "exporter \<Rightarrow> exporter \<Rightarrow> bool" where
  "settled e0 e = (collectorState (ex_reg e) = collectorState (ex_reg e0) \<and> initiatedCollectors (ex_reg e) = initiatedCollectors (ex_reg e0) \<and>
     ex_unfiltered e = ex_unfiltered e0 \<and> map is_container (heap (ex_reg e)) = map is_container (heap (ex_reg e0)) \<and>
     filter (\<lambda>rt. \<not> is_watcher rt) (ex_routines e) = filter (\<lambda>rt. \<not> is_watcher rt) (ex_routines e0) \<and>
     (\<forall>rt \<in> set (ex_routines e). routine_addr rt < length (heap (ex_reg e0))))"

lemma settled_length: "settled e0 e \<Longrightarrow> length (heap (ex_reg e)) = length (heap (ex_reg e0))"
  unfolding settled_def by (metis length_map)

lemma settled_container: "settled e0 e \<Longrightarrow> a < length (heap (ex_reg e0)) \<Longrightarrow> is_container (collector_at e a) = is_container (collector_at e0 a)"
  using settled_length [of e0 e] unfolding settled_def by (metis nth_map)

lemma settled_update:
  assumes "settled e0 e" "a < length (heap (ex_reg e0))" "is_container c = is_container (collector_at e a)"
    and "filter (\<lambda>rt. \<not> is_watcher rt) rts = filter (\<lambda>rt. \<not> is_watcher rt) (ex_routines e)" "\<forall>rt \<in> set rts. routine_addr rt < length (heap (ex_reg e0))"
  shows "settled e0 ((set_collector a c e)\<lparr>ex_chan := q, ex_routines := rts, ex_dead := d\<rparr>)"
proof -
  have "map is_container ((heap (ex_reg e))[a := c]) = map is_container (heap (ex_reg e))"
    using assms(2,3) settled_length [OF assms(1)] by (intro nth_equalityI) (simp_all add: nth_list_update)
  with assms show ?thesis by (simp add: settled_def set_collector_def)
qed

lemma sampling_kind: "run_state (sampling_round S rt c) w = ((f, c'), w') \<Longrightarrow> is_container c' = is_container c"
  by (induction S rt c rule: sampling_round.induct) (auto simp: run_bind split: prod.splits)

lemma sampled_addr: "sampled rt = Some a \<Longrightarrow> routine_addr rt = a"
  by (cases rt) auto

lemma ex_step_settled:
  assumes "ex_step S args (e, w) ev (t, v)" "all_initiated (ex_reg e0)" "settled e0 e"
  shows "settled e0 t"
  using assms(1)
proof (cases rule: ex_step.cases)
  case (ex_scrape filters res r)
  have "all_initiated (ex_reg e)" using assms(2,3) by (simp add: all_initiated_def settled_def)
  from scrape_keeps_registry [OF this ex_scrape(5)] have "r = ex_reg e" .
  with ex_scrape(2) assms(3) show ?thesis by (simp add: settled_def)
next
  case (ex_sample rt a f c)
  then have "a < length (heap (ex_reg e0))" using assms(3) sampled_addr by (auto simp: settled_def)
  from settled_update [OF assms(3) this sampling_kind [OF ex_sample(6)], where rts = "ex_routines e" and q = "ex_chan e"] assms(3)
  have "settled e0 ((set_collector a c e)\<lparr>ex_chan := ex_chan e, ex_routines := ex_routines e, ex_dead := (f = Some Crash)\<rparr>)"
    by (simp add: settled_def)
  with ex_sample(2) show ?thesis by (simp add: set_collector_def)
next
  case (ex_receive a c d q f c' ws)
  then have a: "a < length (heap (ex_reg e0))" using assms(3) by (auto simp: settled_def)
  show ?thesis unfolding ex_receive(2)
    by (rule settled_update [OF assms(3) a]) (use ex_receive a assms(3) in \<open>auto simp: settled_def filter_map comp_def\<close>)
next
  case (ex_watch xs a wk ys c tk c')
  then have a: "a < length (heap (ex_reg e0))" using assms(3) by (auto simp: settled_def)
  have "t = (set_collector a (ContainerCollector c') e)\<lparr>ex_chan := ex_chan e, ex_routines := xs @ map (Watcher a) (continued tk) @ ys, ex_dead := (tk = Crashed)\<rparr>"
    using ex_watch by (simp add: set_collector_def)
  then show ?thesis
    by (simp only:) (rule settled_update [OF assms(3) a], use ex_watch a assms(3) in \<open>auto simp: settled_def filter_map comp_def\<close>)
qed (use assms(3) in \<open>simp_all add: settled_def\<close>)

text \<open>A property that every step keeps holds throughout a run.\<close>

locale ex_kept =
  fixes S :: "'w os" and args :: flags and good :: "exporter \<Rightarrow> bool"
  assumes ex_step_kept: "ex_step S args (e, w) ev (t, v) \<Longrightarrow> good e \<Longrightarrow> good t"
begin

lemma ex_run_kept: "ex_run S args ew es tv \<Longrightarrow> good (fst ew) \<Longrightarrow> good (fst tv)"
proof (induction rule: ex_run.induct)
  case (ex_run_snoc ew es tv ev uv)
  then show ?case by (cases tv; cases uv) (auto intro: ex_step_kept)
qed simp

end

interpretation settling: ex_kept S args "\<lambda>e. all_initiated (ex_reg e0) \<longrightarrow> settled e0 e"
  for S :: "'w os" and args :: flags and e0 :: exporter
  by unfold_locales (auto intro: ex_step_settled)

text \<open>What \<open>main\<close> has made is settled.\<close>

lemma Start_routines: "rt \<in> set (Start a c) \<Longrightarrow> routine_addr rt = a \<and> \<not> is_watcher rt" "distinct (Start a c)"
  by (cases c; auto simp: class_Start_def node_Start_def con_Start_def split: if_splits)+

lemma started_routines:
  fixes cs :: "collector list"
  defines "rts \<equiv> concat (map (\<lambda>(a, c). Start a c) (enumerate 0 cs))"
  shows "\<forall>rt \<in> set rts. routine_addr rt < length cs \<and> \<not> is_watcher rt" "distinct rts"
    "a < length cs \<Longrightarrow> filter (\<lambda>rt. routine_addr rt = a) rts = Start a (cs ! a)"
proof -
  show "\<forall>rt \<in> set rts. routine_addr rt < length cs \<and> \<not> is_watcher rt"
    unfolding rts_def by (auto simp: in_set_enumerate_eq dest: Start_routines(1))
  have part: "filter (\<lambda>rt. routine_addr rt = a) (Start b c) = (if b = a then Start b c else [])" for a b c
    using Start_routines(1) [of _ b c] by (auto simp: filter_empty_conv intro!: filter_True)
  have "filter (\<lambda>rt. routine_addr rt = a) (concat (map (\<lambda>(a, c). Start a c) (enumerate n cs))) =
      (if n \<le> a \<and> a < n + length cs then Start a (cs ! (a - n)) else [])" for a n
    by (induction cs arbitrary: n) (auto simp: part nth_Cons' Suc_diff_le)
  then show "filter (\<lambda>rt. routine_addr rt = a) rts = Start a (cs ! a)" if "a < length cs" using that by (simp add: rts_def)
  have "distinct (concat (map (\<lambda>(a, c). Start a c) (enumerate n cs)))" for n
  proof (induction cs arbitrary: n)
    case (Cons c cs)
    have "set (Start n c) \<inter> set (concat (map (\<lambda>(a, c). Start a c) (enumerate (Suc n) cs))) = {}"
      by (auto simp: in_set_enumerate_eq dest!: Start_routines(1))
    with Cons.IH [of "Suc n"] show ?case by (simp add: Start_routines(2))
  qed simp
  then show "distinct rts" by (simp add: rts_def)
qed

lemma indexed_has: "gm_has (indexed args) k \<longleftrightarrow> k \<in> fst ` set (created args)"
  by (simp add: indexed_def gm_has_keys gm_keys_def)

lemma created_names: "fst ` set (created args) = {k. (k, True) \<in> {(''rdtClass'', turned_on (f_classMetrics args)),
    (''container'', turned_on (f_containerMetrics args)), (''node'', turned_on (f_nodeMetrics args))}}"
  by (auto simp: created_def)

lemma serving_settled:
  assumes "exporter_main register landing args wfl = Serving p need mux e"
  shows "all_initiated (ex_reg e)" "settled e e"
  using serving_state [OF assms] started_routines(1) [of "map snd (created args)"]
  by (auto simp: all_initiated_def settled_def indexed_has created_names)

section \<open>The containers of the process\<close>

text \<open>The part of the process that \<open>sys\<close> describes: the channel, the container collector at \<open>a\<close>, and the goroutines that
  watch its containers.\<close>

definition watchers :: "addr \<Rightarrow> routine list \<Rightarrow> worker list" where
  "watchers a rts = List.map_filter (\<lambda>rt. case rt of Watcher b wk \<Rightarrow> if b = a then Some wk else None | _ \<Rightarrow> None) rts"

definition container_at :: "exporter \<Rightarrow> addr \<Rightarrow> containerCollector" where
  "container_at e a = (case collector_at e a of ContainerCollector c \<Rightarrow> c | _ \<Rightarrow> NewContainerCollector [] 0 [])"

definition container_part :: "addr \<Rightarrow> exporter \<Rightarrow> sys" where
  "container_part a e = \<lparr>s_chan = ex_chan e, s_con = container_at e a, s_workers = watchers a (ex_routines e), s_crashed = ex_dead e\<rparr>"

lemma watchers_simps [simp]:
  "watchers a [] = []" "watchers a (xs @ ys) = watchers a xs @ watchers a ys" "watchers a (map (Watcher a) ws) = ws"
  "watchers a (Watcher b wk # xs) = (if b = a then wk # watchers a xs else watchers a xs)"
  "\<forall>rt \<in> set xs. \<not> is_watcher rt \<Longrightarrow> watchers a xs = []"
proof -
  show "watchers a (map (Watcher a) ws) = ws" by (induction ws) (simp_all add: watchers_def map_filter_simps)
  show "\<forall>rt \<in> set xs. \<not> is_watcher rt \<Longrightarrow> watchers a xs = []"
    by (induction xs) (auto simp: watchers_def map_filter_simps split: routine.split)
qed (simp_all add: watchers_def map_filter_simps map_filter_def)

lemma container_at_set:
  "a < length (heap (ex_reg e)) \<Longrightarrow> container_at ((set_collector b c e)\<lparr>ex_chan := q, ex_routines := rts, ex_dead := d\<rparr>) a =
    (if b = a then (case c of ContainerCollector c \<Rightarrow> c | _ \<Rightarrow> NewContainerCollector [] 0 []) else container_at e a)"
  by (simp add: container_at_def set_collector_def)

lemma sys_run_snoc: "sys_run S s es t \<Longrightarrow> sys_step S t e u \<Longrightarrow> sys_run S s (es @ [e]) u"
  by (induction rule: sys_run.induct) (auto intro: sys_run.intros)

lemma sys_callback: "\<not> s_crashed s \<Longrightarrow> is_callback ev \<Longrightarrow> sys_step S (s, w) ev (queued s (callback ev (s_chan s)), w)"
  by (cases ev) (auto intro: sys_step.intros)

lemma sampling_container: "run_state (sampling_round S rt (ContainerCollector c)) w = ((f, c'), w') \<Longrightarrow> c' = ContainerCollector c"
  by (cases rt) simp_all

definition only_container :: "addr \<Rightarrow> exporter \<Rightarrow> bool" where
  "only_container a e = (\<forall>b < length (heap (ex_reg e)). is_container (collector_at e b) \<longleftrightarrow> b = a)"

text \<open>Every step of the process that leaves it alive is a step of the container system, in which all that does not concern
  containers is a change of the outside world.\<close>

lemma ex_step_simulated:
  assumes step: "ex_step S args (e, w) ev (t, v)" "\<not> ex_dead t" and e: "all_initiated (ex_reg e)" "settled e0 e"
    and a: "only_container a e0" "a < length (heap (ex_reg e0))"
  shows "\<exists>ev'. sys_step S (container_part a e, w) ev' (container_part a t, v)"
proof -
  have len: "length (heap (ex_reg e)) = length (heap (ex_reg e0))" using settled_length [OF e(2)] .
  have only: "b = a" if "collector_at e b = ContainerCollector c" "b < length (heap (ex_reg e0))" for b c
    using settled_container [OF e(2) that(2)] that a(1) by (simp add: only_container_def)
  obtain ca where ca: "collector_at e a = ContainerCollector ca"
    using settled_container [OF e(2) a(2)] a by (cases "collector_at e a") (simp_all add: only_container_def)
  have addr: "routine_addr rt < length (heap (ex_reg e0))" if "rt \<in> set (ex_routines e)" for rt
    using e(2) that by (simp add: settled_def)
  have same: "\<exists>ev'. sys_step S (container_part a e, w) ev' (container_part a t, v)" if "container_part a t = container_part a e"
    unfolding that by (rule exI [of _ World], rule world)
  show ?thesis using step(1)
  proof (cases rule: ex_step.cases)
    case (ex_callback ev' r q)
    have "container_part a t = queued (container_part a e) (callback ev' (ex_chan e))"
      using ex_callback by (simp add: container_part_def queued_def container_at_def)
    then have "sys_step S (container_part a e, w) ev' (container_part a t, w)"
      using sys_callback [of "container_part a e" ev' S w] ex_callback(4,5) by (simp add: container_part_def)
    then show ?thesis using ex_callback(3) by blast
  next
    case (ex_scrape filters res r)
    then have "r = ex_reg e" using scrape_keeps_registry [OF e(1)] by blast
    with ex_scrape step(2) show ?thesis by (intro same) (simp add: container_part_def container_at_def)
  next
    case (ex_sample rt b f c)
    have "container_at t a = container_at e a"
    proof (cases "b = a")
      case True
      with ex_sample(6) ca have "c = ContainerCollector ca" using sampling_container by metis
      then show ?thesis using ex_sample(2) True ca a(2) len by (simp add: container_at_def set_collector_def)
    qed (use ex_sample(2) in \<open>simp add: container_at_def set_collector_def\<close>)
    then show ?thesis using ex_sample step(2) by (intro same) (simp add: container_part_def set_collector_def)
  next
    case (ex_receive b c d q f c' ws)
    then have b: "b = a" "c = ca" using only addr [of "Receiver b"] ca by fastforce+
    have t: "container_part a t = (container_part a e)\<lparr>s_chan := q, s_con := c', s_workers := s_workers (container_part a e) @ ws, s_crashed := (f = Some Crash)\<rparr>"
      using ex_receive(2) b a(2) len by (simp add: container_part_def container_at_set)
    have "s_con (container_part a e) = ca" using ca by (simp add: container_part_def container_at_def)
    then have "sys_step S (container_part a e, w) Deliver (container_part a t, v)"
      unfolding t using ex_receive b by (intro deliver) (auto simp: container_part_def)
    then show ?thesis by blast
  next
    case (ex_watch xs b wk ys c tk c')
    then have b: "b = a" "c = ca" using only addr [of "Watcher b wk"] ca by fastforce+
    have t: "container_part a t = (container_part a e)\<lparr>s_con := c', s_workers := watchers a xs @ continued tk @ watchers a ys, s_crashed := (tk = Crashed)\<rparr>"
      using ex_watch(2) b a(2) len by (simp add: container_part_def container_at_def set_collector_def)
    have "s_con (container_part a e) = ca" "s_workers (container_part a e) = watchers a xs @ wk # watchers a ys"
      using ca ex_watch b by (simp_all add: container_part_def container_at_def)
    then have "sys_step S (container_part a e, w) (Round wk) (container_part a t, v)"
      unfolding t using ex_watch b by (intro work) (auto simp: container_part_def)
    then show ?thesis by blast
  next
    case ex_outside
    then show ?thesis by (intro same) simp
  qed
qed

lemma ex_step_alive: "ex_step S args (e, w) ev (t, v) \<Longrightarrow> \<not> ex_dead t \<Longrightarrow> \<not> ex_dead e"
  by (erule ex_step.cases) auto

lemma ex_run_simulated:
  assumes "ex_run S args (e0, w) es (t, v)" "\<not> ex_dead t" "all_initiated (ex_reg e0)" "settled e0 e0"
    and "only_container a e0" "a < length (heap (ex_reg e0))"
  shows "\<exists>es'. sys_run S (container_part a e0, w) es' (container_part a t, v)"
proof -
  have "ex_run S args ew es tv \<Longrightarrow> ew = (e0, w) \<Longrightarrow> \<not> ex_dead (fst tv) \<Longrightarrow>
      \<exists>es'. sys_run S (container_part a e0, w) es' (container_part a (fst tv), snd tv)" for ew tv es
  proof (induction rule: ex_run.induct)
    case (ex_run_snoc ew es xv ev yu)
    obtain x x' y y' where xy: "xv = (x, x')" "yu = (y, y')" by fastforce
    have x: "settled e0 x" using settling.ex_run_kept [OF ex_run_snoc(1), of e0] ex_run_snoc(4) assms(3,4) xy by simp
    then have init: "all_initiated (ex_reg x)" using assms(3) by (simp add: settled_def all_initiated_def)
    have alive: "\<not> ex_dead y" using ex_run_snoc(5) xy by simp
    then have "\<not> ex_dead x" using ex_run_snoc(2) xy by (auto dest: ex_step_alive)
    then obtain es' where "sys_run S (container_part a e0, w) es' (container_part a x, x')" using ex_run_snoc(3,4) xy by auto
    moreover obtain ev' where "sys_step S (container_part a x, x') ev' (container_part a y, y')"
      using ex_step_simulated [OF ex_run_snoc(2) [unfolded xy] alive init x assms(5,6)] by blast
    ultimately have "sys_run S (container_part a e0, w) (es' @ [ev']) (container_part a y, y')" by (rule sys_run_snoc)
    then show ?case using xy by auto
  qed (auto intro: run_nil)
  from this [OF assms(1)] assms(2) show ?thesis by simp
qed

section \<open>Without a container collector\<close>

text \<open>The channel is bounded and callbacks do not take anything from it.\<close>

definition fills :: "channel \<Rightarrow> channel \<Rightarrow> bool" where
  "fills q q' = (length q \<le> length q' \<and> (length q \<le> chanSize \<longrightarrow> length q' \<le> chanSize))"

lemma fills_refl [simp]: "fills q q"
  by (simp add: fills_def)

lemma fills_trans: "fills q q' \<Longrightarrow> fills q' q'' \<Longrightarrow> fills q q''"
  by (auto simp: fills_def)

lemma send_fills: "fills q (snd (send m q))"
  by (auto simp: fills_def send_def)

lemma sync_pods_fills: "fills q (snd (sync_pods ctr pods q))"
  by (induction pods) (auto split: option.split simp: send_fills)

lemma sync_loop_fills: "fills q (snd (sync_loop pods seen ctrs q))"
proof (induction ctrs arbitrary: seen q)
  case (Cons ctr ctrs)
  from sync_pods_fills [of q ctr pods] Cons show ?case by (auto split: prod.split option.split intro: fills_trans)
qed simp

lemma callback_fills: "fills q (snd (callback ev q))"
  by (cases ev) (auto simp: Synchronize_def StartContainer_def StopContainer_def sync_loop_fills send_fills split: option.split)

text \<open>An event that the plugin reports to the collector.\<close>

fun reports :: "ex_event \<Rightarrow> bool" where
  "reports (Callback (Started pod ctr)) = (\<not> gm_has (pod_Annotations pod) annRDT \<and> pod_Linux pod \<noteq> None)"
| "reports (Callback (Stopped pod ctr)) = (\<not> gm_has (pod_Annotations pod) annRDT)"
| "reports _ = False"

lemma report_fills: "reports (Callback ev) \<Longrightarrow> length q < chanSize \<Longrightarrow> length (snd (callback ev q)) = Suc (length q)"
  by (cases ev) (auto simp: StartContainer_def StopContainer_def send_def)

lemma channel_fills:
  assumes "ex_run S args (e0, w) es (t, v)" "all_initiated (ex_reg e0)" "settled e0 e0" "ex_chan e0 = []" "\<forall>c \<in> set (heap (ex_reg e0)). \<not> is_container c"
  shows "length (ex_chan t) \<le> chanSize \<and> min chanSize (length (filter reports es)) \<le> length (ex_chan t)"
proof -
  have "ex_run S args ew es tv \<Longrightarrow> ew = (e0, w) \<Longrightarrow>
      length (ex_chan (fst tv)) \<le> chanSize \<and> min chanSize (length (filter reports es)) \<le> length (ex_chan (fst tv))" for ew es tv
  proof (induction rule: ex_run.induct)
    case (ex_run_snoc ew es xv ev yu)
    obtain x x' y y' where xy: "xv = (x, x')" "yu = (y, y')" by fastforce
    have x: "settled e0 x" using settling.ex_run_kept [OF ex_run_snoc(1), of e0] ex_run_snoc(4) assms(2,3) xy by simp
    have IH: "length (ex_chan x) \<le> chanSize" "min chanSize (length (filter reports es)) \<le> length (ex_chan x)"
      using ex_run_snoc(3,4) xy by simp_all
    from ex_run_snoc(2) [unfolded xy] have "length (ex_chan y) \<le> chanSize \<and> min chanSize (length (filter reports (es @ [ev]))) \<le> length (ex_chan y)"
    proof (cases rule: ex_step.cases)
      case (ex_callback ev' r q)
      then have q: "ex_chan y = snd (callback ev' (ex_chan x))" by simp
      show ?thesis
      proof (cases "reports ev \<and> length (ex_chan x) < chanSize")
        case True
        then show ?thesis using IH report_fills [of ev' "ex_chan x"] q ex_callback(1) by simp
      next
        case False
        then show ?thesis using IH callback_fills [of "ex_chan x" ev'] q by (auto simp: fills_def)
      qed
    next
      case (ex_receive a c d q f c' ws)
      then have "a < length (heap (ex_reg e0))" using x by (auto simp: settled_def)
      with settled_container [OF x this] assms(5) ex_receive(5) show ?thesis by auto
    qed (use IH in \<open>auto simp: set_collector_def\<close>)
    then show ?case using xy by simp
  qed (use assms(4) in simp)
  from this [OF assms(1)] show ?thesis by simp
qed

lemma exporter_serves:
  assumes "\<And>cs. register cs = None" "landing = None" "wf_metricsPath wfl \<noteq> []"
  shows "\<exists>p need mux e. exporter_main register landing args wfl = Serving p need mux e"
proof -
  obtain need r where parse: "ParseCollectorMetrics args registered = (need, r)" by fastforce
  show ?thesis using all_created [OF parse] assms
    by (cases "wf_metricsPath wfl = ''/''") (auto simp: exporter_main_def parse newHandler_def innerHandler_def mux_handle_def Let_def)
qed

section \<open>Properties\<close>


text \<open>A process with default settings for the web.\<close>

definition demo_web :: web_flags where
  "demo_web = \<lparr>wf_metricsPath = ''/metrics'', wf_disableExporterMetrics = True, wf_maxRequests = 40, wf_pluginName = ''mb-nri-plugin'',
     wf_pluginIdx = ''11'', wf_disableWatch = False\<rparr>"


text \<open>C12: What runs in the process is the container system: with the container collector enabled, every live state that the process
  can reach, with its scrapes, its other collectors and whatever interleaving, shows a state of the channel, the
  container collector and its goroutines that the container system reaches from a new collector.\<close>

theorem process_refines_container_system:
  assumes "exporter_main register landing args wfl = Serving p need mux e" "turned_on (f_containerMetrics args)"
    and "ex_run S args (e, w) es (t, v)" "\<not> ex_dead t"
  shows "\<exists>a es'. gm_get (initiatedCollectors (ex_reg t)) ''container'' = Some a \<and>
    sys_run S (new_sys (NewContainerCollector (f_namespaceWhiteList args) (f_monTimes args) (the (f_containerMetrics args))), w) es' (container_part a t, v)"
proof -
  let ?a = "if turned_on (f_classMetrics args) then 1 else 0 :: nat"
  let ?c = "NewContainerCollector (f_namespaceWhiteList args) (f_monTimes args) (the (f_containerMetrics args))"
  note st = serving_state [OF assms(1)]
  have len: "?a < length (heap (ex_reg e))" and at: "collector_at e ?a = ContainerCollector ?c"
    using assms(2) by (simp_all add: st(1) created_def)
  have "\<forall>b < length (created args). is_container (snd (created args ! b)) \<longleftrightarrow> b = ?a"
    using assms(2) by (auto simp: created_def nth_Cons' nth_append)
  then have only: "only_container ?a e" by (simp add: only_container_def st(1))
  have "container_part ?a e = new_sys ?c"
    using at st(5,6,7) started_routines(1) [of "map snd (created args)"] by (simp add: container_part_def container_at_def new_sys_def)
  then obtain es' where "sys_run S (new_sys ?c, w) es' (container_part ?a t, v)"
    using ex_run_simulated [OF assms(3,4) serving_settled [OF assms(1)] only len] by auto
  moreover have "settled e t" using settling.ex_run_kept [OF assms(3), of e] serving_settled [OF assms(1)] by simp
  then have "gm_get (initiatedCollectors (ex_reg t)) ''container'' = Some ?a"
    using assms(2) st(2) by (simp add: settled_def indexed_def created_def gm_get_def)
  ultimately show ?thesis by blast
qed

theorem process_refines_container_system_witness:
  "\<exists>e t a es'. ex_run demo_os demo_flags (e, ()) [Callback (Started demo_pod demo_ctr)] (t, ()) \<and> length (ex_chan t) = 1 \<and>
     sys_run demo_os (new_sys (NewContainerCollector [] 10 ''all''), ()) es' (container_part a t, ())"
proof -
  obtain p need mux e where e: "exporter_main (\<lambda>cs. None) None demo_flags demo_web = Serving p need mux e"
    using exporter_serves [of "\<lambda>cs. None" None demo_web demo_flags] by (auto simp: demo_web_def)
  let ?q = "snd (callback (Started demo_pod demo_ctr) [])"
  have q: "callback (Started demo_pod demo_ctr) [] = (None, ?q)" "length ?q = 1" by code_simp+
  let ?t = "e\<lparr>ex_chan := ?q, ex_dead := False\<rparr>"
  have "ex_step demo_os demo_flags (e, ()) (Callback (Started demo_pod demo_ctr)) (?t, ())"
    using ex_callback [of e "Started demo_pod demo_ctr" None ?q demo_os demo_flags "()"] serving_state(6,7) [OF e] q(1) by simp
  then have run: "ex_run demo_os demo_flags (e, ()) [Callback (Started demo_pod demo_ctr)] (?t, ())"
    using ex_run_snoc [OF ex_run_nil] by fastforce
  have "turned_on (f_containerMetrics demo_flags)" by code_simp
  from process_refines_container_system [OF e this run] obtain a es' where
    "sys_run demo_os (new_sys (NewContainerCollector (f_namespaceWhiteList demo_flags) (f_monTimes demo_flags) (the (f_containerMetrics demo_flags))), ())
      es' (container_part a ?t, ())" by auto
  moreover have "NewContainerCollector (f_namespaceWhiteList demo_flags) (f_monTimes demo_flags) (the (f_containerMetrics demo_flags)) =
      NewContainerCollector [] 10 ''all''" by (simp add: demo_flags_def)
  ultimately show ?thesis using run q(2)
    by (intro exI [of _ e] exI [of _ ?t] exI [of _ a] exI [of _ es'] conjI) simp_all
qed

text \<open>C24: With the container metrics switched off the plugin still runs and still reports containers, and nothing takes the reports: after
  a hundred of them every start and every stop of a container in a pod without the annotation is answered with an
  error, for as long as the process lives.\<close>

theorem idle_plugin_refuses_containers:
  assumes "exporter_main register landing args wfl = Serving p need mux e" "f_containerMetrics args = Some noMetrics"
    and "ex_run S args (e, w) es (t, v)" "100 \<le> length (filter reports es)"
    and "\<not> gm_has (pod_Annotations pod) annRDT" "pod_Linux pod = Some parent"
  shows "StartContainer pod ctr (ex_chan t) = (Some (Err ChanFull), ex_chan t) \<and> StopContainer pod ctr (ex_chan t) = (Some (Err ChanFull), ex_chan t)"
proof -
  note st = serving_state [OF assms(1)]
  have "\<forall>c \<in> set (heap (ex_reg e)). \<not> is_container c" using assms(2) by (auto simp: st(1) created_def turned_on_def)
  from channel_fills [OF assms(3) serving_settled [OF assms(1)] st(6) this] assms(4) have "length (ex_chan t) = chanSize"
    by (simp add: chanSize_def)
  then show ?thesis using assms(5,6) by (simp add: StartContainer_def StopContainer_def send_def)
qed

lemma stops_possible:
  "\<not> ex_dead e \<Longrightarrow> \<exists>t. ex_run S args (e, w) (replicate n (Callback (Stopped pod ctr))) (t, w) \<and> \<not> ex_dead t"
proof (induction n)
  case 0
  then show ?case by (auto intro: ex_run_nil)
next
  case (Suc n)
  then obtain t where t: "ex_run S args (e, w) (replicate n (Callback (Stopped pod ctr))) (t, w)" "\<not> ex_dead t" by auto
  obtain r q where rq: "callback (Stopped pod ctr) (ex_chan t) = (r, q)" "r \<noteq> Some Crash"
    by (cases "StopContainer pod ctr (ex_chan t)") (auto simp: StopContainer_def send_def split: if_splits)
  have "ex_run S args (e, w) (replicate n (Callback (Stopped pod ctr)) @ [Callback (Stopped pod ctr)]) (t\<lparr>ex_chan := q, ex_dead := (r = Some Crash)\<rparr>, w)"
    by (rule ex_run_snoc [OF t(1) ex_callback [OF t(2) _ rq(1)]]) simp
  with rq(2) show ?case by (auto simp: replicate_append_same)
qed

theorem idle_plugin_refuses_containers_witness:
  "\<exists>e t. ex_run demo_os (demo_flags\<lparr>f_containerMetrics := Some ''none''\<rparr>) (e, ()) (replicate 100 (Callback (Stopped demo_pod demo_ctr))) (t, ()) \<and>
     StartContainer demo_pod demo_ctr (ex_chan t) = (Some (Err ChanFull), ex_chan t)"
proof -
  let ?args = "demo_flags\<lparr>f_containerMetrics := Some ''none''\<rparr>"
  obtain p need mux e where e: "exporter_main (\<lambda>cs. None) None ?args demo_web = Serving p need mux e"
    using exporter_serves [of "\<lambda>cs. None" None demo_web ?args] by (auto simp: demo_web_def)
  obtain t where t: "ex_run demo_os ?args (e, ()) (replicate 100 (Callback (Stopped demo_pod demo_ctr))) (t, ())"
    using stops_possible [OF serving_state(7) [OF e], of demo_os ?args "()" 100 demo_pod demo_ctr] by blast
  have off: "f_containerMetrics ?args = Some noMetrics" "\<not> gm_has (pod_Annotations demo_pod) annRDT" by code_simp+
  have many: "100 \<le> length (filter reports (replicate 100 (Callback (Stopped demo_pod demo_ctr))))" using off(2) by simp
  obtain parent where "pod_Linux demo_pod = Some parent" by (simp add: demo_pod_def)
  from idle_plugin_refuses_containers [OF e off(1) t many off(2) this] t show ?thesis by blast
qed

end
