(* ===== verification/Spec2Isabelle.thy ===== *)
theory Spec2Isabelle
  imports Go_Prelude GMC_Types Validating_Webhook Graph_Router Router_Correct Router_Handlers Router_Main
    GMC_Controller Controller_Correct Webhook_Setup Go_Json_Roundtrip Graph_Handover Deep_Copy Manager_Main
    Go_Float Go_Time Mbx_Stats Mbx_Rates Mbx_Collectors Mbx_Collect_Correct Mbx_System Mbx_Registry Mbx_Main
begin

text \<open>
  A verification of the two Go programs of the repository: the GenAI Microservices Connector
  (\<open>microservices-connector/\<close>), which deploys a graph of AI services on Kubernetes and routes requests through it,
  and the memory bandwidth exporter (\<open>kubernetes-addons/memory-bandwidth-exporter/\<close>), which publishes the memory
  bandwidth, cache occupancy, CPU and memory use of containers, RDT classes and the node to Prometheus.

  \<^bold>\<open>The connector.\<close> A user submits a GMConnector resource: named nodes, each with a router type (sequence,
  ensemble, switch) and a list of steps that run another node or a service.
  The admission webhook (\<open>api/v1alpha3/validating_webhook.go\<close>) checks the graph. The controller
  (\<open>internal/controller/gmconnector_controller.go\<close>) deploys the services of its steps from manifests, writes the
  URL of each service into its step, and starts a router with the graph as argument. The router
  (\<open>cmd/router/main.go\<close>) takes requests over HTTP and runs the graph on them. Webhook and controller run in one
  manager process (\<open>cmd/main.go\<close>), which at its start makes the certificate of the webhook and tells the API server
  of it. Graphs pass between the API server and the controller as copies made by generated code
  (\<open>api/v1alpha3/zz_generated.deepcopy.go\<close>).

  \<^bold>\<open>The exporter.\<close> An NRI plugin (\<open>plugin/hook-injector.go\<close>) hears of containers from the container runtime. It
  asks for a hook that makes a monitoring group of the resctrl file system for each, and sends a message on a bounded
  channel (\<open>info/container.go\<close>). The container collector (\<open>collector/container_collector.go\<close>) takes the
  messages off, moves the threads of a container into its group and samples its counters periodically; two more
  collectors sample the RDT classes and the node. \<open>collector/common.go\<close> reads the counters and turns two samples into
  rates. A scrape (\<open>cmd/main.go\<close>, \<open>collector/collector.go\<close>) selects collectors and publishes what their caches hold.
  \<open>main\<close> reads the flags, starts the plugin and creates the enabled collectors, each of which starts its own loops.

  \<^bold>\<open>The theories of the connector.\<close>
  \<^item> \<open>Go_Prelude\<close>: panics, Go maps as association lists in the order a run visits them, strings, decimals.
  \<^item> \<open>Go_Json\<close>: \<open>json.Unmarshal\<close> and \<open>json.Marshal\<close> on \<open>interface{}\<close> values, down to the bytes.
  \<^item> \<open>Go_Json_Roundtrip\<close>: what \<open>json.Marshal\<close> prints of valid UTF-8 is parsed back to the same tree.
  \<^item> \<open>Go_Http\<close>: response bodies as packet streams that can be drained and closed; response writers.
  \<^item> \<open>GMC_Types\<close>: the records of \<open>api/v1alpha3/gmconnector_types.go\<close>.
  \<^item> \<open>Validating_Webhook\<close>: every check of the webhook with its errors, and the declarative \<open>graph_valid\<close>.
  \<^item> \<open>Graph_Router\<close>: \<open>routeStep\<close>, \<open>executeStep\<close>, \<open>callService\<close> and the three pipelines, on the state \<open>'w rs\<close>
    (environment, log of requests, outside world). The locales \<open>step_runner\<close> and \<open>runner_refines\<close> state what
    the pipelines need of the function that executes a step; \<open>routeStep\<close> interprets them.
  \<^item> \<open>Router_Correct\<close>: which services a run may call, when it ends (locale \<open>finishing_runner\<close>), what sequences and
    ensembles compute over services that answer by a function, and where they panic.
  \<^item> \<open>Router_Handlers\<close>: the four HTTP handlers and the dispatch on the path.
  \<^item> \<open>Router_Main\<close>: \<open>main\<close> of the router, with the decoding of its argument into the structs by their tags.
  \<^item> \<open>GMC_Controller\<close>: \<open>Reconcile\<close> and all it calls, on a log of write requests and a cluster \<open>'w\<close>.
  \<^item> \<open>Controller_Correct\<close>: order and extent of the writes of a reconciliation, the keys of recorded objects
    (locale \<open>key_codec\<close>, interpreted on \<open>resource_key\<close> and \<open>recorded_object\<close>), retries, status, event filters.
  \<^item> \<open>Webhook_Setup\<close>: the certificate of the webhook and its configuration in the cluster
    (\<open>internal/controller/webhook_config.go\<close>, \<open>cert.go\<close>).
  \<^item> \<open>Graph_Handover\<close>: the way of a graph from \<open>reconcileRouterService\<close> through the manifest into the router's \<open>main\<close>. The
    locale \<open>canonical_exec\<close> (a step runner does not see what JSON leaves out) is interpreted on the router.
  \<^item> \<open>Deep_Copy\<close>: the generated copies on a heap of cells. The locale \<open>deep_copier\<close> is the contract of a copy (same contents,
    new memory only); it is interpreted on the copies of all types of the spec, and shown for the types that hold
    structs of Kubernetes if it holds for those.
  \<^item> \<open>Manager_Main\<close>: \<open>main\<close> of the manager as a sequence of stages, the options of its servers, the set-up of webhook and
    controller, and the log level handler.
  \<^item> This theory: the properties that span the router's engine, its handlers and the controller.

  \<^bold>\<open>The theories of the exporter.\<close>
  \<^item> \<open>Go_Float\<close>: \<open>float64\<close> as rationals with IEEE rounding, infinities and NaN, and bounds on the rounding error.
  \<^item> \<open>Go_Time\<close>: printing and parsing wall clock times, durations and \<open>Seconds()\<close>.
  \<^item> \<open>Mbx_Stats\<close>: \<open>common.go\<close> and \<open>collector/info.go\<close> in the state monad over the operating system: reading the
    counters of a group, \<open>processStats\<close>, and the way of a container's threads into its monitoring group.
  \<^item> \<open>Mbx_Rates\<close>: the rates against the exact quotients, samples of the same second, the CPU figure under cgroup v1,
    and that the thread ids listed for a container are written to the tasks file of its group.
  \<^item> \<open>Mbx_Collectors\<close>: the three collectors, their descriptions, caches and \<open>Update\<close>. The locale \<open>sampling\<close> is the
    contract of a cache: a successful update compares the new sample with the last one.
  \<^item> \<open>Mbx_Collect_Correct\<close>: interpretations of \<open>sampling\<close> on the caches of all three collectors, and what the class
    collector publishes.
  \<^item> \<open>Mbx_System\<close>: the plugin's callbacks, the channel, and the system as a labelled transition relation \<open>sys_step\<close> with
    runs \<open>sys_run\<close>. The locale \<open>kept\<close> (what every step keeps, every run keeps) is interpreted on the invariant of
    the container tables, on containers that are gone, and on goroutines that are blocked.
  \<^item> \<open>Mbx_Registry\<close>: the flags, registration and creation of collectors, and \<open>ServeHTTP\<close> with its filters.
  \<^item> \<open>Mbx_Main\<close>: \<open>main\<close>, \<open>Run\<close> of the plugin, and the whole process as a transition relation \<open>ex_step\<close>: callbacks, scrapes, the
    loops that the \<open>Start\<close> functions launch, and the goroutines of containers. The locale \<open>ex_kept\<close> is interpreted on
    what stays as it was started, and \<open>ex_step\<close> is simulated by \<open>sys_step\<close>.

  \<^bold>\<open>What is shown of the connector.\<close> The webhook admits exactly the valid graphs and reports every violation once, in whatever
  order Go visits the node map. On admitted graphs without cyclic nodes routing ends, and there are
  admitted graphs on which it does not. A run contacts only services it can reach. A sequence
  is the composition of its services, a switch that of the services whose condition holds, and an ensemble their
  merge, up to the bytes the client receives.
  The error paths are characterised: what is answered with which status, and which inputs panic. A successful
  reconciliation applies objects, deletes exactly what is no longer recorded and records all it applied, and the
  URL it records is the one the router calls. The graph it hands to the router is the graph the router runs, unless it
  has a single quote, with which the manifest cannot be read. A copy of a graph shares no memory with it. Once the manager
  is made, the API server trusts the certificate that the webhook serves, and a start-up that fails stops at the
  failing stage.

  \<^bold>\<open>What is shown of the exporter.\<close> A published bandwidth is the number of bytes between two samples divided by
  the seconds between them, up to a relative error of four units in the last place; with samples of the same second it is
  infinite or not a number, and under cgroup v1 the CPU figure is a thousand times too large. In every reachable
  state a scrape publishes only containers the exporter was told of and has not been told to forget, containers found at
  start-up are monitored when the channel is drained, a stopped container does not come back, and gauges have the
  labels their descriptions ask for. A scrape reports exactly the selected collectors. In the whole process each enabled
  collector exists once with its loops, and its containers behave as the container system says; without the
  container collector the plugin's reports pile up until the runtime is refused. A failed update leaves the old
  gauges in place for good; a removed RDT class stops the sampling of the classes after it, and a scrape before the
  first sample of a class panics.

  \<^bold>\<open>Bounds.\<close> Go's recursion is unbounded: \<open>routeStep\<close> takes the call depth it may use and returns
  \<open>Unfinished\<close> beyond it. A depth above the number of nodes is enough on an admitted graph without cycles, and a
  finished run does not depend on the depth. The retries of \<open>applyResourceToK8s\<close> are bounded by the number of ticks
  before its timeout (one minute in steps of 100 milliseconds). All other loops are structural, or a \<open>function\<close> with
  a measure (the relay of a response body, by the bytes left). The endless loops of the exporter's
  goroutines are not functions: each round is a step of \<open>sys_step\<close>. Counters are \<open>64 word\<close>, and their
  differences wrap as in Go; \<open>float64\<close> is exact up to the sign of zero.

  \<^bold>\<open>Parameters.\<close> Code outside the repository is a field of the records \<open>'w ext\<close>, \<open>'w hext\<close> and \<open>'w k8s\<close>:
  the HTTP transport, URL parsing, \<open>gjson\<close>, the reverse proxy, the API server, YAML decoding, the conversions of
  the scheme and \<open>SetControllerReference\<close>; so are the choices of the runtime (order of goroutines, \<open>select\<close>, boundary
  of a form, timeouts). What a theorem needs of them is a hypothesis, such as \<open>pure_services\<close>, \<open>fair_spawn\<close> or
  \<open>identity_kept\<close>. The exporter runs on the record \<open>'w os\<close> (files, directories, clock) and a hook manager; its theorems
  use hypotheses such as \<open>cgroup_v1\<close>, \<open>journal\<close> and \<open>empty_path_missing\<close>. The decoding of a YAML scalar in single quotes
  (\<open>yaml_single_quoted\<close>), of Kubernetes' metadata (\<open>null_times\<close>), and the copies of Kubernetes' structs are parameters, as are
  \<open>controller-runtime\<close> with the client (record \<open>ctrl\<close>), the API server's defaults (\<open>server_defaults\<close>, \<open>keeps_reference\<close>), \<open>zap\<close>,
  the NRI stub and hook manager (record \<open>nri\<close>) and the Prometheus registry.

  \<^bold>\<open>Not modelled.\<close> Logging, timing and the semaphore of \<open>callService\<close>, which have no effect on an answer; the interleaving
  of goroutines within a step; floating point beyond 15 digits in JSON; \<open>Content-Length\<close> checks of response writers;
  template actions other than fields; the parsing of command lines by the flag libraries, and the registration of
  types with the Kubernetes scheme, both of which are calls into libraries; settings of the HTTP transport; constants that
  no code uses; interleavings of the exporter's goroutines finer than whole calls, and its waiting times; the Prometheus
  registry and help texts; Helm charts and scripts.
\<close>

section \<open>Properties across components\<close>

text \<open>C1: a sequence is the composition of its services. Over services that answer by a function of URL and
  body, the client of a sequence of plain steps gets, with status 200, exactly what the abstract
  pipeline computes: each step that is not a downstream service is called once and in order, on the
  previous answer when it asks for it and on the request otherwise.\<close>

theorem sequence_answers_composition:
  assumes "pure_services E f" "node_at (graph_nodes g) ''root'' = \<lparr>routerType = Sequence, Steps = steps\<rparr>"
    and "\<forall>st \<in> set steps. plain_step st" "\<exists>st \<in> set steps. \<not> step_downstream st"
    and "init_req_data inp = Some d" "gm_get d Parameters = None"
  shows "\<exists>w s'. mcGraphHandler (Suc k) E g None (NewReadCloser inp) new_writer s = (Ret w, s') \<and> final_status w = 200 \<and>
    w_body w = fst (chain step_downstream f (graph_ns g) inp 0 steps []) \<and>
    requests s' = requests s @ snd (chain step_downstream f (graph_ns g) inp 0 steps [])"
proof -
  obtain b s' where "routeStep (Suc k) E g ''root'' inp inp s = (Ret (Some b, 200, None), s')" "stream_fresh b"
    and "concat (sr_packets b) = fst (chain step_downstream f (graph_ns g) inp 0 steps [])"
    and "requests s' = requests s @ snd (chain step_downstream f (graph_ns g) inp 0 steps [])"
    using sequence_node_pure [OF assms] by blast
  with readAll_NewReadCloser [of inp] graph_handler_relays show ?thesis by metis
qed

definition tagging :: "string \<Rightarrow> bytes \<Rightarrow> bytes" where
  "tagging u b = u @ '':'' @ b"

theorem sequence_answers_composition_witness:
  "\<exists>w s'. mcGraphHandler 1 (demo_ext tagging) (one_step_graph Sequence [service_step ''Embedding'' ''e'' [], service_step ''Llm'' ''l'' ''$response''])
      None (NewReadCloser ''{}'') new_writer demo_state = (Ret w, s') \<and> final_status w = 200 \<and> w_body w = ''l:e:{}'' \<and>
    requests s' = [(''e'', ''{}''), (''l'', ''e:{}'')]"
proof -
  let ?steps = "[service_step ''Embedding'' ''e'' [], service_step ''Llm'' ''l'' ''$response'']"
  have d: "init_req_data ''{}'' = Some []" by code_simp
  have "pure_services (demo_ext tagging) tagging" by (rule pure_services_demo) (simp add: tagging_def)
  from sequence_answers_composition [OF this _ _ _ d, of "one_step_graph Sequence ?steps" ?steps 0 demo_state]
  show ?thesis
    by (simp add: one_step_graph_def node_at_def gm_simps tagging_def requests_def demo_state_def Let_def)
qed

text \<open>C9: an ensemble is the merge of its answers. Over services that answer by a function, with JSON objects,
  the client gets, whatever the order in which the goroutines run and whatever \<open>select\<close> picks, the object
  that holds under the key of each step its answer to the request; each service is called once.\<close>

theorem ensemble_answers_merge:
  assumes "pure_services E f" "fair_spawn E" "node_at (graph_nodes g) ''root'' = \<lparr>routerType = Ensemble, Steps = steps\<rparr>"
    and "\<forall>st \<in> set steps. ensemble_step f (graph_ns g) inp st"
  shows "\<exists>w s' new. mcGraphHandler (Suc k) E g None (NewReadCloser inp) new_writer s = (Ret w, s') \<and> final_status w = 200 \<and>
    w_body w = marshal_map (merged_answers (answer_json f (graph_ns g) inp) 0 steps []) \<and>
    requests s' = requests s @ new \<and> mset new = mset (map (\<lambda>st. (getServiceURLByStepTarget st (graph_ns g), inp)) steps)"
proof -
  let ?b = "NewReadCloser (marshal_map (merged_answers (answer_json f (graph_ns g) inp) 0 steps []))"
  obtain s' new where run: "routeStep (Suc k) E g ''root'' inp inp s = (Ret (Some ?b, 200, None), s')"
    and "requests s' = requests s @ new"
    and "mset new = mset (map (\<lambda>st. (getServiceURLByStepTarget st (graph_ns g), inp)) steps)"
    using ensemble_node_pure [OF assms] by blast
  moreover obtain b' where "readAll (NewReadCloser inp) = (inp, None, b')" using readAll_NewReadCloser by blast
  from graph_handler_relays [OF this run] obtain w where
    "mcGraphHandler (Suc k) E g None (NewReadCloser inp) new_writer s = (Ret w, s')" "final_status w = 200"
    "w_body w = marshal_map (merged_answers (answer_json f (graph_ns g) inp) 0 steps [])" by auto
  ultimately show ?thesis by blast
qed

definition url_object :: "string \<Rightarrow> bytes \<Rightarrow> bytes" where
  "url_object u b = marshal_map [(''url'', JStr u)]"

theorem ensemble_answers_merge_witness:
  "\<exists>w s'. mcGraphHandler 1 (demo_ext url_object) (one_step_graph Ensemble [service_step ''Tts'' ''t'' [], service_step ''Asr'' ''a'' []])
      None (NewReadCloser ''x'') new_writer demo_state = (Ret w, s') \<and> final_status w = 200 \<and>
    w_body w = marshal_map [(''Tts'', JObj [(''url'', JStr ''t'')]), (''Asr'', JObj [(''url'', JStr ''a'')])]"
proof -
  let ?steps = "[service_step ''Tts'' ''t'' [], service_step ''Asr'' ''a'' []]"
  have pure: "pure_services (demo_ext url_object) url_object"
    by (rule pure_services_demo) (simp add: url_object_def marshal_map_def)
  have dec: "unmarshal_map (url_object ''t'' ''x'') = Some (Some [(''url'', JStr ''t'')])"
    "unmarshal_map (url_object ''a'' ''x'') = Some (Some [(''url'', JStr ''a'')])" by code_simp+
  have "merged_answers (answer_json url_object [] ''x'') 0 ?steps [] =
      [(''Tts'', JObj [(''url'', JStr ''t'')]), (''Asr'', JObj [(''url'', JStr ''a'')])]"
    by (simp add: answer_json_def dec json_of_map_def step_key_def gm_set_def)
  with ensemble_answers_merge [OF pure, of "one_step_graph Ensemble ?steps" ?steps "''x''" 0 demo_state] dec
  show ?thesis
    by (fastforce simp: one_step_graph_def node_at_def gm_simps ensemble_step_def)
qed

text \<open>C10: a switch is the composition of the services of all its steps whose condition holds, in order, and
  not of one of them: the client gets the last answer, and every such service is called.\<close>

theorem switch_answers_all_matches:
  assumes "pure_services E f" "node_at (graph_nodes g) ''root'' = \<lparr>routerType = Switch, Steps = steps\<rparr>"
    and "\<forall>st \<in> set steps. leaf_step st" "\<exists>st \<in> set steps. \<not> not_taken E inp st"
    and "init_req_data inp = Some d" "gm_get d Parameters = None"
  shows "\<exists>w s'. mcGraphHandler (Suc k) E g None (NewReadCloser inp) new_writer s = (Ret w, s') \<and> final_status w = 200 \<and>
    w_body w = fst (chain (not_taken E inp) f (graph_ns g) inp 0 steps []) \<and>
    requests s' = requests s @ snd (chain (not_taken E inp) f (graph_ns g) inp 0 steps [])"
proof -
  obtain b s' where "routeStep (Suc k) E g ''root'' inp inp s = (Ret (Some b, 200, None), s')" "stream_fresh b"
    and "concat (sr_packets b) = fst (chain (not_taken E inp) f (graph_ns g) inp 0 steps [])"
    and "requests s' = requests s @ snd (chain (not_taken E inp) f (graph_ns g) inp 0 steps [])"
    using switch_node_pure [OF assms] by blast
  with readAll_NewReadCloser [of inp] graph_handler_relays show ?thesis by metis
qed

theorem switch_answers_all_matches_witness:
  "\<exists>w s'. mcGraphHandler 1 (demo_ext tagging) (one_step_graph Switch
        [service_step ''Tgi'' ''t'' [], (service_step ''Tts'' ''s'' [])\<lparr>Condition := ''model==a''\<rparr>, service_step ''Llm'' ''l'' []])
      None (NewReadCloser ''{}'') new_writer demo_state = (Ret w, s') \<and> final_status w = 200 \<and> w_body w = ''l:{}'' \<and>
    requests s' = [(''t'', ''{}''), (''l'', ''{}'')]"
proof -
  let ?c = "(service_step ''Tts'' ''s'' [])\<lparr>Condition := ''model==a''\<rparr>"
  let ?steps = "[service_step ''Tgi'' ''t'' [], ?c, service_step ''Llm'' ''l'' []]"
  have d: "init_req_data ''{}'' = Some []" by code_simp
  have pure: "pure_services (demo_ext tagging) tagging" by (rule pure_services_demo) (simp add: tagging_def)
  have skip: "not_taken (demo_ext tagging) ''{}'' ?c" "\<not> not_taken (demo_ext tagging) ''{}'' (service_step ''Tgi'' ''t'' [])"
    "\<not> not_taken (demo_ext tagging) ''{}'' (service_step ''Llm'' ''l'' [])" by code_simp+
  have leaf: "leaf_step ?c" "leaf_step (service_step n u dt)" for n u dt
    by (simp_all add: leaf_step_def service_step_def zero_defs)
  from switch_answers_all_matches [OF pure _ _ _ d, of "one_step_graph Switch ?steps" ?steps 0 demo_state] skip leaf
  show ?thesis
    by (simp add: one_step_graph_def node_at_def gm_simps tagging_def requests_def demo_state_def Let_def)
qed

text \<open>C32: a switch of which no step applies ends the process: the routing returns neither a body nor an error,
  and the handler reads from the missing body.\<close>

theorem switch_without_match_panics:
  assumes "node_at (graph_nodes g) ''root'' = \<lparr>routerType = Switch, Steps = steps\<rparr>" "init_req_data inp \<noteq> None"
    and "\<forall>st \<in> set steps. step_downstream st \<or> (Condition st \<noteq> [] \<and> \<not> pickupRouteByCondition E inp (Condition st))"
  shows "mcGraphHandler (Suc k) E g None (NewReadCloser inp) w s = (Panic, s)"
proof -
  obtain d where "init_req_data inp = Some d" using assms(2) by blast
  then have "routeStep (Suc k) E g ''root'' inp inp s = (Ret (None, 0, None), s)"
    using assms(1) switch_no_match [OF assms(3)] by (simp add: handleSwitchPipeline_def)
  with readAll_NewReadCloser [of inp] graph_handler_nil_body show ?thesis by blast
qed

theorem switch_without_match_panics_witness:
  "mcGraphHandler 1 (demo_ext tagging) (one_step_graph Switch [(service_step ''Llm'' ''l'' [])\<lparr>Condition := ''model==a''\<rparr>])
     None (NewReadCloser ''{}'') new_writer demo_state = (Panic, demo_state)"
  unfolding One_nat_def
proof (rule switch_without_match_panics)
  show "init_req_data ''{}'' \<noteq> None" by code_simp
  show "\<forall>st \<in> set [(service_step ''Llm'' ''l'' [])\<lparr>Condition := ''model==a''\<rparr>]. step_downstream st \<or>
      (Condition st \<noteq> [] \<and> \<not> pickupRouteByCondition (demo_ext tagging) ''{}'' (Condition st))" by code_simp
qed (simp add: one_step_graph_def node_at_def gm_simps)

text \<open>C33: a step of a sequence whose condition does not hold of the previous answer does not end the sequence with
  that answer: the client gets status 500 and the text of a read error, since the body was read and closed.\<close>

theorem condition_mismatch_loses_answer:
  assumes "pure_services E f" "node_at (graph_nodes g) ''root'' = \<lparr>routerType = Sequence, Steps = st1 # st2 # sts\<rparr>"
    and "plain_step st1" "\<not> step_downstream st1" "\<not> step_downstream st2" "Condition st2 \<noteq> []"
    and "gjson_valid E (f (getServiceURLByStepTarget st1 (graph_ns g)) inp)"
    and "\<not> gjson_exists E (f (getServiceURLByStepTarget st1 (graph_ns g)) inp) (Condition st2)"
    and "init_req_data inp = Some d" "gm_get d Parameters = None"
  shows "\<exists>w s'. mcGraphHandler (Suc k) E g None (NewReadCloser inp) new_writer s = (Ret w, s') \<and> final_status w = 500 \<and>
    w_body w = ''failed to read from response body'' @ [CHR 0x0A]"
proof -
  obtain b s' where b: "routeStep (Suc k) E g ''root'' inp inp s = (Ret (Some b, 500, None), s')" "sr_unreadable b"
    using sequence_node_mismatch [OF assms] by blast
  with readAll_NewReadCloser [of inp] graph_handler_unreadable show ?thesis by blast
qed

theorem condition_mismatch_loses_answer_witness:
  "\<exists>w s'. mcGraphHandler 1 (demo_ext tagging) (one_step_graph Sequence [service_step ''Embedding'' ''e'' [], (service_step ''Llm'' ''l'' [])\<lparr>Condition := ''more''\<rparr>])
      None (NewReadCloser ''{}'') new_writer demo_state = (Ret w, s') \<and> final_status w = 500 \<and>
    w_body w = ''failed to read from response body'' @ [CHR 0x0A]"
  unfolding One_nat_def
proof (rule condition_mismatch_loses_answer [where f = tagging and d = "[]" and ?st1.0 = "service_step ''Embedding'' ''e'' []"
      and ?st2.0 = "(service_step ''Llm'' ''l'' [])\<lparr>Condition := ''more''\<rparr>" and sts = "[]"])
  show "pure_services (demo_ext tagging) tagging" by (rule pure_services_demo) (simp add: tagging_def)
  show "init_req_data ''{}'' = Some []" by code_simp
qed (simp_all add: one_step_graph_def node_at_def gm_simps demo_ext_def service_step_def zero_defs plain_step_def leaf_step_def)

text \<open>C15: the URL the controller records is the URL the router calls: recording the service object of a step sets the
  URL of that step, and of no other, to the URL of the service followed by the configured endpoint.\<close>

theorem recorded_url_is_called:
  assumes "ko_kind obj = ''Service''" "to_service K obj = Inr s" "getServiceURL s \<noteq> []"
    and "gm_get (graph_nodes g) n = Some r" "i < length (Steps r)"
  shows "\<exists>g'. recordResource K g n i obj = Ret (None, g') \<and>
    getServiceURLByStepTarget (Steps (node_at (graph_nodes g') n) ! i) ns = getServiceURL s @ step_cfg (Steps r ! i) ''endpoint'' \<and>
    (\<forall>m j. m \<noteq> n \<or> j \<noteq> i \<longrightarrow> Steps (node_at (graph_nodes g') m) ! j = Steps (node_at (graph_nodes g) m) ! j)"
proof -
  let ?url = "getServiceURL s @ step_cfg (Steps r ! i) ''endpoint''"
  let ?g = "annotate (resource_key obj) ''provisioned'' g"
  have nodes: "graph_nodes (annotate k v h) = graph_nodes h" for k v h by (simp add: annotate_def)
  have ne: "graph_nodes g \<noteq> []" "Steps r \<noteq> []" using assms(4,5) by (auto simp: gm_get_def)
  have r: "node_at (graph_nodes g) n = r" using assms(4) by (simp add: node_at_def)
  have "recordResource K g n i obj = Ret (None, annotate (resource_key obj) ?url (set_step_url n i ?url ?g))"
    using assms(1,2,5) ne r by (simp add: recordResource_def nodes Let_def)
  moreover have "node_at (graph_nodes (set_step_url n i ?url ?g)) m =
      (if m = n then r\<lparr>Steps := (Steps r)[i := (Steps r ! i)\<lparr>ServiceURL := ?url\<rparr>]\<rparr> else node_at (graph_nodes g) m)" for m
    using r by (simp add: set_step_url_def nodes Let_def) (simp add: node_at_def)
  ultimately show ?thesis
    using assms(3,5) r by (auto simp: nodes getServiceURLByStepTarget_def)
qed

theorem recorded_url_is_called_witness:
  "\<exists>g'. recordResource demo_k8s demo_graph ''root'' 0 (demo_obj ''Service'' ''llm'') = Ret (None, g') \<and>
     getServiceURLByStepTarget (Steps (node_at (graph_nodes g') ''root'') ! 0) [] = ''http://llm.ns.svc.cluster.local:80''"
proof -
  let ?s = "demo_service\<lparr>sv_name := ''llm'', sv_namespace := ''ns''\<rparr>"
  let ?r = "the (gm_get (graph_nodes demo_graph) ''root'')"
  have url: "getServiceURL ?s = ''http://llm.ns.svc.cluster.local:80''" by code_simp
  have e: "step_cfg (Steps ?r ! 0) ''endpoint'' = []" by code_simp
  have "gm_get (graph_nodes demo_graph) ''root'' = Some ?r" "0 < length (Steps ?r)" by code_simp+
  from recorded_url_is_called [OF _ _ _ this, of "demo_obj ''Service'' ''llm''" demo_k8s ?s "[]"] url e
  show ?thesis by (auto simp: demo_obj_def demo_k8s_def)
qed

end
